(* ===== verification/Prelude.thy ===== *)
theory Prelude
  imports Main "HOL-Library.Word"
begin

text \<open>
  Shared vocabulary of the development: bytes and Go strings, errors and panics as values,
  bounds-checked slices and buffer writes, big-endian integers, and the lemmas on them that the
  component theories use through the collections \<open>codec\<close> and \<open>res\<close>.

  A Go \<open>string\<close> and a \<open>[]byte\<close> are both byte lists here: the conversions \<open>[]byte(s)\<close> and
  \<open>string(b)\<close> of the source copy the same bytes.  A fixed array \<open>[32]byte\<close> (a key) or
  \<open>[16]byte\<close> (a UUID) is the word of that many bits whose big-endian bytes are the array's
  elements, so its length is part of its type.  Go's \<open>int\<close> has 64 bits; lengths and offsets are
  \<open>nat\<close>, and no sum of the source's lengths reaches \<open>2 ^ 63\<close> on a buffer that fits in memory.
\<close>

named_theorems codec \<open>byte-level equations: big-endian integers, slices, buffer writes\<close>
named_theorems res \<open>equations of results, errors and panics\<close>
named_theorems safe \<open>introduction rules for the panics a decoder may raise\<close>
named_theorems returned \<open>what a successful read of a decoder says\<close>

subsection \<open>Types\<close>

type_synonym byte = "8 word"
type_synonym bytes = "byte list"
type_synonym gostring = "bytes"
type_synonym uuid = "128 word"
type_synonym key = "256 word"

abbreviation uuid_Nil :: uuid where
  "uuid_Nil \<equiv> 0"

text \<open>
  A \<open>time.Time\<close> in UTC is its nanoseconds since the Unix epoch; \<open>UnixNano\<close> gives them as an
  \<open>int64\<close>, which wraps outside the years 1678 to 2262.
\<close>

type_synonym time = int

definition int64 :: "int \<Rightarrow> int" where
  "int64 x = (x + 2 ^ 63) mod 2 ^ 64 - 2 ^ 63"

definition UnixNano :: "time \<Rightarrow> int" where
  "UnixNano t = int64 t"

text \<open>A string literal of the source, as its ASCII bytes.\<close>

definition str :: "string \<Rightarrow> gostring" where
  "str s = map of_char s"

text \<open>
  Errors are values; \<open>Wrap\<close> is \<open>fmt.Errorf\<close> with \<open>%w\<close>.  The sentinels are the error variables the
  source compares against.  A panic (a failed bounds check, an explicit \<open>panic\<close>, a division by
  zero) is no error value: it unwinds the caller, so it is a separate constructor of \<open>fault\<close>.
\<close>

datatype go_error =
    Errorf string
  | Wrap string go_error
  | ErrNotExist
  | ErrNotOwner
  | ErrSessionExists

datatype fault = Err go_error | Panic string

type_synonym 'a result = "fault + 'a"

abbreviation Fail :: "string \<Rightarrow> 'a result" where
  "Fail s \<equiv> Inl (Err (Errorf s))"

primrec errors_Is :: "go_error \<Rightarrow> go_error \<Rightarrow> bool" where
  "errors_Is (Errorf s) t \<longleftrightarrow> t = Errorf s"
| "errors_Is (Wrap s e) t \<longleftrightarrow> t = Wrap s e \<or> errors_Is e t"
| "errors_Is ErrNotExist t \<longleftrightarrow> t = ErrNotExist"
| "errors_Is ErrNotOwner t \<longleftrightarrow> t = ErrNotOwner"
| "errors_Is ErrSessionExists t \<longleftrightarrow> t = ErrSessionExists"

text \<open>Sequencing: a fault ends the function.\<close>

definition bindR :: "'a result \<Rightarrow> ('a \<Rightarrow> 'b result) \<Rightarrow> 'b result" where
  "bindR r f = (case r of Inl e \<Rightarrow> Inl e | Inr v \<Rightarrow> f v)"

text \<open>\<open>if err != nil { return fmt.Errorf(msg, err) }\<close>: an error is wrapped, a panic passes.\<close>

definition wrapR :: "string \<Rightarrow> 'a result \<Rightarrow> 'a result" where
  "wrapR msg r = (case r of Inl (Err e) \<Rightarrow> Inl (Err (Wrap msg e)) | _ \<Rightarrow> r)"

primrec wrap_fault :: "string \<Rightarrow> fault \<Rightarrow> fault" where
  "wrap_fault msg (Err e) = Err (Wrap msg e)"
| "wrap_fault msg (Panic p) = Panic p"

text \<open>\<open>if !cond { return errors.New(msg) }\<close>.\<close>

definition guardR :: "bool \<Rightarrow> string \<Rightarrow> 'a result \<Rightarrow> 'a result" where
  "guardR b msg r = (if b then r else Fail msg)"

text \<open>A loop that appends one result per element and returns at the first fault.\<close>

primrec mapR :: "('a \<Rightarrow> 'b result) \<Rightarrow> 'a list \<Rightarrow> 'b list result" where
  "mapR f [] = Inr []"
| "mapR f (x # xs) = bindR (f x) (\<lambda>y. bindR (mapR f xs) (\<lambda>ys. Inr (y # ys)))"

definition is_panic :: "'a result \<Rightarrow> bool" where
  "is_panic r = (case r of Inl (Panic _) \<Rightarrow> True | _ \<Rightarrow> False)"

text \<open>Every panic of \<open>r\<close> is one of \<open>F\<close>; with \<open>F\<close> empty, \<open>r\<close> does not panic.\<close>

definition panics_only :: "string set \<Rightarrow> 'a result \<Rightarrow> bool" where
  "panics_only F r = (case r of Inl (Panic p) \<Rightarrow> p \<in> F | _ \<Rightarrow> True)"

subsection \<open>Slices and big-endian integers\<close>

abbreviation oob :: "'a result" where
  "oob \<equiv> Inl (Panic ''runtime error: index out of range'')"

text \<open>\<open>data[a:b]\<close>, with Go's bounds check.\<close>

definition slice :: "bytes \<Rightarrow> nat \<Rightarrow> nat \<Rightarrow> bytes result" where
  "slice data a b =
     (if a \<le> b \<and> b \<le> length data then Inr (take (b - a) (drop a data)) else oob)"

primrec nat_be :: "nat \<Rightarrow> nat \<Rightarrow> bytes" where
  "nat_be 0 x = []"
| "nat_be (Suc n) x = of_nat (x div 256 ^ n) # nat_be n x"

primrec be_nat :: "bytes \<Rightarrow> nat" where
  "be_nat [] = 0"
| "be_nat (b # bs) = unat b * 256 ^ length bs + be_nat bs"

text \<open>\<open>binary.BigEndian.UintN(data[off:])\<close> reads \<open>n\<close> bytes and panics when fewer are left.\<close>

definition get_be :: "nat \<Rightarrow> bytes \<Rightarrow> nat \<Rightarrow> nat result" where
  "get_be n data off =
     (if off + n \<le> length data then Inr (be_nat (take n (drop off data))) else oob)"

definition Uint16 :: "bytes \<Rightarrow> nat \<Rightarrow> 16 word result" where
  "Uint16 data off = bindR (get_be 2 data off) (\<lambda>x. Inr (of_nat x))"

definition Uint32 :: "bytes \<Rightarrow> nat \<Rightarrow> 32 word result" where
  "Uint32 data off = bindR (get_be 4 data off) (\<lambda>x. Inr (of_nat x))"

definition Uint64 :: "bytes \<Rightarrow> nat \<Rightarrow> 64 word result" where
  "Uint64 data off = bindR (get_be 8 data off) (\<lambda>x. Inr (of_nat x))"

text \<open>
  \<open>binary.BigEndian.PutUintN(buf[off:], v)\<close> writes \<open>n\<close> bytes and panics when fewer are left;
  \<open>copy(buf[off:], src)\<close> writes as much of \<open>src\<close> as fits.
\<close>

definition put_be :: "nat \<Rightarrow> bytes \<Rightarrow> nat \<Rightarrow> nat \<Rightarrow> bytes result" where
  "put_be n buf off x =
     (if off + n \<le> length buf
      then Inr (take off buf @ nat_be n x @ drop (off + n) buf) else oob)"

definition PutUint16 :: "bytes \<Rightarrow> nat \<Rightarrow> 16 word \<Rightarrow> bytes result" where
  "PutUint16 buf off v = put_be 2 buf off (unat v)"

definition PutUint32 :: "bytes \<Rightarrow> nat \<Rightarrow> 32 word \<Rightarrow> bytes result" where
  "PutUint32 buf off v = put_be 4 buf off (unat v)"

definition PutUint64 :: "bytes \<Rightarrow> nat \<Rightarrow> 64 word \<Rightarrow> bytes result" where
  "PutUint64 buf off v = put_be 8 buf off (unat v)"

definition copy_at :: "bytes \<Rightarrow> nat \<Rightarrow> bytes \<Rightarrow> bytes result" where
  "copy_at buf off src =
     (if off \<le> length buf
      then (let n = min (length src) (length buf - off)
            in Inr (take off buf @ take n src @ drop (off + n) buf))
      else oob)"

text \<open>\<open>buf[off] = b\<close>.\<close>

definition set_at :: "bytes \<Rightarrow> nat \<Rightarrow> byte \<Rightarrow> bytes result" where
  "set_at buf off b = (if off < length buf then Inr (buf[off := b]) else oob)"

text \<open>\<open>make([]byte, n)\<close>.\<close>

definition make_bytes :: "nat \<Rightarrow> bytes" where
  "make_bytes n = replicate n 0"

text \<open>Fixed arrays and their bytes: \<open>k[:]\<close>, and \<open>copy(k[:], bs)\<close> of exactly as many bytes.\<close>

definition key_bytes :: "key \<Rightarrow> bytes" where
  "key_bytes k = nat_be 32 (unat k)"

definition key_of :: "bytes \<Rightarrow> key" where
  "key_of bs = of_nat (be_nat bs)"

definition uuid_bytes :: "uuid \<Rightarrow> bytes" where
  "uuid_bytes u = nat_be 16 (unat u)"

definition uuid_of :: "bytes \<Rightarrow> uuid" where
  "uuid_of bs = of_nat (be_nat bs)"

text \<open>
  A buffer that a writer has filled up to its current offset: the bytes written so far, then \<open>k\<close>
  zeroes left by \<open>make\<close>.
\<close>

definition filled :: "bytes \<Rightarrow> nat \<Rightarrow> bytes" where
  "filled p k = p @ replicate k 0"

text \<open>Offsets stay sums of numerals.\<close>

declare add_2_eq_Suc [simp del] add_2_eq_Suc' [simp del]

subsection \<open>Results\<close>

lemma bindR_simps [simp, res]:
  "bindR (Inl e) f = Inl e" "bindR (Inr v) f = f v"
  by (simp_all add: bindR_def)

lemma bindR_Inr_iff [res, returned]: "bindR r f = Inr v \<longleftrightarrow> (\<exists>u. r = Inr u \<and> f u = Inr v)"
  by (cases r) auto

lemma bindR_assoc: "bindR (bindR r f) g = bindR r (\<lambda>v. bindR (f v) g)"
  by (cases r) auto

lemma wrapR_simps [simp, res]:
  "wrapR m (Inr v) = Inr v" "wrapR m (Inl (Err e)) = Inl (Err (Wrap m e))"
  "wrapR m (Inl (Panic p)) = Inl (Panic p)"
  by (simp_all add: wrapR_def)

lemma wrapR_Inl [simp]: "wrapR m (Inl e) = Inl (wrap_fault m e)"
  by (cases e) auto

lemma wrap_fault_panic [simp]: "wrap_fault m e = Panic p \<longleftrightarrow> e = Panic p"
  by (cases e) auto

lemma wrapR_Panic_iff [simp]: "wrapR m r = Inl (Panic p) \<longleftrightarrow> r = Inl (Panic p)"
  by (cases r) auto

lemma wrapR_Inr_iff [simp, res]: "wrapR m r = Inr v \<longleftrightarrow> r = Inr v"
  by (auto simp: wrapR_def split: sum.splits fault.splits)

lemma guardR_Inr_iff [res, returned]: "guardR b m r = Inr v \<longleftrightarrow> b \<and> r = Inr v"
  by (simp add: guardR_def)

lemma guardR_simps [simp]: "guardR True m r = r" "guardR False m r = Fail m"
  by (simp_all add: guardR_def)

lemma mapR_Inr: "(\<And>x. x \<in> set xs \<Longrightarrow> f x = Inr (g x)) \<Longrightarrow> mapR f xs = Inr (map g xs)"
  by (induction xs) auto

lemma mapR_Inr_iff [returned]:
  "mapR f xs = Inr ys \<longleftrightarrow> list_all2 (\<lambda>x y. f x = Inr y) xs ys"
  by (induction xs arbitrary: ys) (auto simp: bindR_Inr_iff list_all2_Cons1)

lemma is_panic_simps [simp, res]:
  "\<not> is_panic (Inr v)" "\<not> is_panic (Inl (Err e))" "is_panic (Inl (Panic p))"
  by (simp_all add: is_panic_def)

lemma is_panic_Inl: "is_panic (Inl e) \<longleftrightarrow> (\<exists>p. e = Panic p)"
  by (cases e) auto

lemma is_panic_wrap_fault [simp]: "is_panic (Inl (wrap_fault m e)) = is_panic (Inl e)"
  by (simp add: is_panic_Inl)

lemma is_panic_wrapR [simp]: "is_panic (wrapR m r) = is_panic r"
  by (auto simp: wrapR_def is_panic_def split: sum.splits fault.splits)

lemma is_panic_bindR:
  "is_panic (bindR r f) \<longleftrightarrow> is_panic r \<or> (\<exists>v. r = Inr v \<and> is_panic (f v))"
  by (cases r) (auto simp: is_panic_Inl)

subsection \<open>Big-endian integers\<close>

lemma unat_less: "unat (w :: 'a::len word) < 2 ^ LENGTH('a)"
  by (rule unsigned_less)

lemma length_nat_be [simp, codec]: "length (nat_be n x) = n"
  by (induction n) auto

lemma be_nat_append: "be_nat (xs @ ys) = be_nat xs * 256 ^ length ys + be_nat ys"
  by (induction xs) (auto simp: algebra_simps power_add)

lemma be_nat_less: "be_nat bs < 256 ^ length bs"
proof (induction bs)
  case Nil
  then show ?case by simp
next
  case (Cons b bs)
  have "unat b < 256"
    using unat_less [of b] by simp
  then have "unat b * 256 ^ length bs \<le> 255 * 256 ^ length bs"
    by (intro mult_right_mono) auto
  with Cons have "unat b * 256 ^ length bs + be_nat bs < 256 * 256 ^ length bs"
    by linarith
  then show ?case by simp
qed

lemma be_nat_nat_be: "be_nat (nat_be n x) = x mod 256 ^ n"
proof (induction n)
  case 0
  then show ?case by simp
next
  case (Suc n)
  have "x mod (256 ^ n * 256) = 256 ^ n * (x div 256 ^ n mod 256) + x mod 256 ^ n"
    by (rule mod_mult2_eq)
  with Suc show ?case
    by (simp add: unat_of_nat mult.commute)
qed

lemma nat_be_mod: "nat_be n (y * 256 ^ n + x) = nat_be n x"
proof (induction n arbitrary: y)
  case 0
  then show ?case by simp
next
  case (Suc n)
  have eq: "y * 256 ^ Suc n + x = (y * 256) * 256 ^ n + x"
    by (simp add: algebra_simps)
  have d: "((y * 256) * 256 ^ n + x) div 256 ^ n = y * 256 + x div 256 ^ n"
    by simp
  have w: "(of_nat (y * 256 + x div 256 ^ n) :: byte) = of_nat (x div 256 ^ n)"
    by (rule word_unat_eq_iff [THEN iffD2]) (simp add: unat_of_nat del: of_nat_add of_nat_mult)
  show ?case
    unfolding nat_be.simps eq d w Suc ..
qed

lemma nat_be_be_nat [codec]: "nat_be (length bs) (be_nat bs) = bs"
proof (induction bs)
  case Nil
  then show ?case by simp
next
  case (Cons b bs)
  have "(unat b * 256 ^ length bs + be_nat bs) div 256 ^ length bs = unat b"
    using be_nat_less [of bs] by simp
  with Cons show ?case by (simp add: nat_be_mod)
qed

lemma unat_of_small [codec]:
  "n \<le> 65535 \<Longrightarrow> unat (of_nat n :: 16 word) = n"
  "m \<le> 4294967295 \<Longrightarrow> unat (of_nat m :: 32 word) = m"
  "k \<le> 18446744073709551615 \<Longrightarrow> unat (of_nat k :: 64 word) = k"
  by (simp_all add: unat_of_nat)

lemma of_nat_be_nat [codec]:
  "(of_nat (be_nat (nat_be 2 n)) :: 16 word) = of_nat n"
  "(of_nat (be_nat (nat_be 4 n)) :: 32 word) = of_nat n"
  "(of_nat (be_nat (nat_be 8 n)) :: 64 word) = of_nat n"
  by (simp_all add: be_nat_nat_be word_unat_eq_iff unat_of_nat)

lemma int64_id: "- (2 ^ 63) \<le> x \<Longrightarrow> x < 2 ^ 63 \<Longrightarrow> int64 x = x"
  by (simp add: int64_def)

lemma int64_bounds: "- (2 ^ 63) \<le> int64 x \<and> int64 x < 2 ^ 63"
  using pos_mod_bound [of "2 ^ 64" "x + 2 ^ 63"] by (simp add: int64_def)

lemma key_of_key_bytes [simp, codec]: "key_of (key_bytes k) = k"
  using unat_less [of k] by (simp add: key_of_def key_bytes_def be_nat_nat_be)

lemma uuid_of_uuid_bytes [simp, codec]: "uuid_of (uuid_bytes u) = u"
  using unat_less [of u] by (simp add: uuid_of_def uuid_bytes_def be_nat_nat_be)

lemma length_key_bytes [simp, codec]: "length (key_bytes k) = 32"
  by (simp add: key_bytes_def)

lemma length_uuid_bytes [simp, codec]: "length (uuid_bytes u) = 16"
  by (simp add: uuid_bytes_def)

lemma uuid_bytes_not_Nil [simp]: "uuid_bytes u \<noteq> []"
  using length_uuid_bytes [of u] by fastforce

lemma key_bytes_key_of: "length bs = 32 \<Longrightarrow> key_bytes (key_of bs) = bs"
  using be_nat_less [of bs] nat_be_be_nat [of bs]
  by (simp add: key_bytes_def key_of_def unat_of_nat)

lemma uuid_bytes_uuid_of: "length bs = 16 \<Longrightarrow> uuid_bytes (uuid_of bs) = bs"
  using be_nat_less [of bs] nat_be_be_nat [of bs]
  by (simp add: uuid_bytes_def uuid_of_def unat_of_nat)

subsection \<open>Filling a buffer from the left\<close>

lemma make_bytes_filled [codec]: "make_bytes n = filled [] n"
  by (simp add: make_bytes_def filled_def)

lemma filled_0 [codec]: "filled p 0 = p"
  by (simp add: filled_def)

lemma put_be_filled:
  assumes "off = length p" "n \<le> k"
  shows "put_be n (filled p k) off x = Inr (filled (p @ nat_be n x) (k - n))"
  using assms by (simp add: put_be_def filled_def)

lemma PutUint_filled [codec]:
  "off = length p \<Longrightarrow> 2 \<le> k \<Longrightarrow>
     PutUint16 (filled p k) off v = Inr (filled (p @ nat_be 2 (unat v)) (k - 2))"
  "off = length p \<Longrightarrow> 4 \<le> k \<Longrightarrow>
     PutUint32 (filled p k) off w = Inr (filled (p @ nat_be 4 (unat w)) (k - 4))"
  "off = length p \<Longrightarrow> 8 \<le> k \<Longrightarrow>
     PutUint64 (filled p k) off z = Inr (filled (p @ nat_be 8 (unat z)) (k - 8))"
  by (simp_all add: PutUint16_def PutUint32_def PutUint64_def put_be_filled)

lemma copy_at_filled [codec]:
  assumes "off = length p" "length src \<le> k"
  shows "copy_at (filled p k) off src = Inr (filled (p @ src) (k - length src))"
  using assms by (simp add: copy_at_def filled_def Let_def min_def)

lemma set_at_filled [codec]:
  assumes "off = length p" "1 \<le> k"
  shows "set_at (filled p k) off b = Inr (filled (p @ [b]) (k - 1))"
proof -
  obtain m where "k = Suc m" using assms(2) by (cases k) auto
  with assms(1) show ?thesis by (simp add: set_at_def filled_def list_update_append)
qed

subsection \<open>Reading at an offset\<close>

text \<open>
  Both reads depend on the offset through \<open>drop off data\<close> alone; a decoder's proof therefore
  carries what is left of the buffer from one field to the next.
\<close>

lemma slice_ok [codec]:
  "a \<le> b \<Longrightarrow> b \<le> length data \<Longrightarrow> slice data a b = Inr (take (b - a) (drop a data))"
  by (simp add: slice_def)

lemma slice_add: "off + n \<le> length data \<Longrightarrow> slice data off (off + n) = Inr (take n (drop off data))"
  by (simp add: slice_def)

lemma drop_numeral_plus_Cons [codec]:
  "drop (numeral v + n) (x # xs) = drop (pred_numeral v + n) xs"
  by (simp add: numeral_eq_Suc)

lemma Uint16_ok [codec]:
  "off + 2 \<le> length data \<Longrightarrow> Uint16 data off = Inr (of_nat (be_nat (take 2 (drop off data))))"
  by (simp add: Uint16_def get_be_def)

lemma Uint32_ok [codec]:
  "off + 4 \<le> length data \<Longrightarrow> Uint32 data off = Inr (of_nat (be_nat (take 4 (drop off data))))"
  by (simp add: Uint32_def get_be_def)

lemma Uint64_ok [codec]:
  "off + 8 \<le> length data \<Longrightarrow> Uint64 data off = Inr (of_nat (be_nat (take 8 (drop off data))))"
  by (simp add: Uint64_def get_be_def)

text \<open>What a read that returned says, and when no read panics.\<close>

lemma slice_Inr_iff [returned]:
  "slice data a b = Inr x \<longleftrightarrow> a \<le> b \<and> b \<le> length data \<and> x = take (b - a) (drop a data)"
  by (auto simp: slice_def)

lemma Uint_Inr_iff [returned]:
  "Uint16 data off = Inr v \<longleftrightarrow>
     off + 2 \<le> length data \<and> v = of_nat (be_nat (take 2 (drop off data)))"
  "Uint32 data off = Inr w \<longleftrightarrow>
     off + 4 \<le> length data \<and> w = of_nat (be_nat (take 4 (drop off data)))"
  "Uint64 data off = Inr z \<longleftrightarrow>
     off + 8 \<le> length data \<and> z = of_nat (be_nat (take 8 (drop off data)))"
  by (auto simp: Uint16_def Uint32_def Uint64_def get_be_def)

lemma panics_only_empty: "panics_only {} r \<longleftrightarrow> \<not> is_panic r"
  by (auto simp: panics_only_def is_panic_def split: sum.splits fault.splits)

lemma panics_only_Inr [safe]: "panics_only F (Inr v)"
  by (simp add: panics_only_def)

lemma panics_only_Err [safe]: "panics_only F (Inl (Err e))"
  by (simp add: panics_only_def)

lemma panics_only_bindR [safe]:
  "panics_only F r \<Longrightarrow> (\<And>v. r = Inr v \<Longrightarrow> panics_only F (f v)) \<Longrightarrow> panics_only F (bindR r f)"
  by (cases r) (auto simp: panics_only_def split: fault.splits)

lemma panics_only_guardR [safe]: "(b \<Longrightarrow> panics_only F r) \<Longrightarrow> panics_only F (guardR b m r)"
  by (simp add: guardR_def panics_only_def)

lemma panics_only_if [safe]:
  "(b \<Longrightarrow> panics_only F r) \<Longrightarrow> (\<not> b \<Longrightarrow> panics_only F q) \<Longrightarrow> panics_only F (if b then r else q)"
  by simp

lemma panics_only_slice [safe]: "a \<le> b \<Longrightarrow> b \<le> length data \<Longrightarrow> panics_only F (slice data a b)"
  by (simp add: slice_def panics_only_def)

lemma panics_only_Uint [safe]:
  "off + 2 \<le> length data \<Longrightarrow> panics_only F (Uint16 data off)"
  "off + 4 \<le> length data \<Longrightarrow> panics_only F (Uint32 data off)"
  "off + 8 \<le> length data \<Longrightarrow> panics_only F (Uint64 data off)"
  by (simp_all add: Uint16_ok Uint32_ok Uint64_ok panics_only_def)

text \<open>Consecutive reads are consecutive pieces of the buffer.\<close>

lemma take_drop_cat [codec]: "b = a + n \<Longrightarrow> take n (drop a d) @ drop b d = drop a d"
  by (metis append_take_drop_id drop_drop add.commute)

lemma nat_be_unat_be_nat [codec]:
  "length bs = 2 \<Longrightarrow> nat_be 2 (unat (of_nat (be_nat bs) :: 16 word)) = bs"
  "length bs = 4 \<Longrightarrow> nat_be 4 (unat (of_nat (be_nat bs) :: 32 word)) = bs"
  "length bs = 8 \<Longrightarrow> nat_be 8 (unat (of_nat (be_nat bs) :: 64 word)) = bs"
  using be_nat_less [of bs] nat_be_be_nat [of bs] by (auto simp: unat_of_nat)

lemma unat_le_max [codec]:
  "unat (w :: 16 word) \<le> 65535" "unat (v :: 32 word) \<le> 4294967295"
  "unat (z :: 64 word) \<le> 18446744073709551615"
  using unat_less [of w] unat_less [of v] unat_less [of z] by simp_all

lemma unat_small: "n < 256 \<Longrightarrow> unat (of_nat n :: byte) = n"
  by (simp add: unat_of_nat)

end
