(* ===== verification/Config.thy ===== *)
theory Config
  imports Prelude
begin

text \<open>
  The constants of \<open>config/config.go\<close> that the other packages use, and the configuration the client
  reads.  Durations are nanoseconds, as in Go.
\<close>

abbreviation Second :: int where
  "Second \<equiv> 1000000000"

abbreviation DefaultPort :: nat where
  "DefaultPort \<equiv> 8080"

abbreviation MaxMessageSize :: int where
  "MaxMessageSize \<equiv> 52428800"

abbreviation MaxProfilePicSize :: nat where
  "MaxProfilePicSize \<equiv> 2097152"

abbreviation PubKeyLen :: nat where
  "PubKeyLen \<equiv> 64"

abbreviation FileChunkSize :: nat where
  "FileChunkSize \<equiv> 262144"

abbreviation FileIDLen :: nat where
  "FileIDLen \<equiv> 16"

abbreviation NonceSize :: nat where
  "NonceSize \<equiv> 12"

abbreviation AesKeySize :: nat where
  "AesKeySize \<equiv> 32"

abbreviation DefaultTimeout :: int where
  "DefaultTimeout \<equiv> 15 * Second"

abbreviation DefaultRateLimit :: int where
  "DefaultRateLimit \<equiv> 100"

abbreviation DefaultRateWindow :: int where
  "DefaultRateWindow \<equiv> 60 * Second"

abbreviation DefaultPingWindow :: int where
  "DefaultPingWindow \<equiv> 5 * Second"

definition DefaultClientName :: gostring where
  "DefaultClientName = str ''default''"

text \<open>\<open>Config\<close>; a log level is its number, and \<open>slog.LevelInfo\<close> is zero.\<close>

record Config =
  cfg_ClientName :: gostring
  cfg_LogLevel :: int
  cfg_Port :: int
  cfg_Timeout :: int
  cfg_RateLimit :: int
  cfg_RateWindow :: int
  cfg_MaxMessageSize :: int
  cfg_PingWindow :: int
  cfg_CertFile :: gostring
  cfg_KeyFileTLS :: gostring
  cfg_PeerAddr :: gostring
  cfg_WriteMode :: bool

definition UseTLS :: "Config \<Rightarrow> bool" where
  "UseTLS c \<longleftrightarrow> cfg_CertFile c \<noteq> [] \<and> cfg_KeyFileTLS c \<noteq> []"

text \<open>What \<open>Parse\<close> gives when no flag is set; the default name is printable and short.\<close>

definition Parse_defaults :: Config where
  "Parse_defaults = \<lparr>cfg_ClientName = DefaultClientName, cfg_LogLevel = 0, cfg_Port = int DefaultPort,
     cfg_Timeout = DefaultTimeout, cfg_RateLimit = DefaultRateLimit, cfg_RateWindow = DefaultRateWindow,
     cfg_MaxMessageSize = MaxMessageSize, cfg_PingWindow = DefaultPingWindow, cfg_CertFile = [], cfg_KeyFileTLS = [],
     cfg_PeerAddr = [], cfg_WriteMode = False\<rparr>"

end
