(* ===== verification/Wire.thy ===== *)
theory Wire
  imports Prelude
begin

text \<open>
  The interface of the program's binary formats.  \<open>wire\<close> is the documented layout of a value,
  \<open>dec\<close> the decoder of the source, \<open>ok\<close> the values whose lengths and sizes fit their wire fields.
  Signals, messages, file metadata, info responses and key exchanges all interpret it.
\<close>

locale wire_format =
  fixes wire :: "'a \<Rightarrow> bytes"
    and dec :: "bytes \<Rightarrow> 'a result"
    and ok :: "'a \<Rightarrow> bool"
  assumes roundtrip: "ok x \<Longrightarrow> dec (wire x @ trail) = Inr x"
begin

lemma roundtrip_exact: "ok x \<Longrightarrow> dec (wire x) = Inr x"
  using roundtrip [of x "[]"] by simp

text \<open>No encoding is a proper prefix of another: a reader never confuses two values.\<close>

lemma wire_prefix_free:
  assumes "ok x" "ok y" "wire x = wire y @ t"
  shows "x = y \<and> t = []"
proof -
  have "dec (wire y @ t) = Inr x"
    using roundtrip_exact [OF assms(1)] assms(3) by simp
  with roundtrip [OF assms(2)] have "x = y" by simp
  with assms(3) show ?thesis by simp
qed

lemma wire_inject: "ok x \<Longrightarrow> ok y \<Longrightarrow> wire x = wire y \<longleftrightarrow> x = y"
  using wire_prefix_free [of x y "[]"] by auto

end

text \<open>
  A format whose decoder accepts nothing else: what it returns is well formed and its encoding is
  where the decoder read it.
\<close>

locale exact_format = wire_format +
  assumes sound: "dec data = Inr x \<Longrightarrow> ok x \<and> (\<exists>trail. data = wire x @ trail)"
begin

lemma dec_iff: "dec data = Inr x \<longleftrightarrow> ok x \<and> (\<exists>trail. data = wire x @ trail)"
  using roundtrip sound by blast

text \<open>Bytes after the encoding are ignored, so a longer buffer decodes to the same value.\<close>

lemma dec_append: "dec data = Inr x \<Longrightarrow> dec (data @ t) = Inr x"
  by (auto simp: dec_iff)

lemma dec_length: "dec data = Inr x \<Longrightarrow> length (wire x) \<le> length data"
  by (auto simp: dec_iff)

end

end
