(* ===== verification/ClientCodec.thy ===== *)
theory ClientCodec
  imports Config Wire
begin

text \<open>
  The payload formats of the \<open>client\<close> package: file metadata and info responses from
  \<open>client/client.go\<close>, key exchanges from \<open>client/session.go\<close>, with the checked integer
  conversions they use.
\<close>

abbreviation lenPrefixSize :: nat where "lenPrefixSize \<equiv> 2"

definition u16Len :: "int \<Rightarrow> 16 word result" where
  "u16Len n = (if n < 0 \<or> n > 65535 then Inl (Panic ''client: length exceeds uint16'')
               else Inr (of_int n))"

definition u32Len :: "int \<Rightarrow> 32 word result" where
  "u32Len n = (if n < 0 \<or> n > 4294967295 then Inl (Panic ''client: length exceeds uint32'')
               else Inr (of_int n))"

definition u64FromInt64 :: "int \<Rightarrow> 64 word result" where
  "u64FromInt64 n = (if n < 0 then Inl (Panic ''client: negative size'') else Inr (of_int n))"

definition int64FromU64 :: "64 word \<Rightarrow> int result" where
  "int64FromU64 n = (if uint n > 9223372036854775807 then Inl (Panic ''client: size exceeds int64'')
                     else Inr (uint n))"

subsection \<open>File metadata\<close>

record fileMeta =
  fm_Name :: gostring
  fm_Size :: int
  fm_MIME :: gostring

definition encodeFileMeta :: "fileMeta \<Rightarrow> bytes result" where
  "encodeFileMeta m =
     (let nameBytes = fm_Name m; mimeBytes = fm_MIME m;
          buf = make_bytes (2 + length nameBytes + 8 + 2 + length mimeBytes); off = 0 in
      bindR (u16Len (int (length nameBytes))) (\<lambda>n.
      bindR (PutUint16 buf off n) (\<lambda>buf. let off = off + 2 in
      bindR (copy_at buf off nameBytes) (\<lambda>buf. let off = off + length nameBytes in
      bindR (u64FromInt64 (fm_Size m)) (\<lambda>n.
      bindR (PutUint64 buf off n) (\<lambda>buf. let off = off + 8 in
      bindR (u16Len (int (length mimeBytes))) (\<lambda>n.
      bindR (PutUint16 buf off n) (\<lambda>buf. let off = off + 2 in
      copy_at buf off mimeBytes))))))))"

definition decodeFileMeta :: "bytes \<Rightarrow> fileMeta result" where
  "decodeFileMeta data =
     guardR (\<not> length data < lenPrefixSize) ''client: file meta too short''
     (let off = 0 in
      bindR (Uint16 data off) (\<lambda>nl. let nameLen = unat nl; off = off + 2 in
      guardR (\<not> length data < off + nameLen + 8 + 2) ''client: file meta truncated at name''
     (bindR (slice data off (off + nameLen)) (\<lambda>name. let off = off + nameLen in
      bindR (Uint64 data off) (\<lambda>sz.
      bindR (int64FromU64 sz) (\<lambda>size. let off = off + 8 in
      bindR (Uint16 data off) (\<lambda>ml. let mimeLen = unat ml; off = off + 2 in
      guardR (\<not> length data < off + mimeLen) ''client: file meta truncated at mime''
     (bindR (slice data off (off + mimeLen)) (\<lambda>mime.
        Inr \<lparr>fm_Name = name, fm_Size = size, fm_MIME = mime\<rparr>)))))))))"

subsection \<open>Info responses\<close>

record infoResponseData =
  ir_Name :: gostring
  ir_ProfilePic :: bytes

definition encodeInfoResponse :: "infoResponseData \<Rightarrow> bytes result" where
  "encodeInfoResponse r =
     (let nameBytes = ir_Name r;
          buf = make_bytes (2 + length nameBytes + 4 + length (ir_ProfilePic r)); off = 0 in
      bindR (u16Len (int (length nameBytes))) (\<lambda>n.
      bindR (PutUint16 buf off n) (\<lambda>buf. let off = off + 2 in
      bindR (copy_at buf off nameBytes) (\<lambda>buf. let off = off + length nameBytes in
      bindR (u32Len (int (length (ir_ProfilePic r)))) (\<lambda>n.
      bindR (PutUint32 buf off n) (\<lambda>buf. let off = off + 4 in
      copy_at buf off (ir_ProfilePic r)))))))"

definition decodeInfoResponse :: "bytes \<Rightarrow> infoResponseData result" where
  "decodeInfoResponse data =
     guardR (\<not> length data < lenPrefixSize) ''client: info response too short''
     (let off = 0 in
      bindR (Uint16 data off) (\<lambda>nl. let nameLen = unat nl; off = off + 2 in
      guardR (\<not> length data < off + nameLen + 4) ''client: info response truncated at name''
     (bindR (slice data off (off + nameLen)) (\<lambda>name. let off = off + nameLen in
      bindR (Uint32 data off) (\<lambda>pl. let picLen = unat pl; off = off + 4 in
      guardR (\<not> length data < off + picLen) ''client: info response truncated at pic''
     (bindR (slice data off (off + picLen)) (\<lambda>pic.
        Inr \<lparr>ir_Name = name, ir_ProfilePic = pic\<rparr>)))))))"

subsection \<open>Key exchanges\<close>

record keyExchangeData =
  kx_PubKey :: key
  kx_StaticPubKey :: key
  kx_ClientName :: gostring
  kx_Signature :: bytes

definition encodeKeyExchange :: "keyExchangeData \<Rightarrow> bytes result" where
  "encodeKeyExchange d =
     (let nameBytes = kx_ClientName d;
          buf = make_bytes (AesKeySize * 2 + 2 + length nameBytes + 2 + length (kx_Signature d));
          off = 0 in
      bindR (copy_at buf off (key_bytes (kx_PubKey d))) (\<lambda>buf. let off = off + AesKeySize in
      bindR (copy_at buf off (key_bytes (kx_StaticPubKey d))) (\<lambda>buf. let off = off + AesKeySize in
      bindR (u16Len (int (length nameBytes))) (\<lambda>n.
      bindR (PutUint16 buf off n) (\<lambda>buf. let off = off + 2 in
      bindR (copy_at buf off nameBytes) (\<lambda>buf. let off = off + length nameBytes in
      bindR (u16Len (int (length (kx_Signature d)))) (\<lambda>n.
      bindR (PutUint16 buf off n) (\<lambda>buf. let off = off + 2 in
      copy_at buf off (kx_Signature d)))))))))"

definition decodeKeyExchange :: "bytes \<Rightarrow> keyExchangeData result" where
  "decodeKeyExchange data =
     guardR (\<not> length data < AesKeySize * 2 + 2) ''session: key exchange data too short''
     (let off = 0 in
      bindR (slice data off (off + AesKeySize)) (\<lambda>pub. let off = off + AesKeySize in
      bindR (slice data off (off + AesKeySize)) (\<lambda>stat. let off = off + AesKeySize in
      bindR (Uint16 data off) (\<lambda>nl. let nameLen = unat nl; off = off + 2 in
      guardR (\<not> length data < off + nameLen + 2) ''session: key exchange data truncated at name''
     (bindR (slice data off (off + nameLen)) (\<lambda>name. let off = off + nameLen in
      bindR (Uint16 data off) (\<lambda>sl. let sigLen = unat sl; off = off + 2 in
      guardR (\<not> length data < off + sigLen)
        ''session: key exchange data truncated at signature''
     (bindR (slice data off (off + sigLen)) (\<lambda>sg.
        Inr \<lparr>kx_PubKey = key_of pub, kx_StaticPubKey = key_of stat, kx_ClientName = name,
             kx_Signature = sg\<rparr>)))))))))"

subsection \<open>Layouts\<close>

definition fileMeta_wire :: "fileMeta \<Rightarrow> bytes" where
  "fileMeta_wire m = nat_be 2 (length (fm_Name m)) @ fm_Name m @ nat_be 8 (nat (fm_Size m)) @
     nat_be 2 (length (fm_MIME m)) @ fm_MIME m"

definition fileMeta_ok :: "fileMeta \<Rightarrow> bool" where
  "fileMeta_ok m \<longleftrightarrow> length (fm_Name m) \<le> 65535 \<and> 0 \<le> fm_Size m \<and> fm_Size m < 2 ^ 63 \<and>
     length (fm_MIME m) \<le> 65535"

definition infoResponse_wire :: "infoResponseData \<Rightarrow> bytes" where
  "infoResponse_wire r = nat_be 2 (length (ir_Name r)) @ ir_Name r @
     nat_be 4 (length (ir_ProfilePic r)) @ ir_ProfilePic r"

definition infoResponse_ok :: "infoResponseData \<Rightarrow> bool" where
  "infoResponse_ok r \<longleftrightarrow> length (ir_Name r) \<le> 65535 \<and> length (ir_ProfilePic r) \<le> 4294967295"

definition keyExchange_wire :: "keyExchangeData \<Rightarrow> bytes" where
  "keyExchange_wire d = key_bytes (kx_PubKey d) @ key_bytes (kx_StaticPubKey d) @
     nat_be 2 (length (kx_ClientName d)) @ kx_ClientName d @
     nat_be 2 (length (kx_Signature d)) @ kx_Signature d"

definition keyExchange_ok :: "keyExchangeData \<Rightarrow> bool" where
  "keyExchange_ok d \<longleftrightarrow> length (kx_ClientName d) \<le> 65535 \<and> length (kx_Signature d) \<le> 65535"

subsection \<open>Checked conversions\<close>

lemma uLen_eqs [codec]:
  "n \<le> 65535 \<Longrightarrow> u16Len (int n) = Inr (of_nat n)"
  "m \<le> 4294967295 \<Longrightarrow> u32Len (int m) = Inr (of_nat m)"
  "0 \<le> k \<Longrightarrow> u64FromInt64 k = Inr (of_int k)"
  by (simp_all add: u16Len_def u32Len_def u64FromInt64_def)

lemma size64 [codec]:
  assumes "0 \<le> k" "k < 2 ^ 63"
  shows "unat (of_int k :: 64 word) = nat k" "int64FromU64 (of_int k) = Inr k"
proof -
  have u: "uint (of_int k :: 64 word) = k"
    using assms by (simp add: uint_word_of_int)
  then show "unat (of_int k :: 64 word) = nat k"
    by (metis nat_uint_eq)
  show "int64FromU64 (of_int k) = Inr k"
    using assms u by (simp add: int64FromU64_def)
qed

lemma int64FromU64_Inr_iff [returned]: "int64FromU64 z = Inr k \<longleftrightarrow> uint z < 2 ^ 63 \<and> k = uint z"
  by (auto simp: int64FromU64_def)

lemma int64FromU64_panics [safe]:
  "''client: size exceeds int64'' \<in> F \<Longrightarrow> panics_only F (int64FromU64 z)"
  by (simp add: int64FromU64_def panics_only_def)

subsection \<open>Encoders\<close>

lemma encodeFileMeta_ok: "fileMeta_ok m \<Longrightarrow> encodeFileMeta m = Inr (fileMeta_wire m)"
  by (simp add: encodeFileMeta_def fileMeta_ok_def fileMeta_wire_def Let_def codec)

lemma encodeInfoResponse_ok:
  "infoResponse_ok r \<Longrightarrow> encodeInfoResponse r = Inr (infoResponse_wire r)"
  by (simp add: encodeInfoResponse_def infoResponse_ok_def infoResponse_wire_def Let_def codec)

lemma encodeKeyExchange_ok:
  "keyExchange_ok d \<Longrightarrow> encodeKeyExchange d = Inr (keyExchange_wire d)"
  by (simp add: encodeKeyExchange_def keyExchange_ok_def keyExchange_wire_def Let_def codec)

subsection \<open>Decoders\<close>

lemma decodeFileMeta_wire: "fileMeta_ok m \<Longrightarrow> decodeFileMeta (fileMeta_wire m @ trail) = Inr m"
  by (simp add: decodeFileMeta_def fileMeta_ok_def fileMeta_wire_def Let_def codec)

lemma decodeInfoResponse_wire:
  "infoResponse_ok r \<Longrightarrow> decodeInfoResponse (infoResponse_wire r @ trail) = Inr r"
  by (simp add: decodeInfoResponse_def infoResponse_ok_def infoResponse_wire_def Let_def codec)

lemma decodeKeyExchange_wire:
  "keyExchange_ok d \<Longrightarrow> decodeKeyExchange (keyExchange_wire d @ trail) = Inr d"
  by (simp add: decodeKeyExchange_def keyExchange_ok_def keyExchange_wire_def Let_def codec)

lemma decodeFileMeta_panics: "panics_only {''client: size exceeds int64''} (decodeFileMeta data)"
  unfolding decodeFileMeta_def Let_def by (intro safe) simp_all

lemma decodeInfoResponse_panics: "panics_only {} (decodeInfoResponse data)"
  unfolding decodeInfoResponse_def Let_def by (intro safe) simp_all

lemma decodeKeyExchange_panics: "panics_only {} (decodeKeyExchange data)"
  unfolding decodeKeyExchange_def Let_def by (intro safe) simp_all

lemma decodeFileMeta_sound:
  assumes "decodeFileMeta data = Inr x"
  shows "fileMeta_ok x \<and> (\<exists>trail. data = fileMeta_wire x @ trail)"
proof -
  from assms obtain nl sz ml name mime where
    r: "Uint16 data 0 = Inr nl" "Uint64 data (0 + 2 + unat nl) = Inr sz"
      "Uint16 data (0 + 2 + unat nl + 8) = Inr ml"
    and sz: "uint sz < 2 ^ 63"
    and s: "slice data (0 + 2) (0 + 2 + unat nl) = Inr name"
      "slice data (0 + 2 + unat nl + 8 + 2) (0 + 2 + unat nl + 8 + 2 + unat ml) = Inr mime"
    and x: "x = \<lparr>fm_Name = name, fm_Size = uint sz, fm_MIME = mime\<rparr>"
    unfolding decodeFileMeta_def Let_def
    by (simp only: bindR_Inr_iff guardR_Inr_iff int64FromU64_Inr_iff sum.inject) blast
  note r' = r [unfolded Uint_Inr_iff, simplified] 
    and s' = s [unfolded slice_Inr_iff, THEN conjunct2, THEN conjunct2, simplified]
  have wire: "nat_be 2 (unat nl) = take 2 data"
    "nat_be 8 (unat sz) = take 8 (drop (2 + unat nl) data)"
    "nat_be 2 (unat ml) = take 2 (drop (10 + unat nl) data)"
    using r' by (auto simp: codec)
  have len: "12 + unat nl + unat ml \<le> length data"
    using s by (simp add: slice_Inr_iff)
  with wire sz have "fileMeta_wire x @ drop (12 + unat nl + unat ml) data = data"
    by (simp add: s' x fileMeta_wire_def codec min_absorb2)
  moreover have "fileMeta_ok x"
    using sz s' by (simp add: x fileMeta_ok_def codec min.coboundedI2)
  ultimately show ?thesis by metis
qed

lemma decodeInfoResponse_sound:
  assumes "decodeInfoResponse data = Inr x"
  shows "infoResponse_ok x \<and> (\<exists>trail. data = infoResponse_wire x @ trail)"
proof -
  from assms obtain nl pl name pic where
    r: "Uint16 data 0 = Inr nl" "Uint32 data (0 + 2 + unat nl) = Inr pl"
    and s: "slice data (0 + 2) (0 + 2 + unat nl) = Inr name"
      "slice data (0 + 2 + unat nl + 4) (0 + 2 + unat nl + 4 + unat pl) = Inr pic"
    and x: "x = \<lparr>ir_Name = name, ir_ProfilePic = pic\<rparr>"
    unfolding decodeInfoResponse_def Let_def
    by (simp only: bindR_Inr_iff guardR_Inr_iff sum.inject) blast
  note r' = r [unfolded Uint_Inr_iff, simplified] 
    and s' = s [unfolded slice_Inr_iff, THEN conjunct2, THEN conjunct2, simplified]
  have wire: "nat_be 2 (unat nl) = take 2 data"
    "nat_be 4 (unat pl) = take 4 (drop (2 + unat nl) data)"
    using r' by (auto simp: codec)
  have len: "6 + unat nl + unat pl \<le> length data"
    using s by (simp add: slice_Inr_iff)
  with wire have "infoResponse_wire x @ drop (6 + unat nl + unat pl) data = data"
    by (simp add: s' x infoResponse_wire_def codec min_absorb2)
  moreover have "infoResponse_ok x"
    using s' by (simp add: x infoResponse_ok_def codec min.coboundedI2)
  ultimately show ?thesis by metis
qed

lemma decodeKeyExchange_sound:
  assumes "decodeKeyExchange data = Inr x"
  shows "keyExchange_ok x \<and> (\<exists>trail. data = keyExchange_wire x @ trail)"
proof -
  from assms obtain nl sl pub stat name sg where
    r: "Uint16 data (0 + 32 + 32) = Inr nl" "Uint16 data (0 + 32 + 32 + 2 + unat nl) = Inr sl"
    and s: "slice data 0 (0 + 32) = Inr pub" "slice data (0 + 32) (0 + 32 + 32) = Inr stat"
      "slice data (0 + 32 + 32 + 2) (0 + 32 + 32 + 2 + unat nl) = Inr name"
      "slice data (0 + 32 + 32 + 2 + unat nl + 2) (0 + 32 + 32 + 2 + unat nl + 2 + unat sl) =
         Inr sg"
    and x: "x = \<lparr>kx_PubKey = key_of pub, kx_StaticPubKey = key_of stat, kx_ClientName = name,
       kx_Signature = sg\<rparr>"
    unfolding decodeKeyExchange_def Let_def
    by (simp only: bindR_Inr_iff guardR_Inr_iff sum.inject) blast
  note r' = r [unfolded Uint_Inr_iff, simplified] 
    and s' = s [unfolded slice_Inr_iff, THEN conjunct2, THEN conjunct2, simplified]
  have wire: "nat_be 2 (unat nl) = take 2 (drop 64 data)"
    "nat_be 2 (unat sl) = take 2 (drop (66 + unat nl) data)"
    using r' by (auto simp: codec)
  have len: "68 + unat nl + unat sl \<le> length data"
    using s by (simp add: slice_Inr_iff)
  with wire have "keyExchange_wire x @ drop (68 + unat nl + unat sl) data = data"
    by (simp add: s' x keyExchange_wire_def key_bytes_key_of codec min_absorb2)
  moreover have "keyExchange_ok x"
    using s' by (simp add: x keyExchange_ok_def codec min.coboundedI2)
  ultimately show ?thesis by metis
qed

interpretation fm: exact_format fileMeta_wire decodeFileMeta fileMeta_ok
  by unfold_locales (simp_all add: decodeFileMeta_wire decodeFileMeta_sound)

interpretation ir: exact_format infoResponse_wire decodeInfoResponse infoResponse_ok
  by unfold_locales (simp_all add: decodeInfoResponse_wire decodeInfoResponse_sound)

interpretation kx: exact_format keyExchange_wire decodeKeyExchange keyExchange_ok
  by unfold_locales (simp_all add: decodeKeyExchange_wire decodeKeyExchange_sound)

lemma uLen_bounds:
  "u16Len (int n) = Inr v \<Longrightarrow> n \<le> 65535" "u32Len (int m) = Inr w \<Longrightarrow> m \<le> 4294967295"
  "u64FromInt64 k = Inr z \<Longrightarrow> 0 \<le> k"
  by (auto simp: u16Len_def u32Len_def u64FromInt64_def split: if_splits)

lemma encodeFileMeta_bounds:
  "encodeFileMeta m = Inr bs \<Longrightarrow> fm_Size m < 2 ^ 63 \<Longrightarrow> fileMeta_ok m"
  unfolding encodeFileMeta_def Let_def bindR_Inr_iff fileMeta_ok_def by (blast dest: uLen_bounds)

lemma encodeInfoResponse_bounds: "encodeInfoResponse r = Inr bs \<Longrightarrow> infoResponse_ok r"
  unfolding encodeInfoResponse_def Let_def bindR_Inr_iff infoResponse_ok_def
  by (blast dest: uLen_bounds)

lemma encodeKeyExchange_bounds: "encodeKeyExchange d = Inr bs \<Longrightarrow> keyExchange_ok d"
  unfolding encodeKeyExchange_def Let_def bindR_Inr_iff keyExchange_ok_def
  by (blast dest: uLen_bounds)

subsection \<open>Properties\<close>

text \<open>
  File metadata with an \<open>int64\<close> size is encoded exactly when it fits the format, into a buffer
  that \<open>decodeFileMeta\<close> reads back; the decoder accepts nothing but such encodings, never reads
  outside its buffer, and its only panic is that of a size above the \<open>int64\<close> range.
\<close>

theorem fileMeta_format:
  assumes "fm_Size m < 2 ^ 63"
  shows "(encodeFileMeta m = Inr bs \<longleftrightarrow> fileMeta_ok m \<and> bs = fileMeta_wire m) \<and>
    (decodeFileMeta data = Inr m \<longleftrightarrow> fileMeta_ok m \<and> (\<exists>trail. data = fileMeta_wire m @ trail)) \<and>
    panics_only {''client: size exceeds int64''} (decodeFileMeta data)"
  using encodeFileMeta_bounds [OF _ assms] encodeFileMeta_ok fm.dec_iff decodeFileMeta_panics
  by fastforce

theorem fileMeta_format_witness:
  "encodeFileMeta \<lparr>fm_Name = [97], fm_Size = 3, fm_MIME = []\<rparr> =
     Inr (fileMeta_wire \<lparr>fm_Name = [97], fm_Size = 3, fm_MIME = []\<rparr>)"
  using fileMeta_format [of "\<lparr>fm_Name = [97], fm_Size = 3, fm_MIME = []\<rparr>"
      "fileMeta_wire \<lparr>fm_Name = [97], fm_Size = 3, fm_MIME = []\<rparr>"]
  by (simp add: fileMeta_ok_def)

text \<open>
  Info responses and key exchanges are encoded exactly when their names, pictures and signatures
  fit their length fields, decoding inverts encoding and accepts nothing else, and neither decoder
  panics on any input.
\<close>

theorem info_and_key_exchange_formats:
  "(encodeInfoResponse r = Inr bs \<longleftrightarrow> infoResponse_ok r \<and> bs = infoResponse_wire r) \<and>
   (decodeInfoResponse data = Inr r \<longleftrightarrow>
      infoResponse_ok r \<and> (\<exists>trail. data = infoResponse_wire r @ trail)) \<and>
   (encodeKeyExchange d = Inr cs \<longleftrightarrow> keyExchange_ok d \<and> cs = keyExchange_wire d) \<and>
   (decodeKeyExchange data = Inr d \<longleftrightarrow>
      keyExchange_ok d \<and> (\<exists>trail. data = keyExchange_wire d @ trail)) \<and>
   \<not> is_panic (decodeInfoResponse data) \<and> \<not> is_panic (decodeKeyExchange data)"
  using encodeInfoResponse_bounds [of r bs] encodeInfoResponse_ok [of r]
    encodeKeyExchange_bounds [of d cs] encodeKeyExchange_ok [of d]
    ir.dec_iff [of data r] kx.dec_iff [of data d]
    decodeInfoResponse_panics [of data] decodeKeyExchange_panics [of data]
  by (auto simp: panics_only_empty)

end
