(* ===== verification/RateLimit.thy ===== *)
theory RateLimit
  imports Prelude "HOL-Library.Signed_Division"
begin

text \<open>
  \<open>client/ratelimit.go\<close>: the token bucket each session puts in front of an accepted peer's signals.
  Durations and counters are \<open>int64\<close>, with Go's truncating division (\<open>sdiv\<close>), saturating
  \<open>Time.Sub\<close>, wrap-around on multiplication and addition, and the panic of a division by zero.
  The lock makes each call atomic, so a session's calls form a sequence.
\<close>

record msgLimiter =
  ml_limit :: int
  ml_window :: int
  ml_tokens :: int
  ml_last :: time

definition newMsgLimiter :: "int \<Rightarrow> int \<Rightarrow> time \<Rightarrow> msgLimiter" where
  "newMsgLimiter limit window now =
     \<lparr>ml_limit = limit, ml_window = window, ml_tokens = limit, ml_last = now\<rparr>"

text \<open>\<open>Time.Sub\<close> returns the nearest \<open>Duration\<close> when the difference overflows.\<close>

definition Sub :: "time \<Rightarrow> time \<Rightarrow> int" where
  "Sub t u = max (- (2 ^ 63)) (min (2 ^ 63 - 1) (t - u))"

text \<open>The interval at which one token comes back.\<close>

definition limiter_interval :: "msgLimiter \<Rightarrow> int" where
  "limiter_interval l =
     (let interval = int64 (ml_window l sdiv ml_limit l) in if interval = 0 then 1 else interval)"

definition Allow :: "time \<Rightarrow> msgLimiter \<Rightarrow> bool result \<times> msgLimiter" where
  "Allow now l =
     (let elapsed = Sub now (ml_last l) in
      if ml_limit l = 0 then (Inl (Panic ''runtime error: integer divide by zero''), l)
      else
       (let interval = limiter_interval l;
            refill = int64 (elapsed sdiv interval);
            l = (if refill > 0
                 then (let l = l\<lparr>ml_last := ml_last l + int64 (refill * interval),
                                 ml_tokens := int64 (ml_tokens l + refill)\<rparr>
                       in if ml_tokens l > ml_limit l then l\<lparr>ml_tokens := ml_limit l\<rparr> else l)
                 else l)
        in if ml_tokens l > 0 then (Inr True, l\<lparr>ml_tokens := ml_tokens l - 1\<rparr>)
           else (Inr False, l)))"

text \<open>The calls of one session, at the times its signals arrive: the answers and the final state.\<close>

fun Allow_run :: "time list \<Rightarrow> msgLimiter \<Rightarrow> bool result list \<times> msgLimiter" where
  "Allow_run [] l = ([], l)"
| "Allow_run (t # ts) l =
     (let (r, l) = Allow t l; (rs, l) = Allow_run ts l in (r # rs, l))"

definition accepted :: "bool result list \<Rightarrow> nat" where
  "accepted rs = length (filter (\<lambda>r. r = Inr True) rs)"

text \<open>
  Limits and windows a deployment uses: positive, and small enough that the arithmetic stays in
  range over clock readings less than \<open>2 ^ 61\<close> nanoseconds (73 years) apart.
\<close>

definition limiter_config :: "msgLimiter \<Rightarrow> bool" where
  "limiter_config l \<longleftrightarrow> 0 < ml_limit l \<and> ml_limit l < 2 ^ 61 \<and> 0 \<le> ml_window l \<and> ml_window l < 2 ^ 63"

definition limiter_inv :: "msgLimiter \<Rightarrow> bool" where
  "limiter_inv l \<longleftrightarrow> limiter_config l \<and> 0 \<le> ml_tokens l \<and> ml_tokens l \<le> ml_limit l"

definition in_reach :: "msgLimiter \<Rightarrow> time \<Rightarrow> bool" where
  "in_reach l t \<longleftrightarrow> ml_last l \<le> t \<and> t < ml_last l + 2 ^ 61"

subsection \<open>One call\<close>

lemma sdiv_nonneg: "0 \<le> a \<Longrightarrow> 0 < b \<Longrightarrow> a sdiv b = (a div b :: int)"
  by (simp add: signed_divide_int_def sgn_if)

lemma interval_bounds:
  assumes "limiter_config l"
  shows "0 < limiter_interval l" "limiter_interval l < 2 ^ 63"
    "limiter_interval l = max 1 (ml_window l div ml_limit l)"
proof -
  have le: "0 \<le> ml_window l div ml_limit l" "ml_window l div ml_limit l \<le> ml_window l"
    using assms zdiv_mono2 [of "ml_window l" 1 "ml_limit l"]
    by (auto simp: limiter_config_def pos_imp_zdiv_nonneg_iff)
  show "limiter_interval l = max 1 (ml_window l div ml_limit l)"
    using assms le
    by (auto simp: limiter_interval_def limiter_config_def sdiv_nonneg int64_id Let_def)
  with le assms show "0 < limiter_interval l" "limiter_interval l < 2 ^ 63"
    by (auto simp: limiter_config_def)
qed

text \<open>A call is a step of the ideal token bucket, on unbounded integers.\<close>

lemma Allow_bucket:
  assumes "limiter_inv l" "in_reach l t"
  defines "k \<equiv> (t - ml_last l) div limiter_interval l"
  defines "tok \<equiv> min (ml_limit l) (ml_tokens l + k)"
  shows "Allow t l = (Inr (0 < tok),
    l\<lparr>ml_last := ml_last l + k * limiter_interval l,
      ml_tokens := (if 0 < tok then tok - 1 else tok)\<rparr>)"
proof -
  define I where "I = limiter_interval l"
  have I: "0 < I"
    using assms(1) interval_bounds by (simp add: I_def limiter_inv_def)
  have e: "Sub t (ml_last l) = t - ml_last l" "0 \<le> t - ml_last l" "t - ml_last l < 2 ^ 61"
    using assms(2) by (auto simp: in_reach_def Sub_def)
  have k: "0 \<le> k" "k * I \<le> t - ml_last l" "k \<le> t - ml_last l"
    using e I zdiv_mono2 [of "t - ml_last l" 1 I]
    by (auto simp: k_def I_def [symmetric] pos_imp_zdiv_nonneg_iff minus_mod_eq_mult_div [symmetric]
        mult.commute)
  have r: "int64 (Sub t (ml_last l) sdiv I) = k"
    using e I k by (simp add: sdiv_nonneg k_def I_def [symmetric] int64_id)
  have "0 \<le> k * I" using k(1) I by simp
  then have w: "int64 (k * I) = k * I" "int64 (ml_tokens l + k) = ml_tokens l + k"
    using k e assms(1) by (auto simp: limiter_inv_def limiter_config_def intro!: int64_id)
  have "ml_limit l \<noteq> 0" "ml_tokens l \<le> ml_limit l"
    using assms(1) by (auto simp: limiter_inv_def limiter_config_def)
  then show ?thesis
    using k(1) by (auto simp: Allow_def I_def [symmetric] r w Let_def tok_def)
qed

lemma Allow_inv:
  assumes "limiter_inv l" "in_reach l t" "Allow t l = (r, l')"
  shows "limiter_inv l'" "\<not> is_panic r" "limiter_interval l' = limiter_interval l"
    "ml_limit l' = ml_limit l"
    "\<exists>k\<ge>0. ml_last l' = ml_last l + k * limiter_interval l \<and> ml_last l' \<le> t \<and>
       (if r = Inr True then 1 else 0) + ml_tokens l' \<le> ml_tokens l + k"
proof -
  define k where "k = (t - ml_last l) div limiter_interval l"
  have I: "0 < limiter_interval l"
    using assms(1) interval_bounds by (simp add: limiter_inv_def)
  have k: "0 \<le> k" "k * limiter_interval l \<le> t - ml_last l"
    using assms(2) I
    by (auto simp: k_def in_reach_def pos_imp_zdiv_nonneg_iff minus_mod_eq_mult_div [symmetric]
        mult.commute)
  note step = Allow_bucket [OF assms(1,2), folded k_def] assms(3)
  show "limiter_inv l'" "\<not> is_panic r" "limiter_interval l' = limiter_interval l"
    "ml_limit l' = ml_limit l"
    using step assms(1) k
    by (auto simp: limiter_inv_def limiter_config_def limiter_interval_def min_def)
  show "\<exists>k\<ge>0. ml_last l' = ml_last l + k * limiter_interval l \<and> ml_last l' \<le> t \<and>
       (if r = Inr True then 1 else 0) + ml_tokens l' \<le> ml_tokens l + k"
    using step assms(1) k by (intro exI [of _ k]) (auto simp: min_def)
qed

subsection \<open>Runs\<close>

lemma accepted_Cons:
  "accepted (r # rs) = (if r = Inr True then 1 else 0) + accepted rs"
  by (simp add: accepted_def)

lemma Allow_run_potential:
  assumes "limiter_inv l" "sorted (ml_last l # ts)" "\<forall>t\<in>set ts. t < ml_last l + 2 ^ 61"
    "Allow_run ts l = (rs, l')"
  shows "limiter_inv l' \<and> (\<forall>r\<in>set rs. \<not> is_panic r) \<and>
    (\<exists>k\<ge>0. ml_last l' = ml_last l + k * limiter_interval l \<and>
       ml_last l' \<le> last (ml_last l # ts) \<and> int (accepted rs) + ml_tokens l' \<le> ml_tokens l + k)"
  using assms
proof (induction ts arbitrary: l rs)
  case Nil
  then show ?case by (auto simp: accepted_def intro!: exI [of _ 0])
next
  case (Cons t ts)
  obtain r l1 rs1 where a: "Allow t l = (r, l1)" and run: "Allow_run ts l1 = (rs1, l')"
    and rs: "rs = r # rs1"
    using Cons.prems(4) by (auto split: prod.splits)
  have reach: "in_reach l t"
    using Cons.prems by (simp add: in_reach_def)
  note st = Allow_inv [OF Cons.prems(1) reach a]
  from st(5) obtain k where k: "0 \<le> k" "ml_last l1 = ml_last l + k * limiter_interval l"
    "ml_last l1 \<le> t" "(if r = Inr True then 1 else 0) + ml_tokens l1 \<le> ml_tokens l + k"
    by blast
  have "0 < limiter_interval l"
    using Cons.prems(1) interval_bounds by (simp add: limiter_inv_def)
  then have mono: "ml_last l \<le> ml_last l1"
    using k(1,2) by simp
  have "sorted (ml_last l1 # ts)" "\<forall>u\<in>set ts. u < ml_last l1 + 2 ^ 61"
    using Cons.prems(2,3) k(3) mono by force+
  from Cons.IH [OF st(1) this run] obtain k' where
    ih: "limiter_inv l'" "\<forall>r\<in>set rs1. \<not> is_panic r" "0 \<le> k'"
      "ml_last l' = ml_last l1 + k' * limiter_interval l" "ml_last l' \<le> last (ml_last l1 # ts)"
      "int (accepted rs1) + ml_tokens l' \<le> ml_tokens l1 + k'"
    using st(3) by auto
  have "ml_last l' \<le> last (ml_last l # t # ts)"
    using ih(5) k(3) by (auto split: if_splits)
  with ih k st(2) show ?case
    by (intro conjI exI [of _ "k + k'"]) (auto simp: rs accepted_Cons algebra_simps)
qed

subsection \<open>Properties\<close>

text \<open>
  C34: over any non-decreasing sequence of arrival times a limiter lets at most its free tokens plus
  one signal per elapsed interval pass (so never more than \<open>limit\<close> at once), it never panics, and its
  token count stays between 0 and the limit.
\<close>

theorem limiter_rate_bound:
  assumes "limiter_inv l" "sorted (ml_last l # ts)" "\<forall>t\<in>set ts. t < ml_last l + 2 ^ 61"
    "Allow_run ts l = (rs, l')"
  shows "int (accepted rs) \<le>
      ml_tokens l + (last (ml_last l # ts) - ml_last l) div limiter_interval l \<and>
    0 \<le> ml_tokens l' \<and> ml_tokens l' \<le> ml_limit l' \<and> (\<forall>r\<in>set rs. \<not> is_panic r)"
proof -
  have I: "0 < limiter_interval l"
    using assms(1) interval_bounds by (simp add: limiter_inv_def)
  from Allow_run_potential [OF assms] obtain k where
    inv: "limiter_inv l'" and np: "\<forall>r\<in>set rs. \<not> is_panic r"
    and last: "ml_last l' = ml_last l + k * limiter_interval l"
      "ml_last l' \<le> last (ml_last l # ts)"
    and k: "int (accepted rs) + ml_tokens l' \<le> ml_tokens l + k"
    by blast
  from last have "k * limiter_interval l \<le> last (ml_last l # ts) - ml_last l" by linarith
  from zdiv_mono1 [OF this I] have "k \<le> (last (ml_last l # ts) - ml_last l) div limiter_interval l"
    using I by simp
  with inv np k show ?thesis by (auto simp: limiter_inv_def)
qed

theorem limiter_rate_bound_witness:
  "int (accepted (fst (Allow_run [10, 10, 10, 35] (newMsgLimiter 2 60 10)))) \<le>
     2 + (35 - 10) div 30"
proof -
  let ?l = "newMsgLimiter 2 60 10"
  obtain rs l' where run: "Allow_run [10, 10, 10, 35] ?l = (rs, l')" by fastforce
  have inv: "limiter_inv ?l"
    by (simp add: newMsgLimiter_def limiter_inv_def limiter_config_def)
  have i: "limiter_interval ?l = 30"
    using interval_bounds(3) [of ?l] inv by (simp add: newMsgLimiter_def limiter_inv_def)
  have "int (accepted rs) \<le> ml_tokens ?l + (last (ml_last ?l # [10, 10, 10, 35]) - ml_last ?l) div
      limiter_interval ?l"
    using limiter_rate_bound [OF inv _ _ run] by (simp add: newMsgLimiter_def)
  with run i show ?thesis by (simp add: newMsgLimiter_def)
qed

text \<open>
  An idle peer is never starved: one interval after the last refill the next signal passes.
\<close>

theorem limiter_recovers:
  assumes "limiter_inv l" "in_reach l t" "ml_last l + limiter_interval l \<le> t"
  shows "fst (Allow t l) = Inr True"
proof -
  have I: "0 < limiter_interval l" and "0 < ml_limit l" "0 \<le> ml_tokens l"
    using assms(1) interval_bounds by (auto simp: limiter_inv_def limiter_config_def)
  moreover have "1 \<le> (t - ml_last l) div limiter_interval l"
    using zdiv_mono1 [of "limiter_interval l" "t - ml_last l" "limiter_interval l"] I assms(3) by simp
  ultimately show ?thesis
    by (simp add: Allow_bucket [OF assms(1,2)])
qed

theorem limiter_recovers_witness:
  "fst (Allow 40 \<lparr>ml_limit = 2, ml_window = 60, ml_tokens = 0, ml_last = 10\<rparr>) = Inr True"
proof (rule limiter_recovers)
  let ?l = "\<lparr>ml_limit = 2, ml_window = 60, ml_tokens = 0, ml_last = 10 :: int\<rparr>"
  show inv: "limiter_inv ?l" by (simp add: limiter_inv_def limiter_config_def)
  show "in_reach ?l 40" by (simp add: in_reach_def)
  show "ml_last ?l + limiter_interval ?l \<le> 40"
    using interval_bounds(3) [of ?l] inv by (simp add: limiter_inv_def)
qed

text \<open>
  A limiter is built from the \<open>-rate-limit\<close> flag without a check, and \<open>Allow\<close> panics (it
  divides by the limit) exactly when that flag is 0, at every call.
\<close>

theorem limiter_zero_limit_panics:
  "is_panic (fst (Allow t (newMsgLimiter limit window now))) \<longleftrightarrow> limit = 0"
  by (simp add: Allow_def newMsgLimiter_def Let_def)

end
