(* ===== verification/Signal.thy ===== *)
theory Signal
  imports Config Wire
begin

text \<open>
  \<open>signal/signal.go\<close>: the envelope of everything the peers exchange.  \<open>signal_New\<close> and
  \<open>signal_Parse\<close> follow the source's buffer offsets and checks statement by statement;
  \<open>signal_wire\<close> is the layout they implement.  A \<open>Type\<close> of the source is a string, and a
  parsed signal may carry any string, so the types are string constants here too.
\<close>

subsection \<open>Signal types\<close>

definition Message :: gostring where
  "Message = str ''message''"

definition Delete :: gostring where
  "Delete = str ''delete''"

definition Update :: gostring where
  "Update = str ''update''"

definition FileMeta :: gostring where
  "FileMeta = str ''file_meta''"

definition KeyExchange :: gostring where
  "KeyExchange = str ''key_exchange''"

definition InfoRequest :: gostring where
  "InfoRequest = str ''info_request''"

definition InfoResponse :: gostring where
  "InfoResponse = str ''info_response''"

definition InfoChanged :: gostring where
  "InfoChanged = str ''info_changed''"

definition PeerAccepted :: gostring where
  "PeerAccepted = str ''peer_accepted''"

record signal =
  sig_Type :: gostring
  sig_From :: key
  sig_ID :: uuid
  sig_Content :: bytes

abbreviation Marker :: byte where
  "Marker \<equiv> 1"

abbreviation headerPrefixLen :: nat where
  "headerPrefixLen \<equiv> 3"

subsection \<open>Building and parsing\<close>

definition u16Vrf :: "int \<Rightarrow> 16 word result" where
  "u16Vrf n = (if n < 0 \<or> n > 65535 then Fail ''signal: length exceeds uint16''
               else Inr (of_int n))"

definition u32Vrf :: "int \<Rightarrow> 32 word result" where
  "u32Vrf n = (if n < 0 \<or> n > 4294967295 then Fail ''signal: length exceeds uint32''
               else Inr (of_int n))"

definition signal_New :: "gostring \<Rightarrow> key \<Rightarrow> uuid \<Rightarrow> bytes \<Rightarrow> bytes result" where
  "signal_New typ from uid content =
     (let typeBytes = typ;
          buf = make_bytes (1 + 2 + length typeBytes + AesKeySize + 16 + 4 + length content);
          off = 0
      in bindR (set_at buf off Marker) (\<lambda>buf. let off = off + 1
      in bindR (u16Vrf (int (length typeBytes))) (\<lambda>tpbt.
         bindR (PutUint16 buf off tpbt) (\<lambda>buf. let off = off + 2
      in bindR (copy_at buf off typeBytes) (\<lambda>buf. let off = off + length typeBytes
      in bindR (copy_at buf off (key_bytes from)) (\<lambda>buf. let off = off + AesKeySize
      in bindR (copy_at buf off (uuid_bytes uid)) (\<lambda>buf. let off = off + 16
      in bindR (u32Vrf (int (length content))) (\<lambda>ctn.
         bindR (PutUint32 buf off ctn) (\<lambda>buf. let off = off + 4
      in copy_at buf off content)))))))))"

definition signal_Parse :: "bytes \<Rightarrow> signal result" where
  "signal_Parse data =
     guardR (\<not> length data < headerPrefixLen) ''signal: buffer too short for header''
     (let off = 0
      in bindR (slice data off (off + 1)) (\<lambda>m.
         guardR (m = [Marker]) ''signal: missing marker byte''
     (let off = off + 1
      in bindR (Uint16 data off) (\<lambda>tl. let typeLen = unat tl; off = off + 2
      in guardR (\<not> length data < off + typeLen + AesKeySize + 16 + 4)
           ''signal: buffer too short for header''
        (bindR (slice data off (off + typeLen)) (\<lambda>typ. let off = off + typeLen
      in bindR (slice data off (off + AesKeySize)) (\<lambda>fromB. let off = off + AesKeySize
      in bindR (slice data off (off + 16)) (\<lambda>idB. let off = off + 16
      in bindR (Uint32 data off) (\<lambda>cl. let contentLen = unat cl; off = off + 4
      in guardR (\<not> length data - off < contentLen) ''signal: content length mismatch''
        (bindR (slice data off (off + contentLen)) (\<lambda>content.
           Inr \<lparr>sig_Type = typ, sig_From = key_of fromB, sig_ID = uuid_of idB,
                sig_Content = content\<rparr>)))))))))))"

subsection \<open>The layout\<close>

definition signal_wire :: "signal \<Rightarrow> bytes" where
  "signal_wire s = [Marker] @ nat_be 2 (length (sig_Type s)) @ sig_Type s @
     key_bytes (sig_From s) @ uuid_bytes (sig_ID s) @
     nat_be 4 (length (sig_Content s)) @ sig_Content s"

definition signal_ok :: "signal \<Rightarrow> bool" where
  "signal_ok s \<longleftrightarrow> length (sig_Type s) \<le> 65535 \<and> length (sig_Content s) \<le> 4294967295"

definition wire_typeLen :: "bytes \<Rightarrow> nat" where
  "wire_typeLen data = unat (of_nat (be_nat (take 2 (drop 1 data))) :: 16 word)"

definition wire_contentLen :: "bytes \<Rightarrow> nat" where
  "wire_contentLen data =
     unat (of_nat (be_nat (take 4 (drop (51 + wire_typeLen data) data))) :: 32 word)"

lemmas signal_type_defs =
  Message_def Delete_def Update_def FileMeta_def KeyExchange_def InfoRequest_def
  InfoResponse_def InfoChanged_def PeerAccepted_def

lemma signal_types_distinct:
  "distinct [Message, Delete, Update, FileMeta, KeyExchange, InfoRequest, InfoResponse,
     InfoChanged, PeerAccepted]"
  by (simp add: signal_type_defs str_def)

lemma signal_type_length:
  "t \<in> {Message, Delete, Update, FileMeta, KeyExchange, InfoRequest, InfoResponse,
     InfoChanged, PeerAccepted} \<Longrightarrow> length t \<le> 13"
  by (auto simp: signal_type_defs str_def)

lemma signal_New_eq:
  "signal_New typ from uid content =
     (if length typ > 65535 then Fail ''signal: length exceeds uint16''
      else if length content > 4294967295 then Fail ''signal: length exceeds uint32''
      else Inr (signal_wire \<lparr>sig_Type = typ, sig_From = from, sig_ID = uid,
                             sig_Content = content\<rparr>))"
  by (simp add: signal_New_def Let_def codec u16Vrf_def u32Vrf_def signal_wire_def)

lemma signal_Parse_eq:
  "signal_Parse data =
    (if length data < 3 then Fail ''signal: buffer too short for header''
     else if take 1 data \<noteq> [Marker] then Fail ''signal: missing marker byte''
     else if length data < 55 + wire_typeLen data then Fail ''signal: buffer too short for header''
     else if length data - (55 + wire_typeLen data) < wire_contentLen data
       then Fail ''signal: content length mismatch''
     else Inr \<lparr>sig_Type = take (wire_typeLen data) (drop 3 data),
       sig_From = key_of (take 32 (drop (3 + wire_typeLen data) data)),
       sig_ID = uuid_of (take 16 (drop (35 + wire_typeLen data) data)),
       sig_Content = take (wire_contentLen data) (drop (55 + wire_typeLen data) data)\<rparr>)"
  by (simp add: signal_Parse_def Let_def guardR_def codec wire_typeLen_def wire_contentLen_def)

lemma signal_Parse_wire: "signal_ok s \<Longrightarrow> signal_Parse (signal_wire s @ trail) = Inr s"
  by (simp add: signal_Parse_def Let_def codec signal_wire_def signal_ok_def)

lemma signal_Parse_only_wire:
  assumes "signal_Parse data = Inr s"
  shows "signal_ok s \<and> (\<exists>trail. data = signal_wire s @ trail)"
proof -
  define t where "t = wire_typeLen data"
  define c where "c = wire_contentLen data"
  from assms have len: "55 + t + c \<le> length data"
    and m: "take 1 data = [1]"
    and s: "s = \<lparr>sig_Type = take t (drop 3 data),
         sig_From = key_of (take 32 (drop (3 + t) data)),
         sig_ID = uuid_of (take 16 (drop (35 + t) data)),
         sig_Content = take c (drop (55 + t) data)\<rparr>"
    by (auto simp: signal_Parse_eq t_def c_def split: if_splits)
  have "nat_be 2 t = take 2 (drop 1 data)" "nat_be 4 c = take 4 (drop (51 + t) data)"
    using len by (simp_all add: t_def c_def wire_typeLen_def wire_contentLen_def codec)
  with len have "signal_wire s @ drop (55 + t + c) data = data"
    by (simp add: s signal_wire_def key_bytes_key_of uuid_bytes_uuid_of codec min_absorb2
        m [symmetric])
  moreover have "signal_ok s"
    using len by (simp add: signal_ok_def s codec t_def c_def wire_typeLen_def wire_contentLen_def)
  ultimately show ?thesis by metis
qed

interpretation sig: exact_format signal_wire signal_Parse signal_ok
  by unfold_locales (simp_all add: signal_Parse_wire signal_Parse_only_wire)

subsection \<open>Properties\<close>

text \<open>
  C31: every signal whose type and content fit their length fields is rebuilt exactly by
  \<open>Parse\<close> from what \<open>New\<close> produced, whatever bytes follow it in the buffer.
\<close>

theorem signal_roundtrip:
  assumes "signal_New typ from uid content = Inr buf"
  shows "signal_Parse (buf @ trail) =
    Inr \<lparr>sig_Type = typ, sig_From = from, sig_ID = uid, sig_Content = content\<rparr>"
  using assms sig.roundtrip by (auto simp: signal_New_eq signal_ok_def split: if_splits)

theorem signal_roundtrip_witness:
  "signal_New Message 5 7 [1, 2] = Inr (signal_wire \<lparr>sig_Type = Message, sig_From = 5, sig_ID = 7,
     sig_Content = [1, 2]\<rparr>) \<and>
   signal_Parse (signal_wire \<lparr>sig_Type = Message, sig_From = 5, sig_ID = 7,
     sig_Content = [1, 2]\<rparr> @ [9]) =
   Inr \<lparr>sig_Type = Message, sig_From = 5, sig_ID = 7, sig_Content = [1, 2]\<rparr>"
proof -
  have "signal_New Message 5 7 [1, 2] = Inr (signal_wire \<lparr>sig_Type = Message, sig_From = 5,
     sig_ID = 7, sig_Content = [1, 2]\<rparr>)"
    by (simp add: signal_New_eq Message_def str_def)
  with signal_roundtrip [OF this, of "[9]"] show ?thesis by simp
qed

text \<open>
  C19: On arbitrary network input \<open>Parse\<close> never runs out of its buffer (no slice or integer read
  panics), and it accepts exactly the buffers that start with the encoding of a signal whose
  lengths fit; the signal it returns is that one.
\<close>

theorem signal_Parse_exact:
  "\<not> is_panic (signal_Parse data) \<and>
   (signal_Parse data = Inr s \<longleftrightarrow> signal_ok s \<and> (\<exists>trail. data = signal_wire s @ trail))"
  using sig.dec_iff by (simp add: signal_Parse_eq)

end
