(* ===== verification/Tables.thy ===== *)
theory Tables
  imports Prelude
begin

text \<open>
  Database tables.  A table is the list of its rows in \<open>rowid\<close> order, with a primary key column.
  \<open>INSERT OR REPLACE\<close> drops the row with the new row's key and appends; \<open>INSERT\<close> fails on a key
  that is present.  The laws a client of a table relies on are the locale \<open>table_laws\<close>, which every
  store of \<open>store/\<close> interprets on its own table.
\<close>

definition lookup_row :: "('r \<Rightarrow> 'k) \<Rightarrow> 'r list \<Rightarrow> 'k \<Rightarrow> 'r option" where
  "lookup_row key rows k = find (\<lambda>r. key r = k) rows"

definition delete_row :: "('r \<Rightarrow> 'k) \<Rightarrow> 'k \<Rightarrow> 'r list \<Rightarrow> 'r list" where
  "delete_row key k rows = filter (\<lambda>r. key r \<noteq> k) rows"

definition replace_row :: "('r \<Rightarrow> 'k) \<Rightarrow> 'r \<Rightarrow> 'r list \<Rightarrow> 'r list" where
  "replace_row key r rows = delete_row key (key r) rows @ [r]"

definition update_row :: "('r \<Rightarrow> 'k) \<Rightarrow> 'k \<Rightarrow> ('r \<Rightarrow> 'r) \<Rightarrow> 'r list \<Rightarrow> 'r list" where
  "update_row key k f rows = map (\<lambda>r. if key r = k then f r else r) rows"

definition primary_key :: "('r \<Rightarrow> 'k) \<Rightarrow> 'r list \<Rightarrow> bool" where
  "primary_key key rows \<longleftrightarrow> distinct (map key rows)"

subsection \<open>The interface\<close>

locale table_laws =
  fixes key :: "'r \<Rightarrow> 'k"
    and look :: "'t \<Rightarrow> 'k \<Rightarrow> 'r option"
    and put :: "'r \<Rightarrow> 't \<Rightarrow> 't"
    and del :: "'k \<Rightarrow> 't \<Rightarrow> 't"
    and wf :: "'t \<Rightarrow> bool"
  assumes look_put: "look (put r t) k = (if k = key r then Some r else look t k)"
    and look_del: "look (del j t) k = (if k = j then None else look t k)"
    and look_key: "look t k = Some r \<Longrightarrow> key r = k"
    and wf_put: "wf t \<Longrightarrow> wf (put r t)"
    and wf_del: "wf t \<Longrightarrow> wf (del k t)"
begin

lemma put_twice: "key r = key r' \<Longrightarrow> look (put r (put r' t)) = look (put r t)"
  by (auto simp: look_put)

lemma put_commute: "key r \<noteq> key r' \<Longrightarrow> look (put r (put r' t)) = look (put r' (put r t))"
  by (auto simp: look_put)

lemma del_put: "look (del (key r) (put r t)) = look (del (key r) t)"
  by (auto simp: look_put look_del)

text \<open>A table after any sequence of writes holds, under each key, the last write to it.\<close>

lemma look_puts:
  "look (fold put rs t) k =
     (case find (\<lambda>r. key r = k) (rev rs) of Some r \<Rightarrow> Some r | None \<Rightarrow> look t k)"
proof (induction rs rule: rev_induct)
  case (snoc r rs)
  then show ?case by (auto simp: look_put)
qed simp

lemma wf_puts: "wf t \<Longrightarrow> wf (fold put rs t)"
  by (induction rs arbitrary: t) (auto intro: wf_put)

end

subsection \<open>Tables of rows\<close>

lemma find_filter_same: "find P (filter (\<lambda>r. \<not> P r) rows) = None"
  by (induction rows) auto

lemma find_filter_other:
  "(\<And>r. P r \<Longrightarrow> Q r) \<Longrightarrow> find P (filter Q rows) = find P rows"
  by (induction rows) auto

lemma find_append: "find P (xs @ ys) = (case find P xs of None \<Rightarrow> find P ys | Some x \<Rightarrow> Some x)"
  by (induction xs) auto

lemma lookup_delete:
  "lookup_row key (delete_row key j rows) k = (if k = j then None else lookup_row key rows k)"
  by (auto simp: lookup_row_def delete_row_def find_filter_same intro: find_filter_other)

lemma lookup_replace:
  "lookup_row key (replace_row key r rows) k = (if k = key r then Some r else lookup_row key rows k)"
proof (cases "k = key r")
  case True
  then show ?thesis
    by (simp add: lookup_row_def replace_row_def delete_row_def find_append find_filter_same)
next
  case False
  then have "lookup_row key (delete_row key (key r) rows) k = lookup_row key rows k"
    by (simp add: lookup_delete)
  with False show ?thesis
    by (simp add: lookup_row_def replace_row_def find_append split: option.split)
qed

lemma lookup_key: "lookup_row key rows k = Some r \<Longrightarrow> key r = k"
  by (auto simp: lookup_row_def find_Some_iff)

lemma lookup_mem: "lookup_row key rows k = Some r \<Longrightarrow> r \<in> set rows"
  by (auto simp: lookup_row_def find_Some_iff)

lemma primary_key_delete: "primary_key key rows \<Longrightarrow> primary_key key (delete_row key k rows)"
  by (induction rows) (auto simp: primary_key_def delete_row_def)

lemma primary_key_replace: "primary_key key rows \<Longrightarrow> primary_key key (replace_row key r rows)"
  using primary_key_delete [of key rows "key r"]
  by (auto simp: primary_key_def replace_row_def delete_row_def)

lemma rows_table:
  "table_laws key (lookup_row key) (replace_row key) (delete_row key) (primary_key key)"
  by unfold_locales
    (simp_all add: lookup_replace lookup_delete primary_key_delete primary_key_replace,
      rule lookup_key)

lemma update_row_keys:
  "(\<And>r. key (f r) = key r) \<Longrightarrow> map key (update_row key k f rows) = map key rows"
  by (induction rows) (auto simp: update_row_def)

lemma lookup_update:
  assumes "\<And>r. key (f r) = key r"
  shows "lookup_row key (update_row key j f rows) k =
    (if k = j then map_option f (lookup_row key rows k) else lookup_row key rows k)"
  using assms by (induction rows) (auto simp: update_row_def lookup_row_def)

text \<open>With a primary key, a key's rows in the table are the one that lookup finds.\<close>

lemma filter_key:
  assumes "primary_key key rows"
  shows "filter (\<lambda>r. key r = k) rows = (case lookup_row key rows k of None \<Rightarrow> [] | Some r \<Rightarrow> [r])"
  using assms
proof (induction rows)
  case (Cons a rows)
  then have "filter (\<lambda>r. key r = key a) rows = []"
    by (auto simp: primary_key_def filter_empty_conv image_iff)
  with Cons show ?case
    by (auto simp: primary_key_def lookup_row_def)
qed (simp add: lookup_row_def)

end
