(* ===== verification/External.thy ===== *)
theory External
  imports Prelude
begin

text \<open>
  What the program takes from outside its own sources, as one record of functions that every
  definition using it receives as an argument.

  \<^item> The cryptographic primitives of Go's library (SHA-2, AES-GCM, Ed25519, X25519): functions with
    the laws below as hypotheses where a property relies on them.
  \<^item> \<open>github.com/google/uuid\<close>: its text form and its parser.
  \<^item> \<open>net.ParseIP\<close>, and the \<open>LIKE\<close> operator of SQLite.
  \<^item> \<open>encoding/json\<close> as the outbox calls it on the bytes of a signal: the type, sender and id that
    \<open>Unmarshal\<close> leaves in a fresh \<open>Signal\<close>, whether or not it returns an error.
  \<^item> What a run observes: the clock, random bytes, fresh UUIDs, whether a database statement or a
    connection write succeeds, what a connection delivers, whether a cache entry is still there, and
    in which order a query returns the rows its \<open>ORDER BY\<close> does not order, by their keys (\<open>x_tie\<close>).
    Each is a function of the tick, a counter in the state that every such observation advances,
    so no two observations of a run are forced to agree.
\<close>

text \<open>
  A \<open>net.IP\<close>: nil, or an IPv4 or IPv6 address (Go identifies an IPv4 address with its IPv4-in-IPv6
  form).
\<close>

datatype ip = NilIP | IPv4 "32 word" | IPv6 "128 word"

record ext =
  x_sha256 :: "bytes \<Rightarrow> 256 word"
  x_sha512 :: "bytes \<Rightarrow> 512 word"
  x_seal :: "bytes \<Rightarrow> bytes \<Rightarrow> bytes \<Rightarrow> bytes"
  x_open :: "bytes \<Rightarrow> bytes \<Rightarrow> bytes \<Rightarrow> bytes option"
  x_ed_public :: "key \<Rightarrow> key"
  x_ed_sign :: "key \<Rightarrow> bytes \<Rightarrow> bytes"
  x_ed_verify :: "key \<Rightarrow> bytes \<Rightarrow> bytes \<Rightarrow> bool"
  x_dh_public :: "key \<Rightarrow> key"
  x_dh_shared :: "key \<Rightarrow> key \<Rightarrow> bytes option"
  x_uuid_String :: "uuid \<Rightarrow> gostring"
  x_uuid_Parse :: "gostring \<Rightarrow> uuid option"
  x_ParseIP :: "gostring \<Rightarrow> ip"
  x_like :: "gostring \<Rightarrow> gostring \<Rightarrow> bool"
  x_json_signal :: "bytes \<Rightarrow> gostring \<times> key \<times> uuid"
  x_now :: "nat \<Rightarrow> time"
  x_uuid_New :: "nat \<Rightarrow> uuid"
  x_nonce :: "nat \<Rightarrow> 96 word"
  x_random :: "nat \<Rightarrow> key"
  x_db :: "nat \<Rightarrow> bool"
  x_write :: "nat \<Rightarrow> bool"
  x_read :: "nat \<Rightarrow> bytes option"
  x_cached :: "nat \<Rightarrow> bool"
  x_tie :: "nat \<Rightarrow> gostring \<Rightarrow> nat"

text \<open>
  The documented laws.  AES-GCM is deterministic for a given key and nonce: opening inverts sealing,
  and whatever opens is what sealing its plaintext gives.
\<close>

definition aead_laws :: "ext \<Rightarrow> bool" where
  "aead_laws x \<longleftrightarrow> (\<forall>k n p. length n = 12 \<longrightarrow> x_open x k n (x_seal x k n p) = Some p) \<and>
     (\<forall>k n c p. x_open x k n c = Some p \<longrightarrow> c = x_seal x k n p)"

definition signature_laws :: "ext \<Rightarrow> bool" where
  "signature_laws x \<longleftrightarrow> (\<forall>seed m. x_ed_verify x (x_ed_public x seed) m (x_ed_sign x seed m)) \<and>
     (\<forall>seed m. length (x_ed_sign x seed m) = 64)"

definition dh_laws :: "ext \<Rightarrow> bool" where
  "dh_laws x \<longleftrightarrow> (\<forall>a b. x_dh_shared x a (x_dh_public x b) = x_dh_shared x b (x_dh_public x a))"

definition uuid_laws :: "ext \<Rightarrow> bool" where
  "uuid_laws x \<longleftrightarrow>
     (\<forall>u. x_uuid_Parse x (x_uuid_String x u) = Some u) \<and> (\<forall>u. x_uuid_String x u \<noteq> [])"

text \<open>
  SQLite's \<open>LIKE\<close>: \<open>%q%\<close> matches every text with \<open>q\<close> inside it, for texts of ASCII characters
  (other than NUL) and a pattern below the library's length limit.
\<close>

definition like_laws :: "ext \<Rightarrow> bool" where
  "like_laws x \<longleftrightarrow> (\<forall>a q b. (\<forall>c \<in> set (a @ q @ b). 0 < c \<and> c < 128) \<longrightarrow> length q \<le> 49998 \<longrightarrow>
     x_like x (str ''%'' @ q @ str ''%'') (a @ q @ b))"

text \<open>
  \<open>json.Unmarshal\<close> checks its input before it stores anything, and no JSON text begins with a byte
  0 or 1.
\<close>

definition json_laws :: "ext \<Rightarrow> bool" where
  "json_laws x \<longleftrightarrow> (\<forall>b bs. b = 0 \<or> b = 1 \<longrightarrow> x_json_signal x (b # bs) = ([], 0, 0))"

text \<open>
  A concrete instance that satisfies every law, for the examples that show hypotheses can hold: a
  sealed text carries its key and nonce, a signature its signer and message, the shared secret is a
  product, and every observation succeeds.
\<close>

definition demo_ext :: ext where
  "demo_ext = \<lparr>
     x_sha256 = (\<lambda>bs. of_nat (be_nat bs)),
     x_sha512 = (\<lambda>bs. of_nat (be_nat bs)),
     x_seal = (\<lambda>k n p. k @ n @ p),
     x_open = (\<lambda>k n c. if take (length k + length n) c = k @ n
                        then Some (drop (length k + length n) c) else None),
     x_ed_public = (\<lambda>seed. seed + 1),
     x_ed_sign = (\<lambda>seed m. key_bytes (seed + 1) @ key_bytes (key_of m)),
     x_ed_verify = (\<lambda>pub m sg. sg = key_bytes pub @ key_bytes (key_of m)),
     x_dh_public = (\<lambda>a. a),
     x_dh_shared = (\<lambda>a b. Some (key_bytes (a * b))),
     x_uuid_String = uuid_bytes,
     x_uuid_Parse = (\<lambda>s. if length s = 16 then Some (uuid_of s) else None),
     x_ParseIP = (\<lambda>s. if s = str ''127.0.0.1'' then IPv4 0x7F000001 else NilIP),
     x_like = (\<lambda>pat txt. True),
     x_json_signal = (\<lambda>_. ([], 0, 0)),
     x_now = (\<lambda>t. int t * 1000000000),
     x_uuid_New = (\<lambda>t. of_nat (Suc t)),
     x_nonce = (\<lambda>t. of_nat t),
     x_random = (\<lambda>t. of_nat (Suc t)),
     x_db = (\<lambda>_. True),
     x_write = (\<lambda>_. True),
     x_read = (\<lambda>_. None),
     x_cached = (\<lambda>_. True),
     x_tie = (\<lambda>_ _. 0)\<rparr>"

text \<open>The state every stateful operation threads, and the observations.\<close>

record world =
  tick :: nat

definition Now :: "ext \<Rightarrow> ('z world_scheme) \<Rightarrow> time \<times> 'z world_scheme" where
  "Now x s = (x_now x (tick s), s\<lparr>tick := Suc (tick s)\<rparr>)"

definition uuid_New :: "ext \<Rightarrow> ('z world_scheme) \<Rightarrow> uuid \<times> 'z world_scheme" where
  "uuid_New x s = (x_uuid_New x (tick s), s\<lparr>tick := Suc (tick s)\<rparr>)"

definition rand_nonce :: "ext \<Rightarrow> ('z world_scheme) \<Rightarrow> bytes \<times> 'z world_scheme" where
  "rand_nonce x s = (nat_be 12 (unat (x_nonce x (tick s))), s\<lparr>tick := Suc (tick s)\<rparr>)"

definition db_ok :: "ext \<Rightarrow> ('z world_scheme) \<Rightarrow> bool \<times> 'z world_scheme" where
  "db_ok x s = (x_db x (tick s), s\<lparr>tick := Suc (tick s)\<rparr>)"

lemmas observe_defs = Now_def uuid_New_def rand_nonce_def db_ok_def

subsection \<open>Sequencing with state\<close>

text \<open>
  A stateful operation returns its result and the new state; what it wrote before a fault stays
  written.  \<open>bindS\<close> returns early on any fault, \<open>catchS\<close> runs the error branch of a caller (a panic
  still passes), \<open>ignoreS\<close> is an assignment to the blank identifier.
\<close>

definition bindS :: "'a result \<times> 's \<Rightarrow> ('a \<Rightarrow> 's \<Rightarrow> 'b result \<times> 's) \<Rightarrow> 'b result \<times> 's" where
  "bindS rs f = (case rs of (Inl e, s) \<Rightarrow> (Inl e, s) | (Inr v, s) \<Rightarrow> f v s)"

definition wrapS :: "string \<Rightarrow> 'a result \<times> 's \<Rightarrow> 'a result \<times> 's" where
  "wrapS msg rs = (wrapR msg (fst rs), snd rs)"

definition catchS ::
  "'a result \<times> 's \<Rightarrow> (go_error \<Rightarrow> 's \<Rightarrow> 'b result \<times> 's) \<Rightarrow> ('a \<Rightarrow> 's \<Rightarrow> 'b result \<times> 's) \<Rightarrow>
    'b result \<times> 's" where
  "catchS rs h f =
     (case rs of (Inl (Err e), s) \<Rightarrow> h e s | (Inl (Panic p), s) \<Rightarrow> (Inl (Panic p), s)
      | (Inr v, s) \<Rightarrow> f v s)"

definition ignoreS :: "'a result \<times> 's \<Rightarrow> unit result \<times> 's" where
  "ignoreS rs = catchS rs (\<lambda>_ s. (Inr (), s)) (\<lambda>_ s. (Inr (), s))"

lemma bindS_simps [simp, res]:
  "bindS (Inl e, s) f = (Inl e, s)" "bindS (Inr v, s) f = f v s"
  by (simp_all add: bindS_def)

lemma wrapS_simps [simp, res]: "wrapS m (r, s) = (wrapR m r, s)"
  by (simp add: wrapS_def)

lemma catchS_simps [simp, res]:
  "catchS (Inl (Err e), s) h f = h e s" "catchS (Inl (Panic p), s) h f = (Inl (Panic p), s)"
  "catchS (Inr v, s) h f = f v s"
  by (simp_all add: catchS_def)

lemma ignoreS_simps [simp, res]:
  "ignoreS (Inl (Err e), s) = (Inr (), s)" "ignoreS (Inl (Panic p), s) = (Inl (Panic p), s)"
  "ignoreS (Inr v, s) = (Inr (), s)"
  by (simp_all add: ignoreS_def)

lemma bindS_Inr_iff [res]:
  "bindS rs f = (Inr v, s') \<longleftrightarrow> (\<exists>u s. rs = (Inr u, s) \<and> f u s = (Inr v, s'))"
  by (cases rs; cases "fst rs") auto

lemma snd_wrapS [simp]: "snd (wrapS m rs) = snd rs"
  by (simp add: wrapS_def)

lemma snd_ignoreS [simp]: "snd (ignoreS rs) = snd rs"
  by (auto simp: ignoreS_def catchS_def split: prod.splits sum.splits fault.splits)

lemma aead_open: "aead_laws x \<Longrightarrow> length n = 12 \<Longrightarrow> x_open x k n (x_seal x k n p) = Some p"
  by (simp add: aead_laws_def)

lemma aead_only: "aead_laws x \<Longrightarrow> x_open x k n c = Some p \<Longrightarrow> c = x_seal x k n p"
  by (simp add: aead_laws_def)

lemma demo_ext_laws:
  "aead_laws demo_ext" "signature_laws demo_ext" "dh_laws demo_ext" "uuid_laws demo_ext"
  "like_laws demo_ext" "json_laws demo_ext"
proof -
  have "c = k @ n @ drop (length k + length n) c" if "take (length k + length n) c = k @ n"
    for c k n :: bytes
    using that append_take_drop_id [of "length k + length n" c] by simp
  then show "aead_laws demo_ext"
    by (auto simp: demo_ext_def aead_laws_def split: if_splits)
qed (simp_all add: demo_ext_def signature_laws_def dh_laws_def uuid_laws_def like_laws_def
    json_laws_def mult.commute)

lemma demo_ext_sel [simp]:
  "x_db demo_ext t" "x_write demo_ext t" "x_cached demo_ext t" "x_read demo_ext t = None"
  "x_now demo_ext t = int t * 1000000000" "x_uuid_New demo_ext t = of_nat (Suc t)"
  "x_random demo_ext t = of_nat (Suc t)" "x_nonce demo_ext t = of_nat t"
  "x_uuid_String demo_ext u = uuid_bytes u"
  by (simp_all add: demo_ext_def)

end
