(* ===== verification/Keys.thy ===== *)
theory Keys
  imports Config External "HOL-Library.List_Lexorder"
begin

text \<open>
  \<open>keys/generate.go\<close>: keys and their hexadecimal text, which is also their JSON and database form,
  and the identity file a client keeps beside its executable.
\<close>

record Keys =
  K_Public :: key
  K_Private :: key
  K_sign :: key

abbreviation NilKey :: key where
  "NilKey \<equiv> 0"

abbreviation minQuotedHexLen :: nat where
  "minQuotedHexLen \<equiv> 2"

subsection \<open>Hexadecimal\<close>

text \<open>\<open>encoding/hex\<close>: lower-case digits out, either case in.\<close>

definition hexDigit :: "nat \<Rightarrow> byte" where
  "hexDigit n = (if n < 10 then of_nat (48 + n) else of_nat (87 + n))"

definition fromHexChar :: "byte \<Rightarrow> nat option" where
  "fromHexChar c =
     (let n = unat c in
      if 48 \<le> n \<and> n \<le> 57 then Some (n - 48)
      else if 97 \<le> n \<and> n \<le> 102 then Some (n - 87)
      else if 65 \<le> n \<and> n \<le> 70 then Some (n - 55) else None)"

primrec hex_EncodeToString :: "bytes \<Rightarrow> gostring" where
  "hex_EncodeToString [] = []"
| "hex_EncodeToString (b # bs) =
     hexDigit (unat b div 16) # hexDigit (unat b mod 16) # hex_EncodeToString bs"

fun hex_DecodeString :: "gostring \<Rightarrow> bytes option" where
  "hex_DecodeString [] = Some []"
| "hex_DecodeString [c] = None"
| "hex_DecodeString (a # b # s) =
     (case (fromHexChar a, fromHexChar b) of
        (Some x, Some y) \<Rightarrow> map_option ((#) (of_nat (x * 16 + y))) (hex_DecodeString s)
      | _ \<Rightarrow> None)"

subsection \<open>Keys as text\<close>

definition Key_String :: "key \<Rightarrow> gostring" where
  "Key_String p = hex_EncodeToString (key_bytes p)"

definition FromHex :: "gostring \<Rightarrow> key result" where
  "FromHex s =
     (if s = [] then Fail ''keys: empty key''
      else case hex_DecodeString s of
        None \<Rightarrow> Inl (Err (Wrap ''keys: decode hex'' (Errorf ''encoding/hex'')))
      | Some buf \<Rightarrow> if length buf \<noteq> 32 then Fail ''keys: unexpected key length''
                    else Inr (key_of buf))"

abbreviation quote_char :: byte where
  "quote_char \<equiv> 34"

definition MarshalJSON :: "key \<Rightarrow> bytes" where
  "MarshalJSON p = [quote_char] @ Key_String p @ [quote_char]"

definition parseHexQuoted :: "bytes \<Rightarrow> gostring result" where
  "parseHexQuoted b =
     guardR (\<not> length b < minQuotedHexLen) ''keys: too short for quoted hex''
    (guardR (\<not> (hd b \<noteq> quote_char \<or> last b \<noteq> quote_char)) ''keys: not a quoted string''
    (slice b 1 (length b - 1)))"

definition UnmarshalJSON :: "bytes \<Rightarrow> key result" where
  "UnmarshalJSON b = bindR (parseHexQuoted b) (\<lambda>s. bindR (FromHex s) Inr)"

text \<open>A column value as the database driver hands it to \<open>Scan\<close>.\<close>

datatype sql_value = SText gostring | SBlob bytes | SOther

definition Key_Value :: "key \<Rightarrow> sql_value" where
  "Key_Value p = SText (Key_String p)"

fun Key_Scan :: "sql_value \<Rightarrow> key result" where
  "Key_Scan (SText v) = FromHex v"
| "Key_Scan (SBlob v) = FromHex v"
| "Key_Scan SOther = Fail ''keys: cannot scan type''"

subsection \<open>The identity file\<close>

definition Sign :: "ext \<Rightarrow> Keys \<Rightarrow> bytes \<Rightarrow> bytes" where
  "Sign x k msg = x_ed_sign x (K_sign k) msg"

definition Verify :: "ext \<Rightarrow> key \<Rightarrow> bytes \<Rightarrow> bytes \<Rightarrow> bool" where
  "Verify x pubKey msg sg = x_ed_verify x pubKey msg sg"

definition Derive :: "ext \<Rightarrow> Keys \<Rightarrow> gostring" where
  "Derive x k = hex_EncodeToString (take 8 (key_bytes (x_sha256 x (key_bytes (K_Private k)))))"

text \<open>
  A directory: each entry's name, whether it is a directory, and its content where it can be read.
  \<open>os.ReadDir\<close> lists the entries in name order; \<open>None\<close> is a directory that cannot be listed.
\<close>

type_synonym dir_entry = "gostring \<times> bool \<times> bytes option"

definition has_prefix :: "gostring \<Rightarrow> gostring \<Rightarrow> bool" where
  "has_prefix p s \<longleftrightarrow> take (length p) s = p"

definition has_suffix :: "gostring \<Rightarrow> gostring \<Rightarrow> bool" where
  "has_suffix p s \<longleftrightarrow> length p \<le> length s \<and> drop (length s - length p) s = p"

definition findExistingKey :: "dir_entry list option \<Rightarrow> dir_entry option" where
  "findExistingKey d =
     (case d of None \<Rightarrow> None
      | Some es \<Rightarrow>
          find (\<lambda>(name, isDir, _). \<not> isDir \<and> has_prefix (str ''.'') name \<and>
                 has_suffix (str ''_key'') name)
            (sort_key fst es))"

definition keys_of_seed :: "ext \<Rightarrow> key \<Rightarrow> Keys" where
  "keys_of_seed x seed = \<lparr>K_Public = x_ed_public x seed, K_Private = seed, K_sign = seed\<rparr>"

definition key_file :: "ext \<Rightarrow> Keys \<Rightarrow> gostring" where
  "key_file x k = str ''.'' @ Derive x k @ str ''_key''"

text \<open>\<open>AutoLoad\<close> with the seed it would draw and whether writing the key file succeeds.\<close>

definition write_file :: "gostring \<Rightarrow> bytes \<Rightarrow> dir_entry list option \<Rightarrow> dir_entry list option" where
  "write_file name content d =
     (case d of None \<Rightarrow> None
      | Some es \<Rightarrow> Some ((name, False, Some content) # filter (\<lambda>e. fst e \<noteq> name) es))"

definition AutoLoad ::
  "ext \<Rightarrow> key \<Rightarrow> bool \<Rightarrow> dir_entry list option \<Rightarrow> Keys result \<times> dir_entry list option" where
  "AutoLoad x seed write_ok d =
     (let fresh = (let k = keys_of_seed x seed
                   in if write_ok then (Inr k, write_file (key_file x k) (key_bytes seed) d)
                      else (Inl (Panic ''keys: write key file''), d))
      in case findExistingKey d of
           Some (_, _, Some content) \<Rightarrow>
             if length content = 32 then (Inr (keys_of_seed x (key_of content)), d) else fresh
         | _ \<Rightarrow> fresh)"

subsection \<open>Hexadecimal round trip\<close>

lemma fromHexChar_hexDigit: "n < 16 \<Longrightarrow> fromHexChar (hexDigit n) = Some n"
  by (auto simp: fromHexChar_def hexDigit_def unat_of_nat Let_def simp del: of_nat_add)

lemma byte_nibbles: "of_nat (unat b div 16 * 16 + unat b mod 16) = (b :: byte)"
  by (simp only: div_mult_mod_eq) simp

lemma hex_roundtrip: "hex_DecodeString (hex_EncodeToString bs) = Some bs"
proof (induction bs)
  case Nil
  then show ?case by simp
next
  case (Cons b bs)
  have "unat b div 16 < 16"
    using unat_less [of b] by simp
  then show ?case
    using Cons by (simp add: fromHexChar_hexDigit byte_nibbles del: of_nat_add of_nat_mult)
qed

lemma length_hex [simp]: "length (hex_EncodeToString bs) = 2 * length bs"
  by (induction bs) auto

lemma length_hex_decode: "hex_DecodeString s = Some bs \<Longrightarrow> length s = 2 * length bs"
  by (induction s arbitrary: bs rule: hex_DecodeString.induct) (auto split: option.splits)

lemma FromHex_String [simp]: "FromHex (Key_String k) = Inr k"
proof -
  have "Key_String k \<noteq> []"
    using length_hex [of "key_bytes k"] by (auto simp: Key_String_def simp del: length_hex)
  then show ?thesis by (simp add: FromHex_def Key_String_def hex_roundtrip)
qed

lemma Key_String_inject [simp]: "Key_String a = Key_String b \<longleftrightarrow> a = b"
  by (metis FromHex_String sum.inject(2))

lemma FromHex_length: "FromHex s = Inr k \<Longrightarrow> length s = 64"
  by (auto simp: FromHex_def dest: length_hex_decode split: if_splits option.splits)

lemma slice_quoted: "slice (q # s @ [r]) 1 (length (q # s @ [r]) - 1) = Inr s"
  by (simp add: slice_def)

subsection \<open>Finding the identity file\<close>

lemma find_unique:
  assumes "a \<in> set xs" "P a" "\<And>b. b \<in> set xs \<Longrightarrow> P b \<Longrightarrow> b = a"
  shows "find P xs = Some a"
proof -
  from assms(1,2) obtain b where b: "find P xs = Some b"
    by (cases "find P xs") (auto simp: find_None_iff)
  then have "P b" "b \<in> set xs"
    by (auto simp: find_Some_iff)
  with assms(3) b show ?thesis by simp
qed

lemma key_file_matches:
  "has_prefix (str ''.'') (key_file x k)" "has_suffix (str ''_key'') (key_file x k)"
  by (simp_all add: has_prefix_def has_suffix_def key_file_def str_def)

lemma findExistingKey_written:
  assumes "findExistingKey (Some es) = None"
  shows "findExistingKey (write_file (key_file x k) c (Some es)) =
    Some (key_file x k, False, Some c)"
proof -
  have none: "isDir \<or> \<not> has_prefix (str ''.'') name \<or> \<not> has_suffix (str ''_key'') name"
    if "(name, isDir, r) \<in> set es" for name isDir r
    using assms that by (auto simp: findExistingKey_def find_None_iff)
  show ?thesis
    unfolding findExistingKey_def write_file_def option.case
  proof (rule find_unique)
    fix e :: dir_entry
    obtain name isDir r where e: "e = (name, isDir, r)" by (cases e)
    assume "e \<in> set (sort_key fst ((key_file x k, False, Some c) #
        filter (\<lambda>e. fst e \<noteq> key_file x k) es))"
      and "case e of (name, isDir, _) \<Rightarrow> \<not> isDir \<and> has_prefix (str ''.'') name \<and>
        has_suffix (str ''_key'') name"
    with none [of name isDir r] show "e = (key_file x k, False, Some c)"
      by (auto simp: e set_insort_key)
  qed (simp_all add: key_file_matches set_insort_key)
qed

subsection \<open>Properties\<close>

text \<open>
  A key's text determines it: \<open>FromHex\<close> inverts \<open>String\<close>, and so do the JSON and database
  conversions built on them.
\<close>

theorem key_text_roundtrip:
  "FromHex (Key_String k) = Inr k \<and> UnmarshalJSON (MarshalJSON k) = Inr k \<and>
   Key_Scan (Key_Value k) = Inr k \<and> length (Key_String k) = PubKeyLen \<and>
   (Key_String k = Key_String k' \<longleftrightarrow> k = k')"
  using slice_quoted [of quote_char "Key_String k" quote_char]
  by (simp add: UnmarshalJSON_def MarshalJSON_def parseHexQuoted_def Key_Value_def guardR_def)
    (simp add: Key_String_def)

text \<open>
  Identity survives restarts: the keys a first start generates and writes are the keys every
  later start loads, whatever seed that start would draw, and loading leaves the directory alone.
\<close>

theorem identity_persists:
  assumes "findExistingKey (Some es) = None" "AutoLoad x seed w (Some es) = (Inr k, d)"
  shows "AutoLoad x seed' w' d = (Inr k, d) \<and> K_Private k = seed"
proof -
  have k: "k = keys_of_seed x seed" and d: "d = write_file (key_file x k) (key_bytes seed) (Some es)"
    using assms by (auto simp: AutoLoad_def Let_def split: if_splits)
  show ?thesis
    unfolding d by (simp add: AutoLoad_def findExistingKey_written [OF assms(1)] k)
      (simp add: keys_of_seed_def)
qed

theorem identity_persists_witness:
  "AutoLoad demo_ext 6 True (snd (AutoLoad demo_ext 5 True (Some []))) =
     (Inr (keys_of_seed demo_ext 5), snd (AutoLoad demo_ext 5 True (Some [])))"
proof -
  have f: "findExistingKey (Some []) = None" by (simp add: findExistingKey_def)
  have a: "AutoLoad demo_ext 5 True (Some []) =
    (Inr (keys_of_seed demo_ext 5), snd (AutoLoad demo_ext 5 True (Some [])))"
    by (simp add: AutoLoad_def f Let_def)
  show ?thesis using identity_persists [OF f a, of 6 True] by simp
qed

end
