(* ===== verification/StoreCrypto.thy ===== *)
theory StoreCrypto
  imports Config External
begin

text \<open>
  Encryption at rest, from \<open>store/store.go\<close>: values are sealed with AES-GCM under a key derived from
  the client's private key, with a fresh random nonce in front, and text columns hold the result in
  base64 (\<open>encoding/base64\<close>, standard alphabet with padding).
\<close>

subsection \<open>Base64\<close>

definition b64Digit :: "nat \<Rightarrow> byte" where
  "b64Digit n = of_nat (if n < 26 then n + 65 else if n < 52 then n + 71
     else if n < 62 then n - 4 else if n = 62 then 43 else 47)"

definition b64Value :: "byte \<Rightarrow> nat option" where
  "b64Value c =
     (let n = unat c in
      if 65 \<le> n \<and> n \<le> 90 then Some (n - 65)
      else if 97 \<le> n \<and> n \<le> 122 then Some (n - 71)
      else if 48 \<le> n \<and> n \<le> 57 then Some (n + 4)
      else if n = 43 then Some 62 else if n = 47 then Some 63 else None)"

abbreviation pad_char :: byte where
  "pad_char \<equiv> 61"

fun base64_EncodeToString :: "bytes \<Rightarrow> gostring" where
  "base64_EncodeToString [] = []"
| "base64_EncodeToString [a] =
     [b64Digit (unat a div 4), b64Digit (unat a mod 4 * 16), pad_char, pad_char]"
| "base64_EncodeToString [a, b] =
     [b64Digit (unat a div 4), b64Digit (unat a mod 4 * 16 + unat b div 16),
      b64Digit (unat b mod 16 * 4), pad_char]"
| "base64_EncodeToString (a # b # c # bs) =
     b64Digit (unat a div 4) # b64Digit (unat a mod 4 * 16 + unat b div 16) #
     b64Digit (unat b mod 16 * 4 + unat c div 64) # b64Digit (unat c mod 64) #
     base64_EncodeToString bs"

text \<open>
  The decoder works on quanta of four characters, after line breaks are skipped; the bits a final
  short quantum leaves over are not checked.
\<close>

fun base64_quanta :: "gostring \<Rightarrow> bytes option" where
  "base64_quanta [] = Some []"
| "base64_quanta (p # q # r # t # s) =
     (case (b64Value p, b64Value q) of
        (Some x, Some y) \<Rightarrow>
          (case b64Value r of
             Some z \<Rightarrow>
               (case b64Value t of
                  Some w \<Rightarrow> map_option (\<lambda>bs. of_nat (x * 4 + y div 16) #
                      of_nat (y mod 16 * 16 + z div 4) # of_nat (z mod 4 * 64 + w) # bs)
                      (base64_quanta s)
                | None \<Rightarrow> if t = pad_char \<and> s = []
                          then Some [of_nat (x * 4 + y div 16), of_nat (y mod 16 * 16 + z div 4)]
                          else None)
           | None \<Rightarrow> if r = pad_char \<and> t = pad_char \<and> s = []
                     then Some [of_nat (x * 4 + y div 16)] else None)
      | _ \<Rightarrow> None)"
| "base64_quanta _ = None"

definition base64_DecodeString :: "gostring \<Rightarrow> bytes option" where
  "base64_DecodeString s = base64_quanta (filter (\<lambda>c. c \<noteq> 10 \<and> c \<noteq> 13) s)"

subsection \<open>Sealing\<close>

text \<open>\<open>aes.NewCipher\<close> accepts keys of 16, 24 and 32 bytes; \<open>cipher.NewGCM\<close> accepts every AES block.\<close>

definition aes_key_ok :: "bytes \<Rightarrow> bool" where
  "aes_key_ok k \<longleftrightarrow> length k = 16 \<or> length k = 24 \<or> length k = 32"

definition aesKey :: "ext \<Rightarrow> key \<Rightarrow> bytes" where
  "aesKey x secret = take AesKeySize (nat_be 64 (unat (x_sha512 x (key_bytes secret))))"

definition encryptRaw :: "ext \<Rightarrow> key \<Rightarrow> bytes \<Rightarrow> 'z world_scheme \<Rightarrow> bytes result \<times> 'z world_scheme" where
  "encryptRaw x secret plain s =
     (if \<not> aes_key_ok (aesKey x secret)
      then (Inl (Err (Wrap ''store: new cipher'' (Errorf ''crypto/aes: invalid key size''))), s)
      else (let (nonce, s) = rand_nonce x s
            in (Inr (nonce @ x_seal x (aesKey x secret) nonce plain), s)))"

definition decryptRaw :: "ext \<Rightarrow> key \<Rightarrow> bytes \<Rightarrow> bytes result" where
  "decryptRaw x secret data =
     (if \<not> aes_key_ok (aesKey x secret)
      then Inl (Err (Wrap ''store: new cipher'' (Errorf ''crypto/aes: invalid key size'')))
      else guardR (\<not> length data < NonceSize) ''store: invalid ciphertext''
       (case x_open x (aesKey x secret) (take NonceSize data) (drop NonceSize data) of
          None \<Rightarrow> Inl (Err (Wrap ''store: open''
                    (Errorf ''cipher: message authentication failed'')))
        | Some plain \<Rightarrow> Inr plain))"

definition encrypt :: "ext \<Rightarrow> key \<Rightarrow> bytes \<Rightarrow> 'z world_scheme \<Rightarrow> gostring result \<times> 'z world_scheme" where
  "encrypt x secret plain s =
     bindS (encryptRaw x secret plain s) (\<lambda>raw s. (Inr (base64_EncodeToString raw), s))"

definition decrypt :: "ext \<Rightarrow> key \<Rightarrow> gostring \<Rightarrow> bytes result" where
  "decrypt x secret data =
     (case base64_DecodeString data of
        None \<Rightarrow> Inl (Err (Wrap ''store: decode base64'' (Errorf ''illegal base64 data'')))
      | Some raw \<Rightarrow> decryptRaw x secret raw)"

subsection \<open>Base64 round trip\<close>

lemma b64Value_Digit: "n < 64 \<Longrightarrow> b64Value (b64Digit n) = Some n"
  by (auto simp: b64Value_def b64Digit_def unat_of_nat Let_def simp del: of_nat_add)

lemma b64Value_pad: "b64Value pad_char = None"
  by (simp add: b64Value_def)

lemma b64Digit_no_break: "n < 64 \<Longrightarrow> b64Digit n \<noteq> 10 \<and> b64Digit n \<noteq> 13"
  using b64Value_Digit [of n] by (auto simp: b64Value_def)

lemma byte_lt: "unat (b :: byte) < 256"
  using unat_less [of b] by simp

lemma b64_parts:
  "unat a div 4 < 64" "unat a mod 4 * 16 < 64" "unat a mod 4 * 16 + unat b div 16 < 64"
  "unat b mod 16 * 4 < 64" "unat b mod 16 * 4 + unat c div 64 < 64" "unat c mod 64 < 64"
  for a b c :: byte
  using byte_lt [of a] byte_lt [of b] byte_lt [of c] by auto

lemma b64_join:
  "x div 4 * 4 + (x mod 4 * 16 + y) div 16 = x" if "y < 16" for x y :: nat
  using that by simp

lemma b64_join2:
  "(x * 16 + y div 16) mod 16 * 16 + (y mod 16 * 4 + z) div 4 = y" if "y < 256" "z < 4"
  for x y z :: nat
  using that by simp

lemma b64_join3: "(x * 4 + z div 64) mod 4 * 64 + z mod 64 = z" if "z < 256" for x z :: nat
  using that by simp

lemma base64_quanta_roundtrip: "base64_quanta (base64_EncodeToString bs) = Some bs"
proof (induction bs rule: base64_EncodeToString.induct)
  case (2 a)
  show ?case
    using b64_join [of 0 "unat a"] by (simp add: b64Value_Digit b64_parts b64Value_pad
        del: of_nat_add of_nat_mult)
next
  case (3 a b)
  show ?case
    using b64_join [of "unat b div 16" "unat a"] b64_join2 [of "unat b" 0 "unat a mod 4"]
      byte_lt [of b]
    by (simp add: b64Value_Digit b64_parts b64Value_pad del: of_nat_add of_nat_mult)
next
  case (4 a b c bs)
  then show ?case
    using b64_join [of "unat b div 16" "unat a"]
      b64_join2 [of "unat b" "unat c div 64" "unat a mod 4"]
      b64_join3 [of "unat c" "unat b mod 16"] byte_lt [of b] byte_lt [of c]
    by (simp add: b64Value_Digit b64_parts del: of_nat_add of_nat_mult)
qed simp

lemma base64_no_breaks:
  "filter (\<lambda>c. c \<noteq> 10 \<and> c \<noteq> 13) (base64_EncodeToString bs) = base64_EncodeToString bs"
  by (induction bs rule: base64_EncodeToString.induct)
    (simp_all add: b64Digit_no_break b64_parts)

lemma base64_roundtrip: "base64_DecodeString (base64_EncodeToString bs) = Some bs"
  by (simp add: base64_DecodeString_def base64_no_breaks base64_quanta_roundtrip)

subsection \<open>Sealing round trip\<close>

lemma aesKey_ok [simp]: "aes_key_ok (aesKey x secret)"
  by (simp add: aes_key_ok_def aesKey_def)

text \<open>What sealing at a given tick yields.\<close>

definition sealed :: "ext \<Rightarrow> key \<Rightarrow> nat \<Rightarrow> bytes \<Rightarrow> bytes" where
  "sealed x secret t plain =
     (let n = nat_be 12 (unat (x_nonce x t)) in n @ x_seal x (aesKey x secret) n plain)"

lemma encryptRaw_eq [simp]:
  "encryptRaw x secret plain s = (Inr (sealed x secret (tick s) plain), s\<lparr>tick := Suc (tick s)\<rparr>)"
  by (simp add: encryptRaw_def rand_nonce_def sealed_def Let_def)

lemma encrypt_eq [simp]:
  "encrypt x secret plain s =
     (Inr (base64_EncodeToString (sealed x secret (tick s) plain)), s\<lparr>tick := Suc (tick s)\<rparr>)"
  by (simp add: encrypt_def)

lemma decryptRaw_sealed [simp]: "aead_laws x \<Longrightarrow> decryptRaw x secret (sealed x secret t plain) = Inr plain"
  by (simp add: sealed_def decryptRaw_def Let_def aead_open)

lemma decrypt_sealed [simp]:
  "aead_laws x \<Longrightarrow> decrypt x secret (base64_EncodeToString (sealed x secret t plain)) = Inr plain"
  by (simp add: decrypt_def base64_roundtrip)

text \<open>
  Whatever opens under the client's key was sealed under it: nothing written to the database by
  someone without the key is ever returned.
\<close>

lemma decryptRaw_only:
  assumes "aead_laws x" "decryptRaw x secret data = Inr plain"
  shows "\<exists>n. length n = NonceSize \<and> data = n @ x_seal x (aesKey x secret) n plain"
proof -
  have len: "NonceSize \<le> length data"
    and "x_open x (aesKey x secret) (take NonceSize data) (drop NonceSize data) = Some plain"
    using assms(2) by (auto simp: decryptRaw_def guardR_def split: if_splits option.splits)
  then have "drop NonceSize data = x_seal x (aesKey x secret) (take NonceSize data) plain"
    by (intro aead_only [OF assms(1)])
  then have "data = take NonceSize data @ x_seal x (aesKey x secret) (take NonceSize data) plain"
    by (metis append_take_drop_id)
  with len show ?thesis by (intro exI [of _ "take NonceSize data"]) simp
qed

lemma decrypt_no_panic: "\<not> is_panic (decrypt x secret v)"
  by (simp add: decrypt_def decryptRaw_def guardR_def split: option.split)

end
