(* ===== verification/Store.thy ===== *)
theory Store
  imports Tables Keys StoreCrypto "HOL-Library.List_Lexorder"
    "HOL-Library.Product_Lexorder" "HOL-Library.Multiset"
begin

text \<open>
  The database, from \<open>store/\<close>: the tables \<open>store.New\<close> creates, and the operations of
  \<open>ChatStore\<close>, \<open>FileStore\<close>, \<open>KnownPeerStore\<close>, \<open>OutboxStore\<close> and \<open>ProfileStore\<close> on them.

  Identifiers and keys are stored as their texts.  A \<open>created_at\<close> column holds an RFC 3339 text in
  UTC; such texts have a fixed width and no fraction, so the column is represented by the seconds the
  text denotes, and the order of the texts is the order of the seconds.  An address column is
  represented by the address, which \<open>String\<close> and \<open>ParseIP\<close> carry over unchanged.  Each statement makes
  one observation of whether the database accepts it, and a result set one more when it ends.
\<close>

subsection \<open>Tables\<close>

record chatRow =
  ch_id :: gostring
  ch_value :: gostring
  ch_created_at :: int

record searchRow =
  sr_msg_id :: gostring
  sr_from_name :: gostring
  sr_to_name :: gostring
  sr_search_text :: gostring

record fileRow =
  fl_id :: gostring
  fl_data :: bytes
  fl_msg_id :: gostring
  fl_created_at :: int

text \<open>The two layouts of time text the program writes, and what \<open>time.Parse(time.RFC3339, _)\<close> reads.\<close>

datatype time_text = RFC3339 int | GoTime time

definition zero_time :: time where
  "zero_time = - 62135596800000000000"

definition Format_RFC3339 :: "time \<Rightarrow> int" where
  "Format_RFC3339 t = t div 1000000000"

definition of_RFC3339 :: "int \<Rightarrow> time" where
  "of_RFC3339 n = n * 1000000000"

primrec Parse_RFC3339 :: "time_text \<Rightarrow> time option" where
  "Parse_RFC3339 (RFC3339 n) = Some (of_RFC3339 n)"
| "Parse_RFC3339 (GoTime t) = None"

record peerRow =
  pr_pub_key :: gostring
  pr_peer_ip :: ip
  pr_name :: gostring
  pr_nickname :: gostring
  pr_status :: gostring
  pr_last_seen :: time_text
  pr_profile_pic :: gostring

record outboxRow =
  ob_id :: gostring
  ob_target_pub_key :: gostring
  ob_signal_type :: gostring
  ob_signal_from :: gostring
  ob_signal_id :: gostring
  ob_signal_content :: bytes
  ob_created_at :: int
  ob_retry_count :: int

text \<open>The profile table has the row with \<open>rowid\<close> 1 or none: its name and picture columns.\<close>

record store = world +
  chats :: "chatRow list"
  chat_search :: "searchRow list"
  files :: "fileRow list"
  known_peers :: "peerRow list"
  outbox :: "outboxRow list"
  profile :: "(gostring \<times> gostring) option"
  cache :: "gostring \<Rightarrow> gostring option"

definition empty_store :: store where
  "empty_store = \<lparr>tick = 0, chats = [], chat_search = [], files = [], known_peers = [], outbox = [],
     profile = None, cache = (\<lambda>_. None)\<rparr>"

subsection \<open>Statements\<close>

abbreviation db_error :: go_error where
  "db_error \<equiv> Errorf ''database error''"

definition db_exec ::
  "ext \<Rightarrow> string \<Rightarrow> ('z store_scheme \<Rightarrow> 'z store_scheme) \<Rightarrow> 'z store_scheme \<Rightarrow>
    unit result \<times> 'z store_scheme" where
  "db_exec x msg f s =
     (let (ok, s) = db_ok x s
      in if ok then (Inr (), f s) else (Inl (Err (Wrap msg db_error)), s))"

definition db_query ::
  "ext \<Rightarrow> string \<Rightarrow> ('z store_scheme \<Rightarrow> 'a) \<Rightarrow> 'z store_scheme \<Rightarrow> 'a result \<times> 'z store_scheme" where
  "db_query x msg f s =
     (let (ok, s) = db_ok x s
      in (if ok then Inr (f s) else Inl (Err (Wrap msg db_error)), s))"

definition liftR :: "'a result \<Rightarrow> 's \<Rightarrow> 'a result \<times> 's" where
  "liftR r s = (r, s)"

text \<open>\<open>uuid.UUID.Scan\<close> of a text column: the empty text leaves the zero value.\<close>

definition uuid_Scan :: "ext \<Rightarrow> gostring \<Rightarrow> uuid result" where
  "uuid_Scan x t = (if t = [] then Inr uuid_Nil
     else case x_uuid_Parse x t of None \<Rightarrow> Fail ''invalid UUID'' | Some u \<Rightarrow> Inr u)"

subsection \<open>ChatStore\<close>

record ChatSummary =
  cs_ID :: uuid
  cs_CreatedAt :: time

definition cache_Delete :: "gostring \<Rightarrow> 'z store_scheme \<Rightarrow> 'z store_scheme" where
  "cache_Delete k s = s\<lparr>cache := (cache s)(k := None)\<rparr>"

definition chats_PutWithID ::
  "ext \<Rightarrow> uuid \<Rightarrow> gostring \<Rightarrow> key \<Rightarrow> 'z store_scheme \<Rightarrow> unit result \<times> 'z store_scheme" where
  "chats_PutWithID x i value secret s =
     bindS (wrapS ''store: encrypt'' (StoreCrypto.encrypt x secret value s)) (\<lambda>encrypted s.
       let (now, s) = Now x s in
       bindS (db_exec x ''store: put'' (chats_update (replace_row ch_id
           \<lparr>ch_id = x_uuid_String x i, ch_value = encrypted, ch_created_at = Format_RFC3339 now\<rparr>)) s)
         (\<lambda>_ s. (Inr (), cache_Delete (x_uuid_String x i) s)))"

definition CacheStore :: "ext \<Rightarrow> uuid \<Rightarrow> gostring \<Rightarrow> 'z store_scheme \<Rightarrow> 'z store_scheme" where
  "CacheStore x i decrypted s = s\<lparr>cache := (cache s)(x_uuid_String x i := Some decrypted)\<rparr>"

text \<open>An entry may have expired since it was set; an expired entry does not come back.\<close>

definition CacheLoad :: "ext \<Rightarrow> uuid \<Rightarrow> 'z store_scheme \<Rightarrow> gostring option \<times> 'z store_scheme" where
  "CacheLoad x i s =
     (let live = x_cached x (tick s); s = s\<lparr>tick := Suc (tick s)\<rparr>
      in if live then (cache s (x_uuid_String x i), s)
         else (None, cache_Delete (x_uuid_String x i) s))"

definition chats_Get ::
  "ext \<Rightarrow> uuid \<Rightarrow> key \<Rightarrow> 'z store_scheme \<Rightarrow> gostring result \<times> 'z store_scheme" where
  "chats_Get x i secret s =
     bindS (db_query x ''store: get'' (\<lambda>s. lookup_row ch_id (chats s) (x_uuid_String x i)) s)
       (\<lambda>row s. case row of
          None \<Rightarrow> (Inl (Err ErrNotExist), s)
        | Some r \<Rightarrow> wrapS ''store: decrypt'' (liftR (StoreCrypto.decrypt x secret (ch_value r)) s))"

definition chats_Update ::
  "ext \<Rightarrow> uuid \<Rightarrow> gostring \<Rightarrow> key \<Rightarrow> 'z store_scheme \<Rightarrow> unit result \<times> 'z store_scheme" where
  "chats_Update x i value secret s =
     bindS (db_query x ''store: update check''
         (\<lambda>s. lookup_row ch_id (chats s) (x_uuid_String x i) \<noteq> None) s)
       (\<lambda>exists s. if \<not> exists then (Inl (Err ErrNotExist), s)
          else chats_PutWithID x i value secret s)"

definition scan_summary :: "ext \<Rightarrow> chatRow \<Rightarrow> ChatSummary result" where
  "scan_summary x r =
     (case x_uuid_Parse x (ch_id r) of
        None \<Rightarrow> Inl (Err (Wrap ''store: parse id'' (Errorf ''invalid UUID'')))
      | Some i \<Rightarrow> Inr \<lparr>cs_ID = i, cs_CreatedAt = of_RFC3339 (ch_created_at r)\<rparr>)"

definition chats_List :: "ext \<Rightarrow> 'z store_scheme \<Rightarrow> ChatSummary list result \<times> 'z store_scheme" where
  "chats_List x s =
     bindS (db_query x ''store: list''
         (\<lambda>s. sort_key (\<lambda>r. (ch_created_at r, ch_id r)) (chats s)) s)
       (\<lambda>rows s. bindS (liftR (mapR (scan_summary x) rows) s)
          (\<lambda>out s. db_query x ''store: list rows'' (\<lambda>_. out) s))"

definition IndexSearch ::
  "ext \<Rightarrow> uuid \<Rightarrow> gostring \<Rightarrow> gostring \<Rightarrow> gostring \<Rightarrow> 'z store_scheme \<Rightarrow>
    unit result \<times> 'z store_scheme" where
  "IndexSearch x i fromName toName text s =
     db_exec x ''store: index search'' (chat_search_update (replace_row sr_msg_id
       \<lparr>sr_msg_id = x_uuid_String x i, sr_from_name = fromName, sr_to_name = toName,
        sr_search_text = text\<rparr>)) s"

definition deleteSearchIndex ::
  "ext \<Rightarrow> uuid \<Rightarrow> 'z store_scheme \<Rightarrow> unit result \<times> 'z store_scheme" where
  "deleteSearchIndex x i s =
     db_exec x ''store: delete search index''
       (chat_search_update (delete_row sr_msg_id (x_uuid_String x i))) s"

definition search_hit :: "ext \<Rightarrow> gostring \<Rightarrow> searchRow \<Rightarrow> bool" where
  "search_hit x query r =
     (let pat = str ''%'' @ query @ str ''%''
      in x_like x pat (sr_from_name r) \<or> x_like x pat (sr_to_name r) \<or> x_like x pat (sr_search_text r))"

definition chats_Search ::
  "ext \<Rightarrow> gostring \<Rightarrow> int \<Rightarrow> 'z store_scheme \<Rightarrow> gostring list result \<times> 'z store_scheme" where
  "chats_Search x query limit s =
     bindS (db_query x ''store: search'' (\<lambda>s.
         let ids = sort (map sr_msg_id (filter (search_hit x query) (chat_search s)))
         in if limit > 0 then take (nat limit) ids else ids) s)
       (\<lambda>ids s. db_query x ''store: search rows'' (\<lambda>_. ids) s)"

definition chats_Delete :: "ext \<Rightarrow> uuid \<Rightarrow> 'z store_scheme \<Rightarrow> unit result \<times> 'z store_scheme" where
  "chats_Delete x i s =
     bindS (db_exec x ''store: delete'' (chats_update (delete_row ch_id (x_uuid_String x i))) s)
       (\<lambda>_ s. bindS (ignoreS (deleteSearchIndex x i s))
          (\<lambda>_ s. (Inr (), cache_Delete (x_uuid_String x i) s)))"

subsection \<open>FileStore\<close>

definition files_PutWithID ::
  "ext \<Rightarrow> key \<Rightarrow> uuid \<Rightarrow> gostring \<Rightarrow> bytes \<Rightarrow> 'z store_scheme \<Rightarrow> unit result \<times> 'z store_scheme" where
  "files_PutWithID x secret i msgID data s =
     bindS (wrapS ''store: encrypt file'' (encryptRaw x secret data s)) (\<lambda>encrypted s.
       let (now, s) = Now x s in
       db_exec x ''store: file put'' (files_update (replace_row fl_id
         \<lparr>fl_id = x_uuid_String x i, fl_data = encrypted, fl_msg_id = msgID,
          fl_created_at = Format_RFC3339 now\<rparr>)) s)"

definition files_Get ::
  "ext \<Rightarrow> key \<Rightarrow> uuid \<Rightarrow> 'z store_scheme \<Rightarrow> bytes result \<times> 'z store_scheme" where
  "files_Get x secret i s =
     bindS (db_query x ''store: file get'' (\<lambda>s. lookup_row fl_id (files s) (x_uuid_String x i)) s)
       (\<lambda>row s. case row of
          None \<Rightarrow> (Inl (Err ErrNotExist), s)
        | Some r \<Rightarrow> wrapS ''store: file decrypt'' (liftR (decryptRaw x secret (fl_data r)) s))"

definition files_Delete :: "ext \<Rightarrow> uuid \<Rightarrow> 'z store_scheme \<Rightarrow> unit result \<times> 'z store_scheme" where
  "files_Delete x i s =
     db_exec x ''store: file delete'' (files_update (delete_row fl_id (x_uuid_String x i))) s"

subsection \<open>KnownPeerStore\<close>

type_synonym PeerStatus = gostring

definition Pending :: PeerStatus where
  "Pending = str ''pending''"

definition Accepted :: PeerStatus where
  "Accepted = str ''accepted''"

definition Rejected :: PeerStatus where
  "Rejected = str ''rejected''"

record KnownPeer =
  kp_PeerIP :: ip
  kp_PubKey :: key
  kp_Name :: gostring
  kp_Nickname :: gostring
  kp_Status :: PeerStatus
  kp_Online :: bool
  kp_LastSeen :: time
  kp_ProfilePic :: uuid

definition peer_row :: "ext \<Rightarrow> KnownPeer \<Rightarrow> peerRow" where
  "peer_row x p =
     \<lparr>pr_pub_key = Key_String (kp_PubKey p), pr_peer_ip = kp_PeerIP p, pr_name = kp_Name p,
      pr_nickname = kp_Nickname p, pr_status = kp_Status p, pr_last_seen = GoTime (kp_LastSeen p),
      pr_profile_pic = x_uuid_String x (kp_ProfilePic p)\<rparr>"

definition scan_peer :: "ext \<Rightarrow> peerRow \<Rightarrow> KnownPeer result" where
  "scan_peer x r =
     bindR (Key_Scan (SText (pr_pub_key r))) (\<lambda>k. bindR (uuid_Scan x (pr_profile_pic r)) (\<lambda>pic.
       Inr \<lparr>kp_PeerIP = pr_peer_ip r, kp_PubKey = k, kp_Name = pr_name r,
            kp_Nickname = pr_nickname r, kp_Status = pr_status r, kp_Online = False,
            kp_LastSeen = (case Parse_RFC3339 (pr_last_seen r) of None \<Rightarrow> zero_time | Some t \<Rightarrow> t),
            kp_ProfilePic = pic\<rparr>))"

definition peers_Add :: "ext \<Rightarrow> KnownPeer \<Rightarrow> 'z store_scheme \<Rightarrow> unit result \<times> 'z store_scheme" where
  "peers_Add x peer s =
     db_exec x ''store: add known peer''
       (known_peers_update (replace_row pr_pub_key (peer_row x peer))) s"

definition peers_Get :: "ext \<Rightarrow> key \<Rightarrow> 'z store_scheme \<Rightarrow> KnownPeer result \<times> 'z store_scheme" where
  "peers_Get x pubKey s =
     bindS (db_query x ''store: get known peer''
         (\<lambda>s. lookup_row pr_pub_key (known_peers s) (Key_String pubKey)) s)
       (\<lambda>row s. case row of
          None \<Rightarrow> (Inl (Err ErrNotExist), s)
        | Some r \<Rightarrow> wrapS ''store: get known peer'' (liftR (scan_peer x r) s))"

text \<open>No \<open>ORDER BY\<close>: the peers come in any order.\<close>

definition peers_List :: "ext \<Rightarrow> 'z store_scheme \<Rightarrow> KnownPeer list result \<times> 'z store_scheme" where
  "peers_List x s =
     bindS (db_query x ''store: list known peers''
         (\<lambda>s. sort_key (\<lambda>r. x_tie x (tick s) (pr_pub_key r)) (known_peers s)) s)
       (\<lambda>rows s. bindS (wrapS ''store: scan peer'' (liftR (mapR (scan_peer x) rows) s))
          (\<lambda>peers s. db_query x ''store: rows iteration'' (\<lambda>_. peers) s))"

subsection \<open>OutboxStore\<close>

record OutboxSignal =
  ob_ID :: uuid
  ob_TargetPubKey :: key
  ob_SignalType :: gostring
  ob_SignalFrom :: key
  ob_SignalID :: uuid
  ob_SignalContent :: bytes
  ob_CreatedAt :: time
  ob_RetryCount :: int

text \<open>A plain \<open>INSERT\<close>: a primary key that is present makes the statement fail.\<close>

definition outbox_Put ::
  "ext \<Rightarrow> key \<Rightarrow> bytes \<Rightarrow> key \<Rightarrow> 'z store_scheme \<Rightarrow> uuid result \<times> 'z store_scheme" where
  "outbox_Put x targetPubKey raw secret s =
     bindS (wrapS ''store: encrypt outbox'' (encryptRaw x secret raw s)) (\<lambda>enc s.
       let (typ, from, sid) = x_json_signal x raw;
           (i, s) = uuid_New x s;
           (now, s) = Now x s;
           (ok, s) = db_ok x s
       in if ok \<and> lookup_row ob_id (outbox s) (x_uuid_String x i) = None
          then (Inr i, s\<lparr>outbox := outbox s @
            [\<lparr>ob_id = x_uuid_String x i, ob_target_pub_key = Key_String targetPubKey,
              ob_signal_type = typ, ob_signal_from = Key_String from,
              ob_signal_id = x_uuid_String x sid, ob_signal_content = enc,
              ob_created_at = Format_RFC3339 now, ob_retry_count = 0\<rparr>]\<rparr>)
          else (Inl (Err (Wrap ''store: outbox put'' db_error)), s))"

definition scan_outbox :: "ext \<Rightarrow> outboxRow \<Rightarrow> OutboxSignal result" where
  "scan_outbox x r =
     wrapR ''store: outbox scan''
       (bindR (uuid_Scan x (ob_id r)) (\<lambda>i.
        bindR (Key_Scan (SText (ob_target_pub_key r))) (\<lambda>target.
        bindR (Key_Scan (SText (ob_signal_from r))) (\<lambda>from.
        bindR (uuid_Scan x (ob_signal_id r)) (\<lambda>sid.
        Inr \<lparr>ob_ID = i, ob_TargetPubKey = target, ob_SignalType = ob_signal_type r,
             ob_SignalFrom = from, ob_SignalID = sid, ob_SignalContent = [],
             ob_CreatedAt = of_RFC3339 (ob_created_at r), ob_RetryCount = ob_retry_count r\<rparr>)))))"

definition scan_outbox_content :: "ext \<Rightarrow> key \<Rightarrow> outboxRow \<Rightarrow> OutboxSignal result" where
  "scan_outbox_content x secret r =
     bindR (scan_outbox x r) (\<lambda>e.
       bindR (wrapR ''store: outbox decrypt'' (decryptRaw x secret (ob_signal_content r))) (\<lambda>plain.
         Inr (e\<lparr>ob_SignalContent := plain\<rparr>)))"

text \<open>
  \<open>ORDER BY created_at\<close> does not say in which order rows of the same second come: that order is
  observed, and may be another one at the next query.
\<close>

definition by_created_at :: "ext \<Rightarrow> nat \<Rightarrow> outboxRow list \<Rightarrow> outboxRow list" where
  "by_created_at x t rs = sort_key (\<lambda>r. (ob_created_at r, x_tie x t (ob_id r))) rs"

definition outbox_for :: "ext \<Rightarrow> key \<Rightarrow> 'z store_scheme \<Rightarrow> outboxRow list" where
  "outbox_for x targetPubKey s =
     by_created_at x (tick s) (filter (\<lambda>r. ob_target_pub_key r = Key_String targetPubKey) (outbox s))"

definition outbox_Get ::
  "ext \<Rightarrow> key \<Rightarrow> key \<Rightarrow> 'z store_scheme \<Rightarrow> OutboxSignal list result \<times> 'z store_scheme" where
  "outbox_Get x targetPubKey secret s =
     bindS (db_query x ''store: outbox get'' (outbox_for x targetPubKey) s)
       (\<lambda>rows s. bindS (liftR (mapR (scan_outbox_content x secret) rows) s)
          (\<lambda>out s. db_query x ''store: outbox rows'' (\<lambda>_. out) s))"

definition outbox_List :: "ext \<Rightarrow> 'z store_scheme \<Rightarrow> OutboxSignal list result \<times> 'z store_scheme" where
  "outbox_List x s =
     bindS (db_query x ''store: outbox list'' (\<lambda>s. by_created_at x (tick s) (outbox s)) s)
       (\<lambda>rows s. bindS (liftR (mapR (scan_outbox x) rows) s)
          (\<lambda>out s. db_query x ''store: outbox rows'' (\<lambda>_. out) s))"

definition outbox_Delete :: "ext \<Rightarrow> uuid \<Rightarrow> 'z store_scheme \<Rightarrow> unit result \<times> 'z store_scheme" where
  "outbox_Delete x i s =
     db_exec x ''store: outbox delete'' (outbox_update (delete_row ob_id (x_uuid_String x i))) s"

definition IncrementRetry :: "ext \<Rightarrow> uuid \<Rightarrow> 'z store_scheme \<Rightarrow> unit result \<times> 'z store_scheme" where
  "IncrementRetry x i s =
     db_exec x ''store: outbox increment retry''
       (outbox_update (update_row ob_id (x_uuid_String x i)
          (\<lambda>r. r\<lparr>ob_retry_count := ob_retry_count r + 1\<rparr>))) s"

subsection \<open>ProfileStore\<close>

record Profile =
  pf_Name :: gostring
  pf_ProfilePic :: uuid

definition profile_Get :: "ext \<Rightarrow> 'z store_scheme \<Rightarrow> Profile result \<times> 'z store_scheme" where
  "profile_Get x s =
     bindS (db_query x ''store: get profile'' profile s)
       (\<lambda>row s. case row of
          None \<Rightarrow> (Inr \<lparr>pf_Name = [], pf_ProfilePic = uuid_Nil\<rparr>, s)
        | Some (name, pic) \<Rightarrow>
            wrapS ''store: get profile'' (liftR (bindR (uuid_Scan x pic) (\<lambda>u.
              Inr \<lparr>pf_Name = name, pf_ProfilePic = u\<rparr>)) s))"

definition profile_Update ::
  "ext \<Rightarrow> gostring \<Rightarrow> uuid \<Rightarrow> 'z store_scheme \<Rightarrow> unit result \<times> 'z store_scheme" where
  "profile_Update x name fileID s =
     bindS (ignoreS (db_exec x '''' (profile_update (\<lambda>row.
         case row of None \<Rightarrow> Some ([], []) | Some r \<Rightarrow> Some r)) s))
       (\<lambda>_ s. let idStr = (if fileID \<noteq> uuid_Nil then x_uuid_String x fileID else [])
          in db_exec x ''store: set profile'' (profile_update (map_option (\<lambda>_. (name, idStr)))) s)"

subsection \<open>Statements and tables\<close>

lemma db_exec_eq:
  "db_exec x m f s =
     (if x_db x (tick s) then (Inr (), f (s\<lparr>tick := Suc (tick s)\<rparr>))
      else (Inl (Err (Wrap m db_error)), s\<lparr>tick := Suc (tick s)\<rparr>))"
  by (simp add: db_exec_def db_ok_def)

lemma db_query_eq:
  "db_query x m f s =
     (if x_db x (tick s) then Inr (f (s\<lparr>tick := Suc (tick s)\<rparr>)) else Inl (Err (Wrap m db_error)),
      s\<lparr>tick := Suc (tick s)\<rparr>)"
  by (simp add: db_query_def db_ok_def)

interpretation chats: table_laws ch_id "lookup_row ch_id" "replace_row ch_id" "delete_row ch_id"
  "primary_key ch_id"
  by (rule rows_table)

interpretation search: table_laws sr_msg_id "lookup_row sr_msg_id" "replace_row sr_msg_id"
  "delete_row sr_msg_id" "primary_key sr_msg_id"
  by (rule rows_table)

interpretation files: table_laws fl_id "lookup_row fl_id" "replace_row fl_id" "delete_row fl_id"
  "primary_key fl_id"
  by (rule rows_table)

interpretation peers: table_laws pr_pub_key "lookup_row pr_pub_key" "replace_row pr_pub_key"
  "delete_row pr_pub_key" "primary_key pr_pub_key"
  by (rule rows_table)

lemmas table_look = chats.look_put chats.look_del search.look_put search.look_del
  files.look_put files.look_del peers.look_put peers.look_del

lemma uuid_String_inject [simp]: "uuid_laws x \<Longrightarrow> x_uuid_String x u = x_uuid_String x v \<longleftrightarrow> u = v"
  by (metis option.inject uuid_laws_def)

text \<open>Each statement as one equation: the row it writes, and what stays as it was.\<close>

definition chat_row :: "ext \<Rightarrow> uuid \<Rightarrow> gostring \<Rightarrow> key \<Rightarrow> nat \<Rightarrow> chatRow" where
  "chat_row x i value secret t =
     \<lparr>ch_id = x_uuid_String x i, ch_value = base64_EncodeToString (sealed x secret t value),
      ch_created_at = Format_RFC3339 (x_now x (Suc t))\<rparr>"

definition file_row :: "ext \<Rightarrow> uuid \<Rightarrow> gostring \<Rightarrow> bytes \<Rightarrow> key \<Rightarrow> nat \<Rightarrow> fileRow" where
  "file_row x i msgID data secret t =
     \<lparr>fl_id = x_uuid_String x i, fl_data = sealed x secret t data, fl_msg_id = msgID,
      fl_created_at = Format_RFC3339 (x_now x (Suc t))\<rparr>"

definition outbox_row :: "ext \<Rightarrow> key \<Rightarrow> bytes \<Rightarrow> key \<Rightarrow> nat \<Rightarrow> outboxRow" where
  "outbox_row x target raw secret t =
     (case x_json_signal x raw of (typ, from, sid) \<Rightarrow>
       \<lparr>ob_id = x_uuid_String x (x_uuid_New x (Suc t)), ob_target_pub_key = Key_String target,
        ob_signal_type = typ, ob_signal_from = Key_String from, ob_signal_id = x_uuid_String x sid,
        ob_signal_content = sealed x secret t raw,
        ob_created_at = Format_RFC3339 (x_now x (Suc (Suc t))), ob_retry_count = 0\<rparr>)"

lemma row_keys [simp]:
  "ch_id (chat_row x i v secret t) = x_uuid_String x i"
  "fl_id (file_row x i m d secret t) = x_uuid_String x i"
  "pr_pub_key (peer_row x p) = Key_String (kp_PubKey p)"
  "ob_target_pub_key (outbox_row x target raw secret t) = Key_String target"
  "ob_id (outbox_row x target raw secret t) = x_uuid_String x (x_uuid_New x (Suc t))"
  "ob_created_at (outbox_row x target raw secret t) = Format_RFC3339 (x_now x (Suc (Suc t)))"
  by (simp_all add: chat_row_def file_row_def peer_row_def outbox_row_def split: prod.split)

lemma chats_PutWithID_eq:
  "chats_PutWithID x i v secret s =
     (let s' = s\<lparr>tick := tick s + 3\<rparr> in
      if x_db x (tick s + 2)
      then (Inr (), s'\<lparr>chats := replace_row ch_id (chat_row x i v secret (tick s)) (chats s),
                       cache := (cache s)(x_uuid_String x i := None)\<rparr>)
      else (Inl (Err (Wrap ''store: put'' db_error)), s'))"
  by (simp add: chats_PutWithID_def Now_def db_exec_eq cache_Delete_def chat_row_def numeral_eq_Suc)

lemma files_PutWithID_eq:
  "files_PutWithID x secret i m d s =
     (let s' = s\<lparr>tick := tick s + 3\<rparr> in
      if x_db x (tick s + 2)
      then (Inr (), s'\<lparr>files := replace_row fl_id (file_row x i m d secret (tick s)) (files s)\<rparr>)
      else (Inl (Err (Wrap ''store: file put'' db_error)), s'))"
  by (simp add: files_PutWithID_def Now_def db_exec_eq file_row_def numeral_eq_Suc)

lemma outbox_Put_eq:
  "outbox_Put x target raw secret s =
     (let s' = s\<lparr>tick := tick s + 4\<rparr>; i = x_uuid_New x (Suc (tick s)) in
      if x_db x (tick s + 3) \<and> lookup_row ob_id (outbox s) (x_uuid_String x i) = None
      then (Inr i, s'\<lparr>outbox := outbox s @ [outbox_row x target raw secret (tick s)]\<rparr>)
      else (Inl (Err (Wrap ''store: outbox put'' db_error)), s'))"
  by (cases "x_json_signal x raw")
    (simp add: outbox_Put_def Now_def db_ok_def uuid_New_def outbox_row_def numeral_eq_Suc Let_def)

lemma chats_Delete_eq:
  "chats_Delete x i s =
     (if x_db x (tick s)
      then (Inr (), s\<lparr>tick := tick s + 2, chats := delete_row ch_id (x_uuid_String x i) (chats s),
             chat_search := (if x_db x (Suc (tick s))
               then delete_row sr_msg_id (x_uuid_String x i) (chat_search s) else chat_search s),
             cache := (cache s)(x_uuid_String x i := None)\<rparr>)
      else (Inl (Err (Wrap ''store: delete'' db_error)), s\<lparr>tick := Suc (tick s)\<rparr>))"
  by (simp add: chats_Delete_def db_exec_eq deleteSearchIndex_def cache_Delete_def numeral_eq_Suc)

lemmas store_eqs = chats_PutWithID_eq files_PutWithID_eq outbox_Put_eq chats_Delete_eq
  IndexSearch_def deleteSearchIndex_def files_Delete_def peers_Add_def outbox_Delete_def
  IncrementRetry_def db_exec_eq Let_def

lemma uuid_Scan_String [simp]: "uuid_laws x \<Longrightarrow> uuid_Scan x (x_uuid_String x u) = Inr u"
  by (simp add: uuid_Scan_def uuid_laws_def)

lemma Key_Scan_String [simp]: "Key_Scan (SText (Key_String k)) = Inr k"
  by (simp add: FromHex_String)

lemma scan_peer_row:
  "uuid_laws x \<Longrightarrow>
    scan_peer x (peer_row x p) = Inr (p\<lparr>kp_Online := False, kp_LastSeen := zero_time\<rparr>)"
  by (simp add: scan_peer_def peer_row_def FromHex_String)

text \<open>Reading a peer or a file, as equations.\<close>

lemma peers_Get_eq:
  "peers_Get x k s =
     (if x_db x (tick s)
      then case lookup_row pr_pub_key (known_peers s) (Key_String k) of
             None \<Rightarrow> Inl (Err ErrNotExist)
           | Some r \<Rightarrow> wrapR ''store: get known peer'' (scan_peer x r)
      else Inl (Err (Wrap ''store: get known peer'' db_error)), s\<lparr>tick := Suc (tick s)\<rparr>)"
  by (simp add: peers_Get_def db_query_eq liftR_def split: option.split)

lemma chats_Get_eq:
  "chats_Get x i secret s =
     (if x_db x (tick s)
      then case lookup_row ch_id (chats s) (x_uuid_String x i) of
             None \<Rightarrow> Inl (Err ErrNotExist)
           | Some r \<Rightarrow> wrapR ''store: decrypt'' (decrypt x secret (ch_value r))
      else Inl (Err (Wrap ''store: get'' db_error)), s\<lparr>tick := Suc (tick s)\<rparr>)"
  by (simp add: chats_Get_def db_query_eq liftR_def split: option.split)

lemma files_Get_eq:
  "files_Get x secret i s =
     (if x_db x (tick s)
      then case lookup_row fl_id (files s) (x_uuid_String x i) of
             None \<Rightarrow> Inl (Err ErrNotExist)
           | Some r \<Rightarrow> wrapR ''store: file decrypt'' (decryptRaw x secret (fl_data r))
      else Inl (Err (Wrap ''store: file get'' db_error)), s\<lparr>tick := Suc (tick s)\<rparr>)"
  by (simp add: files_Get_def db_query_eq liftR_def split: option.split)

subsection \<open>Primary keys\<close>

definition store_inv :: "'z store_scheme \<Rightarrow> bool" where
  "store_inv s \<longleftrightarrow> primary_key ch_id (chats s) \<and> primary_key sr_msg_id (chat_search s) \<and>
     primary_key fl_id (files s) \<and> primary_key pr_pub_key (known_peers s) \<and>
     primary_key ob_id (outbox s)"

lemma primary_key_update:
  "(\<And>r. key (f r) = key r) \<Longrightarrow> primary_key key (update_row key k f rows) = primary_key key rows"
  by (simp add: primary_key_def update_row_keys)

lemma primary_key_append:
  "primary_key key rows \<Longrightarrow> lookup_row key rows (key r) = None \<Longrightarrow> primary_key key (rows @ [r])"
  by (auto simp: primary_key_def lookup_row_def find_None_iff)

lemmas primary_keys = primary_key_replace primary_key_delete primary_key_append primary_key_update

text \<open>
  Every write of the five stores keeps each table's primary key, whether the statement succeeds
  or fails.
\<close>

theorem store_keys_invariant:
  "store_inv s \<Longrightarrow>
     store_inv (snd (chats_PutWithID x i v secret s)) \<and>
     store_inv (snd (chats_Update x i v secret s)) \<and>
     store_inv (snd (chats_Delete x i s)) \<and>
     store_inv (snd (IndexSearch x i fromName toName txt s)) \<and>
     store_inv (snd (files_PutWithID x secret i m d s)) \<and>
     store_inv (snd (files_Delete x i s)) \<and>
     store_inv (snd (peers_Add x peer s)) \<and>
     store_inv (snd (outbox_Put x target raw secret s)) \<and>
     store_inv (snd (outbox_Delete x i s)) \<and>
     store_inv (snd (IncrementRetry x i s))"
  by (simp add: store_inv_def store_eqs chats_Update_def db_query_eq primary_keys)

theorem store_keys_invariant_witness:
  "store_inv (snd (chats_PutWithID demo_ext 1 [65] 2 empty_store))"
  using store_keys_invariant [of empty_store demo_ext 1 "[65]" 2]
  by (simp add: store_inv_def primary_key_def empty_store_def)

subsection \<open>Round trips through the database\<close>

text \<open>
  What a successful write stored is what a read returns: a chat value or a file comes back
  exactly, decrypted, and the rows of every other identifier are untouched.
\<close>

theorem stored_values_roundtrip:
  assumes "aead_laws x" "uuid_laws x"
    and "chats_PutWithID x i v secret s = (Inr (), s1)" "x_db x (tick s1)"
    and "files_PutWithID x secret j m d s = (Inr (), s2)" "x_db x (tick s2)"
  shows "fst (chats_Get x i secret s1) = Inr v \<and> fst (files_Get x secret j s2) = Inr d \<and>
    (\<forall>k. (k \<noteq> i \<longrightarrow> lookup_row ch_id (chats s1) (x_uuid_String x k) =
                     lookup_row ch_id (chats s) (x_uuid_String x k)) \<and>
         (k \<noteq> j \<longrightarrow> lookup_row fl_id (files s2) (x_uuid_String x k) =
                     lookup_row fl_id (files s) (x_uuid_String x k)))"
proof -
  have s1: "chats s1 = replace_row ch_id (chat_row x i v secret (tick s)) (chats s)"
    using assms(3) by (auto simp: chats_PutWithID_eq Let_def split: if_splits)
  have s2: "files s2 = replace_row fl_id (file_row x j m d secret (tick s)) (files s)"
    using assms(5) by (auto simp: files_PutWithID_eq Let_def split: if_splits)
  show ?thesis
    using assms(1,2,4,6)
    by (simp add: chats_Get_eq files_Get_eq s1 s2 table_look)
      (simp add: chat_row_def file_row_def)
qed

theorem stored_values_roundtrip_witness:
  "fst (chats_Get demo_ext 1 7 (snd (chats_PutWithID demo_ext 1 [65] 7 empty_store))) = Inr [65] \<and>
   fst (files_Get demo_ext 7 2 (snd (files_PutWithID demo_ext 7 2 [] [1, 2] empty_store))) = Inr [1, 2]"
  using stored_values_roundtrip [of demo_ext 1 "[65]" 7 empty_store
      "snd (chats_PutWithID demo_ext 1 [65] 7 empty_store)" 2 "[]" "[1, 2]"
      "snd (files_PutWithID demo_ext 7 2 [] [1, 2] empty_store)"] demo_ext_laws
  by (simp add: chats_PutWithID_eq files_PutWithID_eq Let_def demo_ext_def)

text \<open>
  A known peer comes back from the database with every field it was saved with except the time
  it was last seen: \<open>Add\<close> writes \<open>LastSeen.String()\<close>, \<open>Get\<close> parses RFC 3339, and the parse always
  fails, so every peer reads back as never seen.
\<close>

theorem known_peer_roundtrip:
  assumes "uuid_laws x" "peers_Add x p s = (Inr (), s')" "x_db x (tick s')"
  shows "fst (peers_Get x (kp_PubKey p) s') = Inr (p\<lparr>kp_Online := False, kp_LastSeen := zero_time\<rparr>)"
proof -
  have "known_peers s' = replace_row pr_pub_key (peer_row x p) (known_peers s)"
    using assms(2) by (auto simp: peers_Add_def db_exec_eq split: if_splits)
  with assms(1,3) show ?thesis
    by (simp add: peers_Get_eq table_look scan_peer_row)
qed

definition sample_peer :: KnownPeer where
  "sample_peer = \<lparr>kp_PeerIP = IPv4 1, kp_PubKey = 5, kp_Name = str ''bob'', kp_Nickname = [],
     kp_Status = Pending, kp_Online = False, kp_LastSeen = 1700000000000000000, kp_ProfilePic = 0\<rparr>"

theorem known_peer_roundtrip_witness:
  "kp_LastSeen sample_peer \<noteq> zero_time \<and>
   fst (peers_Get demo_ext 5 (snd (peers_Add demo_ext sample_peer empty_store))) =
     Inr (sample_peer\<lparr>kp_LastSeen := zero_time\<rparr>)"
  using known_peer_roundtrip [of demo_ext sample_peer empty_store
      "snd (peers_Add demo_ext sample_peer empty_store)"] demo_ext_laws
  by (simp add: peers_Add_def db_exec_eq demo_ext_def) (simp add: sample_peer_def zero_time_def)

text \<open>
  The profile a successful update wrote is the profile a read returns, the picture being absent
  exactly when it was set to the nil identifier.
\<close>

theorem profile_roundtrip:
  assumes "uuid_laws x" "profile_Update x name pic s = (Inr (), s')"
    and "profile s \<noteq> None \<or> x_db x (tick s)" "x_db x (tick s')"
  shows "fst (profile_Get x s') = Inr \<lparr>pf_Name = name, pf_ProfilePic = pic\<rparr>"
  using assms
  by (cases "profile s")
    (auto simp: profile_Update_def profile_Get_def db_exec_eq db_query_eq liftR_def Let_def
      uuid_Scan_def uuid_laws_def split: if_splits)

theorem profile_roundtrip_witness:
  "fst (profile_Get demo_ext (snd (profile_Update demo_ext [65] 3 empty_store))) =
     Inr \<lparr>pf_Name = [65], pf_ProfilePic = 3\<rparr>"
  using profile_roundtrip [of demo_ext "[65]" 3 empty_store
      "snd (profile_Update demo_ext [65] 3 empty_store)"] demo_ext_laws
  by (simp add: profile_Update_def db_exec_eq demo_ext_def Let_def)

subsection \<open>Listing\<close>

text \<open>
  \<open>List\<close> returns every stored message once, oldest first: the summaries are those of the stored
  rows, sorted by their creation time.
\<close>

theorem chats_List_sorted:
  assumes "uuid_laws x" "\<forall>r \<in> set (chats s). \<exists>u. ch_id r = x_uuid_String x u"
    and "x_db x (tick s)" "x_db x (Suc (tick s))"
  shows "\<exists>out. fst (chats_List x s) = Inr out \<and> sorted (map cs_CreatedAt out) \<and>
    mset (map (\<lambda>c. (x_uuid_String x (cs_ID c), cs_CreatedAt c)) out) =
    mset (map (\<lambda>r. (ch_id r, of_RFC3339 (ch_created_at r))) (chats s))"
proof -
  let ?g = "\<lambda>r. \<lparr>cs_ID = the (x_uuid_Parse x (ch_id r)), cs_CreatedAt = of_RFC3339 (ch_created_at r)\<rparr>"
  let ?k = "\<lambda>r. (ch_created_at r, ch_id r)"
  let ?rows = "sort_key ?k (chats s)"
  have parse: "x_uuid_String x (the (x_uuid_Parse x (ch_id r))) = ch_id r \<and>
      scan_summary x r = Inr (?g r)" if "r \<in> set (chats s)" for r
    using that assms(1,2) by (auto simp: scan_summary_def uuid_laws_def)
  then have "mapR (scan_summary x) ?rows = Inr (map ?g ?rows)"
    by (intro mapR_Inr) simp
  then have "fst (chats_List x s) = Inr (map ?g ?rows)"
    using assms(3,4) by (simp add: chats_List_def db_query_eq liftR_def)
  moreover have "sorted_wrt (\<lambda>a b. ?k a \<le> ?k b) ?rows"
    using sorted_sort_key [of ?k "chats s"] by (simp only: sorted_map)
  then have "sorted_wrt (\<lambda>a b. ch_created_at a \<le> ch_created_at b) ?rows"
    by (rule sorted_wrt_mono_rel [rotated]) (auto simp: less_eq_prod_def)
  then have "sorted (map cs_CreatedAt (map ?g ?rows))"
    by (simp add: sorted_map sorted_wrt_map of_RFC3339_def)
  moreover have "map (\<lambda>c. (x_uuid_String x (cs_ID c), cs_CreatedAt c)) (map ?g ?rows) =
      map (\<lambda>r. (ch_id r, of_RFC3339 (ch_created_at r))) ?rows"
    using parse by simp
  then have "mset (map (\<lambda>c. (x_uuid_String x (cs_ID c), cs_CreatedAt c)) (map ?g ?rows)) =
      mset (map (\<lambda>r. (ch_id r, of_RFC3339 (ch_created_at r))) (chats s))"
    by (simp only:) simp
  ultimately show ?thesis by blast
qed

definition sample_chats :: store where
  "sample_chats = snd (chats_PutWithID demo_ext 2 [66] 7 (snd (chats_PutWithID demo_ext 9 [65] 7 empty_store)))"

theorem chats_List_sorted_witness:
  "\<exists>out. fst (chats_List demo_ext sample_chats) = Inr out \<and> length out = 2 \<and>
     sorted (map cs_CreatedAt out)"
proof -
  have rows: "chats sample_chats =
      [chat_row demo_ext 9 [65] 7 0, chat_row demo_ext 2 [66] 7 3]"
    using uuid_String_inject [OF demo_ext_laws(4), of 9 2]
    by (simp add: sample_chats_def chats_PutWithID_eq Let_def demo_ext_def empty_store_def
        replace_row_def delete_row_def)
  then have "\<forall>r \<in> set (chats sample_chats). \<exists>u. ch_id r = x_uuid_String demo_ext u"
    by auto
  from chats_List_sorted [OF demo_ext_laws(4) this] rows show ?thesis
    by (fastforce simp: demo_ext_def dest: arg_cong [where f = size])
qed

end
