(* ===== verification/Session.thy ===== *)
theory Session
  imports ClientCodec RateLimit Signal Store
begin

text \<open>
  The encrypted session of two peers, from \<open>client/session.go\<close>: the signed key exchange, the two
  directed cipher states with their counters, and the operations on the connection.  A connection
  is whether it is open and the frames written to it; what a write or a read yields is an observation.
  A function of the session returns the changed session beside its result.  The locks of the source
  make each of the steps below atomic; \<open>SessionRaces\<close> takes them apart.
\<close>

subsection \<open>Data\<close>

record cipherState =
  cph_key :: "bytes option"
  cph_nonce :: "64 word"

record peerInfo =
  pi_name :: gostring
  pi_ephemeralKey :: key
  pi_staticPubKey :: key

record conn =
  conn_open :: bool
  conn_sent :: "bytes list"

record session =
  ss_conn :: "conn option"
  ss_ourName :: gostring
  ss_ourStatic :: key
  ss_ourKeys :: Keys
  ss_sendr :: cipherState
  ss_recv :: cipherState
  ss_peer :: peerInfo
  ss_timeout :: int
  ss_stat :: PeerStatus
  ss_msgLimiter :: msgLimiter

definition newSession ::
  "ext \<Rightarrow> conn \<Rightarrow> gostring \<Rightarrow> Keys \<Rightarrow> int \<Rightarrow> int \<Rightarrow> int \<Rightarrow> 'z world_scheme \<Rightarrow> session \<times> 'z world_scheme" where
  "newSession x c ourName ourKeys timeout rateLimit rateWindow w =
     (let (now, w) = Now x w in
      (\<lparr>ss_conn = Some c, ss_ourName = ourName, ss_ourStatic = K_Public ourKeys, ss_ourKeys = ourKeys,
        ss_sendr = \<lparr>cph_key = None, cph_nonce = 0\<rparr>, ss_recv = \<lparr>cph_key = None, cph_nonce = 0\<rparr>,
        ss_peer = \<lparr>pi_name = [], pi_ephemeralKey = NilKey, pi_staticPubKey = NilKey\<rparr>,
        ss_timeout = timeout, ss_stat = [], ss_msgLimiter = newMsgLimiter rateLimit rateWindow now\<rparr>, w))"

subsection \<open>The connection\<close>

text \<open>A write to a closed connection fails; a read from it yields nothing.\<close>

definition WriteMessage ::
  "ext \<Rightarrow> bytes \<Rightarrow> conn \<Rightarrow> 'z world_scheme \<Rightarrow> bool \<times> conn \<times> 'z world_scheme" where
  "WriteMessage x frame c w =
     (let ok = conn_open c \<and> x_write x (tick w)
      in (ok, if ok then c\<lparr>conn_sent := conn_sent c @ [frame]\<rparr> else c, w\<lparr>tick := Suc (tick w)\<rparr>))"

definition ReadMessage :: "ext \<Rightarrow> conn \<Rightarrow> 'z world_scheme \<Rightarrow> bytes option \<times> 'z world_scheme" where
  "ReadMessage x c w =
     (if conn_open c then x_read x (tick w) else None, w\<lparr>tick := Suc (tick w)\<rparr>)"

abbreviation nil_deref :: "'a result" where
  "nil_deref \<equiv> Inl (Panic ''runtime error: nil pointer dereference'')"

subsection \<open>Handshake\<close>

definition doSend ::
  "ext \<Rightarrow> session \<Rightarrow> key \<Rightarrow> bytes \<Rightarrow> 'z world_scheme \<Rightarrow> unit result \<times> session \<times> 'z world_scheme" where
  "doSend x s ourEphemeral sig w =
     (case bindR (encodeKeyExchange \<lparr>kx_PubKey = ourEphemeral, kx_StaticPubKey = ss_ourStatic s,
             kx_ClientName = ss_ourName s, kx_Signature = sig\<rparr>) (\<lambda>inner.
           wrapR ''session: signal'' (signal_New KeyExchange (ss_ourStatic s) uuid_Nil inner)) of
        Inl e \<Rightarrow> (Inl e, s, w)
      | Inr payload \<Rightarrow>
          (case ss_conn s of
             None \<Rightarrow> (nil_deref, s, w)
           | Some c \<Rightarrow>
               (let (ok, c, w) = WriteMessage x payload c w; s = s\<lparr>ss_conn := Some c\<rparr>
                in if ok then (Inr (), s, w)
                   else (Inl (Err (Wrap ''session: write'' (Errorf ''write''))), s, w))))"

text \<open>What \<open>doRecv\<close> makes of a frame.\<close>

definition key_exchange :: "bytes \<Rightarrow> keyExchangeData result" where
  "key_exchange raw =
     bindR (wrapR ''session: parse signal'' (signal_Parse raw)) (\<lambda>sig.
       guardR (sig_Type sig = KeyExchange) ''session: expected key_exchange''
        (bindR (wrapR ''session: decode key exchange'' (decodeKeyExchange (sig_Content sig))) (\<lambda>data.
         Inr (if sig_From sig \<noteq> NilKey then data\<lparr>kx_StaticPubKey := sig_From sig\<rparr> else data))))"

definition doRecv ::
  "ext \<Rightarrow> session \<Rightarrow> 'z world_scheme \<Rightarrow> keyExchangeData result \<times> 'z world_scheme" where
  "doRecv x s w =
     (case ss_conn s of
        None \<Rightarrow> (nil_deref, w)
      | Some c \<Rightarrow>
          (let (frame, w) = ReadMessage x c w in
           case frame of
             None \<Rightarrow> (Inl (Err (Wrap ''session: read peer key'' (Errorf ''read''))), w)
           | Some raw \<Rightarrow> (key_exchange raw, w)))"

definition verifyPeer :: "ext \<Rightarrow> session \<Rightarrow> keyExchangeData \<Rightarrow> unit result" where
  "verifyPeer x s peer =
     guardR (kx_StaticPubKey peer \<noteq> 0) ''session: peer sent no static public key''
     (guardR (kx_StaticPubKey peer \<noteq> ss_ourStatic s) ''session: cannot connect to self''
     (guardR (Verify x (kx_StaticPubKey peer) (key_bytes (kx_PubKey peer)) (kx_Signature peer))
        ''session: peer signature verification failed'' (Inr ())))"

definition sha256_bytes :: "ext \<Rightarrow> bytes \<Rightarrow> bytes" where
  "sha256_bytes x bs = nat_be 32 (unat (x_sha256 x bs))"

definition deriveKeys :: "ext \<Rightarrow> bytes \<Rightarrow> bool \<Rightarrow> keyExchangeData \<Rightarrow> session \<Rightarrow> session" where
  "deriveKeys x shared initiator peer s =
     (let sendKey = sha256_bytes x (str ''session:send'' @ shared);
          recvKey = sha256_bytes x (str ''session:recv'' @ shared);
          (sk, rk) = (if initiator then (sendKey, recvKey) else (recvKey, sendKey))
      in s\<lparr>ss_sendr := \<lparr>cph_key = Some sk, cph_nonce = 0\<rparr>,
           ss_recv := \<lparr>cph_key = Some rk, cph_nonce = 0\<rparr>,
           ss_peer := \<lparr>pi_name = kx_ClientName peer, pi_ephemeralKey = kx_PubKey peer,
                       pi_staticPubKey = kx_StaticPubKey peer\<rparr>\<rparr>)"

text \<open>
  Sending and receiving the two key exchange signals, in the order of the side; then the checks and
  the derivation.  \<open>curve.NewPublicKey\<close> accepts every 32 bytes; \<open>ECDH\<close> rejects a shared secret of
  zeroes.
\<close>

definition exchange ::
  "ext \<Rightarrow> bool \<Rightarrow> key \<Rightarrow> bytes \<Rightarrow> session \<Rightarrow> 'z world_scheme \<Rightarrow>
    keyExchangeData result \<times> session \<times> 'z world_scheme" where
  "exchange x initiator ourEphemeral sig s w =
     (if initiator
      then (case doSend x s ourEphemeral sig w of
              (Inl e, s, w) \<Rightarrow> (Inl e, s, w)
            | (Inr _, s, w) \<Rightarrow> (let (peer, w) = doRecv x s w in (peer, s, w)))
      else (case doRecv x s w of
              (Inl e, w) \<Rightarrow> (Inl e, s, w)
            | (Inr peer, w) \<Rightarrow>
                (case doSend x s ourEphemeral sig w of
                   (Inl e, s, w) \<Rightarrow> (Inl e, s, w)
                 | (Inr _, s, w) \<Rightarrow> (Inr peer, s, w))))"

definition handshake ::
  "ext \<Rightarrow> bool \<Rightarrow> session \<Rightarrow> 'z world_scheme \<Rightarrow> unit result \<times> session \<times> 'z world_scheme" where
  "handshake x initiator s w =
     (let ourKey = x_random x (tick w); w = w\<lparr>tick := Suc (tick w)\<rparr>;
          ourEphemeral = x_dh_public x ourKey;
          sig = Sign x (ss_ourKeys s) (key_bytes ourEphemeral)
      in case exchange x initiator ourEphemeral sig s w of
           (Inl e, s, w) \<Rightarrow> (Inl e, s, w)
         | (Inr peer, s, w) \<Rightarrow>
             (case verifyPeer x s peer of
                Inl e \<Rightarrow> (Inl e, s, w)
              | Inr _ \<Rightarrow>
                  (case x_dh_shared x ourKey (kx_PubKey peer) of
                     None \<Rightarrow> (Inl (Err (Wrap ''session: derive shared secret'' (Errorf ''ecdh''))), s, w)
                   | Some shared \<Rightarrow> (Inr (), deriveKeys x shared initiator peer s, w))))"

subsection \<open>Frames\<close>

definition aesGCM :: "bytes \<Rightarrow> unit result" where
  "aesGCM k = (if aes_key_ok k then Inr ()
     else Inl (Err (Wrap ''session: new cipher'' (Errorf ''crypto/aes: invalid key size''))))"

text \<open>\<open>nonce := make([]byte, NonceSize)\<close> with the counter in its first eight bytes.\<close>

definition nonce_bytes :: "64 word \<Rightarrow> bytes" where
  "nonce_bytes n = nat_be 8 (unat n) @ replicate 4 0"

definition session_encrypt :: "ext \<Rightarrow> session \<Rightarrow> bytes \<Rightarrow> bytes result \<times> session" where
  "session_encrypt x s plain =
     (case cph_key (ss_sendr s) of
        None \<Rightarrow> (Fail ''session: no key established'', s)
      | Some k \<Rightarrow>
          (let nonce = nonce_bytes (cph_nonce (ss_sendr s));
               s = s\<lparr>ss_sendr := (ss_sendr s)\<lparr>cph_nonce := cph_nonce (ss_sendr s) + 1\<rparr>\<rparr>
           in (bindR (aesGCM k) (\<lambda>_. Inr (nonce @ x_seal x k nonce plain)), s)))"

definition session_decrypt :: "ext \<Rightarrow> session \<Rightarrow> bytes \<Rightarrow> bytes result \<times> session" where
  "session_decrypt x s data =
     (if length data < NonceSize then (Fail ''session: data too short'', s)
      else case cph_key (ss_recv s) of
        None \<Rightarrow> (Fail ''session: no key established'', s)
      | Some k \<Rightarrow>
          (let expectedNonce = nonce_bytes (cph_nonce (ss_recv s));
               nonce = take NonceSize data; ciphertext = drop NonceSize data
           in if be_nat (take 8 nonce) \<noteq> be_nat (take 8 expectedNonce)
              then (Fail ''session: nonce mismatch'', s)
              else case aesGCM k of
                Inl e \<Rightarrow> (Inl e, s)
              | Inr _ \<Rightarrow>
                  (case x_open x k nonce ciphertext of
                     None \<Rightarrow> (Inl (Err (Wrap ''session: decrypt''
                               (Errorf ''cipher: message authentication failed''))), s)
                   | Some plain \<Rightarrow>
                       (Inr plain,
                        s\<lparr>ss_recv := (ss_recv s)\<lparr>cph_nonce := cph_nonce (ss_recv s) + 1\<rparr>\<rparr>))))"

text \<open>The second half of \<open>send\<close>: under the lock, set the deadline and write.\<close>

definition write_frame ::
  "ext \<Rightarrow> session \<Rightarrow> bytes \<Rightarrow> 'z world_scheme \<Rightarrow> unit result \<times> session \<times> 'z world_scheme" where
  "write_frame x s enc w =
     (case ss_conn s of
        None \<Rightarrow> (Fail ''session: connection closed'', s, w)
      | Some c \<Rightarrow>
          (let deadline = x_write x (tick w); w = w\<lparr>tick := Suc (tick w)\<rparr> in
           if \<not> deadline
           then (Inl (Err (Wrap ''session: set write deadline'' (Errorf ''deadline''))), s, w)
           else (let (ok, c, w) = WriteMessage x enc c w; s = s\<lparr>ss_conn := Some c\<rparr>
                 in if ok then (Inr (), s, w)
                    else (Inl (Err (Wrap ''session: write'' (Errorf ''write''))), s, w))))"

definition send ::
  "ext \<Rightarrow> session \<Rightarrow> bytes \<Rightarrow> 'z world_scheme \<Rightarrow> unit result \<times> session \<times> 'z world_scheme" where
  "send x s plain w =
     (case session_encrypt x s plain of
        (Inl e, s) \<Rightarrow> (Inl e, s, w)
      | (Inr enc, s) \<Rightarrow> write_frame x s enc w)"

definition peerPubKey :: "session \<Rightarrow> key" where
  "peerPubKey s = (if pi_staticPubKey (ss_peer s) \<noteq> 0 then pi_staticPubKey (ss_peer s)
     else pi_ephemeralKey (ss_peer s))"

definition peerName :: "session \<Rightarrow> gostring" where
  "peerName s = pi_name (ss_peer s)"

definition setStatus :: "PeerStatus \<Rightarrow> session \<Rightarrow> session" where
  "setStatus st s = s\<lparr>ss_stat := st\<rparr>"

text \<open>
  The key arrays are overwritten with zeroes and dropped in one critical section.  In a model of values the
  overwriting does not show; who still holds such an array sees it, which is treated in theory
  \<open>SessionRaces\<close>.
\<close>

definition closeConn :: "session \<Rightarrow> unit result \<times> session" where
  "closeConn s =
     (let s = s\<lparr>ss_sendr := (ss_sendr s)\<lparr>cph_key := None\<rparr>, ss_recv := (ss_recv s)\<lparr>cph_key := None\<rparr>\<rparr>
      in case ss_conn s of
           None \<Rightarrow> (nil_deref, s)
         | Some c \<Rightarrow>
             (if conn_open c then Inr ()
              else Inl (Err (Wrap ''session: close'' (Errorf ''use of closed network connection''))),
              s\<lparr>ss_conn := Some (c\<lparr>conn_open := False\<rparr>)\<rparr>))"

subsection \<open>The channel contract\<close>

text \<open>Successive calls of a stateful operation.\<close>

fun run :: "('s \<Rightarrow> 'a \<Rightarrow> 'b \<times> 's) \<Rightarrow> 's \<Rightarrow> 'a list \<Rightarrow> 'b list \<times> 's" where
  "run f s [] = ([], s)"
| "run f s (a # as) = (let (b, s) = f s a; (bs, s) = run f s as in (b # bs, s))"

text \<open>
  What the client expects of a session: a frame sealed on one side opens on the other when the two are
  in step, which keeps them in step, and a frame that is refused changes nothing.
\<close>

locale channel =
  fixes enc :: "'s \<Rightarrow> bytes \<Rightarrow> bytes result \<times> 's"
    and dec :: "'r \<Rightarrow> bytes \<Rightarrow> bytes result \<times> 'r"
    and sync :: "'s \<Rightarrow> 'r \<Rightarrow> bool"
  assumes step: "sync a b \<Longrightarrow> \<exists>f a' b'. enc a p = (Inr f, a') \<and> dec b f = (Inr p, b') \<and> sync a' b'"
    and refused: "dec b f = (Inl e, b') \<Longrightarrow> b' = b"
begin

lemma in_order:
  assumes "sync a b"
  shows "\<exists>fs a' b'. run enc a ps = (map Inr fs, a') \<and> run dec b fs = (map Inr ps, b') \<and> sync a' b'"
  using assms
proof (induction ps arbitrary: a b)
  case Nil
  then show ?case by (intro exI [of _ "[]"]) simp
next
  case (Cons p ps)
  obtain f a1 b1 where 1: "enc a p = (Inr f, a1)" "dec b f = (Inr p, b1)" "sync a1 b1"
    using step [OF Cons.prems] by blast
  obtain fs a2 b2 where "run enc a1 ps = (map Inr fs, a2)" "run dec b1 fs = (map Inr ps, b2)" "sync a2 b2"
    using Cons.IH [OF 1(3)] by blast
  with 1 show ?case by (intro exI [of _ "f # fs"]) auto
qed

lemma noise:
  assumes "\<And>f. f \<in> set bad \<Longrightarrow> \<exists>e. fst (dec b f) = Inl e"
  shows "snd (run dec b bad) = b"
  using assms
proof (induction bad)
  case (Cons f bad)
  obtain e where "dec b f = (Inl e, b)"
    using Cons.prems [of f] refused by (metis list.set_intros(1) prod.collapse)
  with Cons show ?case by (auto split: prod.split)
qed simp

end

subsection \<open>Frames\<close>

lemma nonce_bytes_simps [simp]:
  "length (nonce_bytes n) = 12" "take 8 (nonce_bytes n) = nat_be 8 (unat n)"
  by (simp_all add: nonce_bytes_def)

lemma be_nat_nonce [simp]: "be_nat (nat_be 8 (unat (n :: 64 word))) = unat n"
  using unat_less [of n] by (simp add: be_nat_nat_be)

lemma nonce_bytes_inject [simp]: "nonce_bytes n = nonce_bytes m \<longleftrightarrow> n = m"
  by (metis be_nat_nonce nonce_bytes_simps(2) word_unat_eq_iff)

definition sealed_frame :: "ext \<Rightarrow> bytes \<Rightarrow> 64 word \<Rightarrow> bytes \<Rightarrow> bytes" where
  "sealed_frame x k n plain = nonce_bytes n @ x_seal x k (nonce_bytes n) plain"

lemma take_sealed_frame [simp]: "take 12 (sealed_frame x k n plain) = nonce_bytes n"
  by (simp add: sealed_frame_def)

definition has_send_key :: "session \<Rightarrow> bytes \<Rightarrow> bool" where
  "has_send_key s k \<longleftrightarrow> cph_key (ss_sendr s) = Some k \<and> aes_key_ok k"

definition has_recv_key :: "session \<Rightarrow> bytes \<Rightarrow> bool" where
  "has_recv_key s k \<longleftrightarrow> cph_key (ss_recv s) = Some k \<and> aes_key_ok k"

definition next_send :: "session \<Rightarrow> session" where
  "next_send s = s\<lparr>ss_sendr := (ss_sendr s)\<lparr>cph_nonce := cph_nonce (ss_sendr s) + 1\<rparr>\<rparr>"

definition next_recv :: "session \<Rightarrow> session" where
  "next_recv s = s\<lparr>ss_recv := (ss_recv s)\<lparr>cph_nonce := cph_nonce (ss_recv s) + 1\<rparr>\<rparr>"

lemma encrypt_frame:
  "has_send_key s k \<Longrightarrow>
    session_encrypt x s plain = (Inr (sealed_frame x k (cph_nonce (ss_sendr s)) plain), next_send s)"
  by (simp add: session_encrypt_def has_send_key_def aesGCM_def sealed_frame_def next_send_def
      Let_def)

lemma decrypt_frame:
  "aead_laws x \<Longrightarrow> has_recv_key s k \<Longrightarrow>
    session_decrypt x s (sealed_frame x k n plain) =
      (if n = cph_nonce (ss_recv s) then (Inr plain, next_recv s)
       else (Fail ''session: nonce mismatch'', s))"
  by (simp add: session_decrypt_def has_recv_key_def aesGCM_def sealed_frame_def next_recv_def aead_open
      word_unat_eq_iff Let_def)

lemma decrypt_refused: "session_decrypt x s f = (Inl e, s') \<Longrightarrow> s' = s"
  by (auto simp: session_decrypt_def aesGCM_def Let_def split: if_splits option.splits)

lemma decrypt_accepted:
  assumes "session_decrypt x s f = (Inr plain, s')"
  shows "\<exists>k. has_recv_key s k \<and> 12 \<le> length f \<and> be_nat (take 8 f) = unat (cph_nonce (ss_recv s)) \<and>
    x_open x k (take 12 f) (drop 12 f) = Some plain \<and> s' = next_recv s"
  using assms
  by (auto simp: session_decrypt_def has_recv_key_def next_recv_def aesGCM_def Let_def min_def
      split: if_splits option.splits)

lemma next_send_simps [simp]:
  "has_send_key (next_send s) k = has_send_key s k"
  "cph_nonce (ss_sendr (next_send s)) = cph_nonce (ss_sendr s) + 1"
  by (simp_all add: next_send_def has_send_key_def)

lemma next_recv_simps [simp]:
  "has_recv_key (next_recv s) k = has_recv_key s k"
  "cph_nonce (ss_recv (next_recv s)) = cph_nonce (ss_recv s) + 1"
  by (simp_all add: next_recv_def has_recv_key_def)

definition in_step :: "ext \<Rightarrow> session \<Rightarrow> session \<Rightarrow> bool" where
  "in_step x a b \<longleftrightarrow> aead_laws x \<and> cph_nonce (ss_sendr a) = cph_nonce (ss_recv b) \<and>
     (\<exists>k. has_send_key a k \<and> has_recv_key b k)"

interpretation ch: channel "session_encrypt x" "session_decrypt x" "in_step x" for x
proof
  fix a b p assume "in_step x a b"
  then obtain k where k: "aead_laws x" "cph_nonce (ss_sendr a) = cph_nonce (ss_recv b)"
    "has_send_key a k" "has_recv_key b k"
    by (auto simp: in_step_def)
  then have "in_step x (next_send a) (next_recv b)"
    by (auto simp: in_step_def)
  with k show "\<exists>f a' b'. session_encrypt x a p = (Inr f, a') \<and> session_decrypt x b f = (Inr p, b') \<and>
      in_step x a' b'"
    using encrypt_frame [OF k(3)] decrypt_frame [OF k(1,4)] by auto
next
  fix b f e b' assume "session_decrypt x b f = (Inl e, b')"
  then show "b' = b" by (rule decrypt_refused)
qed

lemma encrypt_run_frames:
  assumes "has_send_key s k"
  shows "length (fst (run (session_encrypt x) s ps)) = length ps \<and>
    (\<forall>i < length ps. fst (run (session_encrypt x) s ps) ! i =
       Inr (sealed_frame x k (cph_nonce (ss_sendr s) + of_nat i) (ps ! i)))"
  using assms
proof (induction ps arbitrary: s)
  case (Cons p ps)
  have "run (session_encrypt x) s (p # ps) =
      (Inr (sealed_frame x k (cph_nonce (ss_sendr s)) p) # fst (run (session_encrypt x) (next_send s) ps),
       snd (run (session_encrypt x) (next_send s) ps))"
    by (simp add: encrypt_frame [OF Cons.prems] split_def Let_def)
  with Cons.IH [of "next_send s"] Cons.prems show ?case
    by (auto simp: less_Suc_eq_0_disj add.assoc)
qed simp

subsection \<open>Properties of the channel\<close>

text \<open>
  Two sessions in step stay in step, and every sequence of payloads sealed on one side and
  delivered in order opens on the other side to exactly that sequence, however long it is.
\<close>

theorem channel_delivers_in_order:
  assumes "in_step x a b"
  shows "\<exists>fs a' b'. run (session_encrypt x) a ps = (map Inr fs, a') \<and>
    run (session_decrypt x) b fs = (map Inr ps, b') \<and> in_step x a' b'"
  using assms by (rule ch.in_order)

definition demo_session :: session where
  "demo_session = \<lparr>ss_conn = Some \<lparr>conn_open = True, conn_sent = []\<rparr>, ss_ourName = str ''a'',
     ss_ourStatic = 6, ss_ourKeys = keys_of_seed demo_ext 5,
     ss_sendr = \<lparr>cph_key = Some (replicate 32 1), cph_nonce = 3\<rparr>,
     ss_recv = \<lparr>cph_key = Some (replicate 32 1), cph_nonce = 3\<rparr>,
     ss_peer = \<lparr>pi_name = [], pi_ephemeralKey = 0, pi_staticPubKey = 9\<rparr>, ss_timeout = 1,
     ss_stat = Accepted, ss_msgLimiter = newMsgLimiter 100 1000 0\<rparr>"

lemma demo_in_step: "in_step demo_ext demo_session demo_session"
  using demo_ext_laws
  by (auto simp: in_step_def demo_session_def has_send_key_def has_recv_key_def aes_key_ok_def)

theorem channel_delivers_in_order_witness:
  "\<exists>fs a' b'. run (session_encrypt demo_ext) demo_session [[1], [2]] = (map Inr fs, a') \<and>
    run (session_decrypt demo_ext) demo_session fs = (map Inr [[1], [2]], b')"
  using channel_delivers_in_order [OF demo_in_step] by blast

text \<open>
  A counter value is never used twice with the same key: the nonces of up to \<open>2 ^ 64\<close>
  successive frames are pairwise distinct.
\<close>

theorem nonces_never_repeat:
  assumes "cph_key (ss_sendr s) = Some k" "aes_key_ok k" "length ps \<le> 2 ^ 64"
  shows "distinct (map (\<lambda>r. take NonceSize (projr r)) (fst (run (session_encrypt x) s ps)))"
proof -
  let ?fs = "fst (run (session_encrypt x) s ps)"
  have k: "has_send_key s k" using assms by (simp add: has_send_key_def)
  have n: "take NonceSize (projr (?fs ! i)) = nonce_bytes (cph_nonce (ss_sendr s) + of_nat i)"
    if "i < length ps" for i
    using encrypt_run_frames [OF k, of x ps] that by simp
  have "(of_nat i :: 64 word) \<noteq> of_nat j" if "i < length ps" "j < length ps" "i \<noteq> j" for i j
    using that assms(3) by (simp add: word_unat_eq_iff unat_of_nat)
  then show ?thesis
    using encrypt_run_frames [OF k, of x ps] n by (auto simp: distinct_conv_nth)
qed

theorem nonces_never_repeat_witness:
  "distinct (map (\<lambda>r. take NonceSize (projr r)) (fst (run (session_encrypt demo_ext) demo_session [[1], [1], [1]])))"
  by (rule nonces_never_repeat [of _ "replicate 32 1"])
    (simp_all add: demo_session_def aes_key_ok_def)

text \<open>
  C10: Replayed, reordered and forged frames are refused without any effect: a frame is accepted only
  when it carries the next counter value and was sealed under the session's key; the session then
  advances by one, so the same frame is refused after that; a refused frame leaves the session
  exactly as it was, so the genuine next frame is still accepted.
\<close>

theorem frames_accepted_once:
  assumes "aead_laws x" "session_decrypt x s f = (r, s')"
  shows "(\<forall>plain. r = Inr plain \<longrightarrow>
      (\<exists>k n. cph_key (ss_recv s) = Some k \<and> f = n @ x_seal x k n plain \<and> length n = NonceSize \<and>
         be_nat (take 8 n) = unat (cph_nonce (ss_recv s))) \<and>
      (\<exists>e. session_decrypt x s' f = (Inl (Err e), s'))) \<and>
    (\<forall>e. r = Inl e \<longrightarrow> s' = s)"
proof (cases r)
  case (Inl e)
  then show ?thesis using assms(2) decrypt_refused by auto
next
  case (Inr plain)
  obtain k where k: "has_recv_key s k" "12 \<le> length f" "be_nat (take 8 f) = unat (cph_nonce (ss_recv s))"
    "x_open x k (take 12 f) (drop 12 f) = Some plain" "s' = next_recv s"
    using decrypt_accepted assms(2) Inr by blast
  have "f = take 12 f @ x_seal x k (take 12 f) plain"
    using aead_only [OF assms(1) k(4)] append_take_drop_id [of 12 f] by simp
  moreover have "session_decrypt x s' f = (Fail ''session: nonce mismatch'', s')"
    using k(1-3) by (simp add: session_decrypt_def k(5) has_recv_key_def next_recv_def Let_def
        word_unat_eq_iff [symmetric])
  ultimately show ?thesis
    using k Inr by (auto simp: has_recv_key_def intro!: exI [of _ "take 12 f"])
qed

theorem frames_accepted_once_witness:
  "\<exists>e. session_decrypt demo_ext (next_recv demo_session) (sealed_frame demo_ext (replicate 32 1) 3 [7]) =
     (Inl (Err e), next_recv demo_session)"
proof -
  have k: "has_recv_key demo_session (replicate 32 1)"
    by (simp add: has_recv_key_def demo_session_def aes_key_ok_def)
  have "session_decrypt demo_ext demo_session (sealed_frame demo_ext (replicate 32 1) 3 [7]) =
      (Inr [7], next_recv demo_session)"
    using decrypt_frame [OF demo_ext_laws(1) k] by (simp add: demo_session_def)
  from frames_accepted_once [OF demo_ext_laws(1) this] show ?thesis by blast
qed

text \<open>
  No amount of junk on the connection disturbs a session: after any number of frames that do not
  open, two sessions in step are still in step and deliver everything sent afterwards.
\<close>

theorem channel_survives_junk:
  assumes "in_step x a b" "\<And>f. f \<in> set junk \<Longrightarrow> \<exists>e. fst (session_decrypt x b f) = Inl e"
  shows "\<exists>fs a' b'. run (session_encrypt x) a ps = (map Inr fs, a') \<and>
    run (session_decrypt x) (snd (run (session_decrypt x) b junk)) fs = (map Inr ps, b')"
  using ch.in_order [OF assms(1)] ch.noise [of junk x b, OF assms(2)] by metis

theorem channel_survives_junk_witness:
  "\<exists>fs a' b'. run (session_encrypt demo_ext) demo_session [[5]] = (map Inr fs, a') \<and>
    run (session_decrypt demo_ext) (snd (run (session_decrypt demo_ext) demo_session [[1, 2, 3]])) fs =
      (map Inr [[5]], b')"
  by (rule channel_survives_junk [OF demo_in_step]) (simp add: session_decrypt_def)

subsection \<open>The handshake\<close>

text \<open>The signal \<open>doSend\<close> writes for an ephemeral key drawn at a tick.\<close>

definition hello_data :: "ext \<Rightarrow> session \<Rightarrow> nat \<Rightarrow> keyExchangeData" where
  "hello_data x s t =
     (let e = x_dh_public x (x_random x t)
      in \<lparr>kx_PubKey = e, kx_StaticPubKey = ss_ourStatic s, kx_ClientName = ss_ourName s,
          kx_Signature = Sign x (ss_ourKeys s) (key_bytes e)\<rparr>)"

definition hello :: "ext \<Rightarrow> session \<Rightarrow> nat \<Rightarrow> bytes" where
  "hello x s t = signal_wire \<lparr>sig_Type = KeyExchange, sig_From = ss_ourStatic s, sig_ID = uuid_Nil,
     sig_Content = keyExchange_wire (hello_data x s t)\<rparr>"

text \<open>
  A session ready to start: an open connection, an identity that signs with the key it announces, a
  name that fits its length field.
\<close>

definition honest :: "ext \<Rightarrow> session \<Rightarrow> bool" where
  "honest x s \<longleftrightarrow> signature_laws x \<and> (\<exists>c. ss_conn s = Some c \<and> conn_open c) \<and>
     ss_ourStatic s = x_ed_public x (K_sign (ss_ourKeys s)) \<and> ss_ourStatic s \<noteq> NilKey \<and>
     length (ss_ourName s) \<le> 65535"

lemma hello_ok:
  assumes "honest x s"
  shows "keyExchange_ok (hello_data x s t)"
    "signal_ok \<lparr>sig_Type = KeyExchange, sig_From = ss_ourStatic s, sig_ID = uuid_Nil,
       sig_Content = keyExchange_wire (hello_data x s t)\<rparr>"
proof -
  have "length (kx_Signature (hello_data x s t)) = 64"
    using assms by (simp add: honest_def signature_laws_def hello_data_def Sign_def Let_def)
  then show "keyExchange_ok (hello_data x s t)"
    "signal_ok \<lparr>sig_Type = KeyExchange, sig_From = ss_ourStatic s, sig_ID = uuid_Nil,
       sig_Content = keyExchange_wire (hello_data x s t)\<rparr>"
    using assms
    by (simp_all add: honest_def keyExchange_ok_def signal_ok_def keyExchange_wire_def KeyExchange_def
        str_def hello_data_def Let_def)
qed

definition write_conn :: "bytes \<Rightarrow> session \<Rightarrow> session" where
  "write_conn f s = s\<lparr>ss_conn := map_option (\<lambda>c. c\<lparr>conn_sent := conn_sent c @ [f]\<rparr>) (ss_conn s)\<rparr>"

lemma doSend_hello:
  assumes "honest x s" "x_write x (tick w)" "e = x_dh_public x (x_random x t)"
  shows "doSend x s e (Sign x (ss_ourKeys s) (key_bytes e)) w =
    (Inr (), write_conn (hello x s t) s, w\<lparr>tick := Suc (tick w)\<rparr>)"
proof -
  obtain c where c: "ss_conn s = Some c" "conn_open c"
    using assms(1) by (auto simp: honest_def)
  have d: "\<lparr>kx_PubKey = e, kx_StaticPubKey = ss_ourStatic s, kx_ClientName = ss_ourName s,
      kx_Signature = Sign x (ss_ourKeys s) (key_bytes e)\<rparr> = hello_data x s t"
    by (simp add: hello_data_def assms(3) Let_def)
  have "encodeKeyExchange (hello_data x s t) = Inr (keyExchange_wire (hello_data x s t))"
    using hello_ok(1) [OF assms(1)] by (rule encodeKeyExchange_ok)
  moreover have "signal_New KeyExchange (ss_ourStatic s) uuid_Nil (keyExchange_wire (hello_data x s t)) =
      Inr (hello x s t)"
    using hello_ok(2) [OF assms(1), of t] by (simp add: signal_New_eq signal_ok_def hello_def)
  ultimately show ?thesis
    using assms(2) c by (simp add: doSend_def d WriteMessage_def write_conn_def Let_def)
qed

lemma doRecv_hello:
  assumes "honest x p" "\<exists>c. ss_conn s = Some c \<and> conn_open c" "x_read x (tick w) = Some (hello x p t)"
  shows "doRecv x s w = (Inr (hello_data x p t), w\<lparr>tick := Suc (tick w)\<rparr>)"
proof -
  have "signal_Parse (hello x p t) = Inr \<lparr>sig_Type = KeyExchange, sig_From = ss_ourStatic p,
      sig_ID = uuid_Nil, sig_Content = keyExchange_wire (hello_data x p t)\<rparr>"
    unfolding hello_def using hello_ok(2) [OF assms(1)] by (rule sig.roundtrip_exact)
  moreover have "decodeKeyExchange (keyExchange_wire (hello_data x p t)) = Inr (hello_data x p t)"
    using hello_ok(1) [OF assms(1)] by (rule kx.roundtrip_exact)
  moreover have "(hello_data x p t)\<lparr>kx_StaticPubKey := ss_ourStatic p\<rparr> = hello_data x p t"
    by (simp add: hello_data_def Let_def)
  ultimately show ?thesis
    using assms(2,3) by (auto simp: doRecv_def ReadMessage_def key_exchange_def)
qed

lemma verifyPeer_hello:
  assumes "honest x p" "ss_ourStatic p \<noteq> ss_ourStatic s"
  shows "verifyPeer x s (hello_data x p t) = Inr ()"
  using assms
  by (auto simp: verifyPeer_def hello_data_def honest_def Verify_def Sign_def signature_laws_def Let_def
      guardR_def)

lemma write_conn_simps [simp]:
  "ss_ourStatic (write_conn f s) = ss_ourStatic s" "ss_ourName (write_conn f s) = ss_ourName s"
  "ss_ourKeys (write_conn f s) = ss_ourKeys s"
  "(\<exists>c. ss_conn (write_conn f s) = Some c \<and> conn_open c) \<longleftrightarrow> (\<exists>c. ss_conn s = Some c \<and> conn_open c)"
  by (auto simp: write_conn_def)

lemma handshake_honest:
  assumes "honest x s" "honest x p" "ss_ourStatic s \<noteq> ss_ourStatic p"
    and "x_write x (tick w + (if initiator then 1 else 2))"
    and "x_read x (tick w + (if initiator then 2 else 1)) = Some (hello x p t)"
    and "x_dh_shared x (x_random x (tick w)) (x_dh_public x (x_random x t)) = Some shared"
  shows "handshake x initiator s w = (Inr (), deriveKeys x shared initiator (hello_data x p t)
      (write_conn (hello x s (tick w)) s), w\<lparr>tick := tick w + 3\<rparr>)"
proof -
  have c: "\<exists>c. ss_conn s = Some c \<and> conn_open c" using assms(1) by (auto simp: honest_def)
  have k: "kx_PubKey (hello_data x p t) = x_dh_public x (x_random x t)"
    by (simp add: hello_data_def Let_def)
  let ?e = "x_dh_public x (x_random x (tick w))"
  let ?w1 = "w\<lparr>tick := Suc (tick w)\<rparr>"
  let ?w2 = "w\<lparr>tick := Suc (Suc (tick w))\<rparr>"
  let ?s = "write_conn (hello x s (tick w)) s"
  have "exchange x initiator ?e (Sign x (ss_ourKeys s) (key_bytes ?e)) s ?w1 =
      (Inr (hello_data x p t), ?s, w\<lparr>tick := tick w + 3\<rparr>)"
  proof (cases initiator)
    case True
    then show ?thesis
      using assms(4,5) c doSend_hello [OF assms(1), of ?w1 ?e "tick w"] doRecv_hello [OF assms(2), of ?s ?w2 t]
      by (simp add: exchange_def numeral_eq_Suc)
  next
    case False
    then show ?thesis
      using assms(4,5) c doSend_hello [OF assms(1), of ?w2 ?e "tick w"] doRecv_hello [OF assms(2), of s ?w1 t]
      by (simp add: exchange_def numeral_eq_Suc)
  qed
  with assms(3,6) k verifyPeer_hello [OF assms(2), of "write_conn (hello x s (tick w)) s"] show ?thesis
    by (simp add: handshake_def Let_def)
qed

text \<open>
  C8: A handshake between two honest peers, each of whom gets the other's key exchange signal,
  succeeds on both sides and leaves mirrored sessions: what one seals the other opens, in both
  directions, and each holds the other's static key and name.
\<close>

theorem handshake_agreement:
  assumes "honest x a" "honest x b" "ss_ourStatic a \<noteq> ss_ourStatic b" "aead_laws x" "dh_laws x"
    and "x_write x (tick wa + 1)" "x_read x (tick wa + 2) = Some (hello x b (tick wb))"
    and "x_read x (tick wb + 1) = Some (hello x a (tick wa))" "x_write x (tick wb + 2)"
    and "x_dh_shared x (x_random x (tick wa)) (x_dh_public x (x_random x (tick wb))) = Some shared"
  shows "\<exists>a' b' wa' wb'. handshake x True a wa = (Inr (), a', wa') \<and> handshake x False b wb = (Inr (), b', wb') \<and>
    in_step x a' b' \<and> in_step x b' a' \<and>
    peerPubKey a' = ss_ourStatic b \<and> peerPubKey b' = ss_ourStatic a \<and>
    peerName a' = ss_ourName b \<and> peerName b' = ss_ourName a"
proof -
  let ?a = "deriveKeys x shared True (hello_data x b (tick wb)) (write_conn (hello x a (tick wa)) a)"
  let ?b = "deriveKeys x shared False (hello_data x a (tick wa)) (write_conn (hello x b (tick wb)) b)"
  have "handshake x True a wa = (Inr (), ?a, wa\<lparr>tick := tick wa + 3\<rparr>)"
    using assms by (intro handshake_honest) auto
  moreover have "x_dh_shared x (x_random x (tick wb)) (x_dh_public x (x_random x (tick wa))) = Some shared"
    using assms(5,10) by (simp add: dh_laws_def)
  then have "handshake x False b wb = (Inr (), ?b, wb\<lparr>tick := tick wb + 3\<rparr>)"
    using assms by (intro handshake_honest) auto
  moreover have "in_step x ?a ?b" "in_step x ?b ?a"
    using assms(4) by (auto simp: in_step_def deriveKeys_def has_send_key_def has_recv_key_def
        aes_key_ok_def sha256_bytes_def Let_def)
  moreover have "peerPubKey ?a = ss_ourStatic b" "peerPubKey ?b = ss_ourStatic a"
    "peerName ?a = ss_ourName b" "peerName ?b = ss_ourName a"
    using assms(1,2) by (auto simp: peerPubKey_def peerName_def deriveKeys_def hello_data_def
        honest_def Let_def)
  ultimately show ?thesis by blast
qed

definition alice :: session where
  "alice = demo_session\<lparr>ss_sendr := \<lparr>cph_key = None, cph_nonce = 0\<rparr>, ss_recv := \<lparr>cph_key = None, cph_nonce = 0\<rparr>\<rparr>"

definition bob :: session where
  "bob = alice\<lparr>ss_ourName := str ''b'', ss_ourStatic := 9, ss_ourKeys := keys_of_seed demo_ext 8\<rparr>"

text \<open>A network that carries the two signals of a handshake started at ticks 0 and 10.\<close>

definition demo_net :: ext where
  "demo_net = demo_ext\<lparr>x_read := (\<lambda>t. if t = 2 then Some (hello demo_ext bob 10)
     else if t = 11 then Some (hello demo_ext alice 0) else None)\<rparr>"

lemma demo_net_laws:
  "aead_laws demo_net" "signature_laws demo_net" "dh_laws demo_net" "uuid_laws demo_net"
  using demo_ext_laws
  by (simp_all add: demo_net_def aead_laws_def signature_laws_def dh_laws_def uuid_laws_def)

lemma demo_honest: "honest demo_net alice" "honest demo_net bob"
  using demo_net_laws
  by (simp_all add: honest_def alice_def bob_def demo_session_def keys_of_seed_def str_def)
    (simp_all add: demo_net_def demo_ext_def)

lemma demo_hello: "hello demo_net s t = hello demo_ext s t"
  by (simp add: hello_def hello_data_def demo_net_def Sign_def)

theorem handshake_agreement_witness:
  "\<exists>a' b' wa' wb'. handshake demo_net True alice \<lparr>tick = 0\<rparr> = (Inr (), a', wa') \<and>
     handshake demo_net False bob \<lparr>tick = 10\<rparr> = (Inr (), b', wb') \<and>
     in_step demo_net a' b' \<and> peerPubKey b' = ss_ourStatic alice"
proof -
  have s: "ss_ourStatic alice \<noteq> ss_ourStatic bob"
    by (simp add: alice_def bob_def demo_session_def)
  have n: "x_write demo_net (tick \<lparr>tick = 0\<rparr> + 1)" "x_write demo_net (tick \<lparr>tick = 10\<rparr> + 2)"
    "x_read demo_net (tick \<lparr>tick = 0\<rparr> + 2) = Some (hello demo_net bob (tick \<lparr>tick = 10\<rparr>))"
    "x_read demo_net (tick \<lparr>tick = 10\<rparr> + 1) = Some (hello demo_net alice (tick \<lparr>tick = 0\<rparr>))"
    unfolding demo_hello by (simp_all add: demo_net_def)
  have d: "x_dh_shared demo_net (x_random demo_net (tick \<lparr>tick = 0\<rparr>))
      (x_dh_public demo_net (x_random demo_net (tick \<lparr>tick = 10\<rparr>))) = Some (key_bytes 11)"
    by (simp add: demo_net_def demo_ext_def)
  from handshake_agreement [OF demo_honest s demo_net_laws(1,3) n(1,3,4,2) d] show ?thesis by blast
qed

lemma doRecv_read:
  assumes "doRecv x s w = (Inr peer, w')"
  shows "\<exists>t raw. x_read x t = Some raw \<and> key_exchange raw = Inr peer"
  using assms
  by (auto simp: doRecv_def ReadMessage_def Let_def split: option.splits if_splits prod.splits)

lemma exchange_read:
  assumes "exchange x initiator e sg s w = (Inr peer, s', w')"
  shows "\<exists>t raw. x_read x t = Some raw \<and> key_exchange raw = Inr peer"
proof -
  obtain a and v v' :: "'a world_scheme" where "doRecv x a v = (Inr peer, v')"
    using assms by (auto simp: exchange_def Let_def split: if_splits prod.splits sum.splits)
  then show ?thesis by (rule doRecv_read)
qed

lemma handshake_result:
  assumes "handshake x initiator s w = (r, s', w')"
  shows "(r = Inr () \<longrightarrow> (let p = ss_peer s' in
      pi_staticPubKey p \<noteq> NilKey \<and> pi_staticPubKey p \<noteq> ss_ourStatic s \<and> peerPubKey s' = pi_staticPubKey p \<and>
      (\<exists>t raw data. x_read x t = Some raw \<and> key_exchange raw = Inr data \<and>
         kx_StaticPubKey data = pi_staticPubKey p \<and> kx_PubKey data = pi_ephemeralKey p \<and>
         Verify x (pi_staticPubKey p) (key_bytes (pi_ephemeralKey p)) (kx_Signature data)) \<and>
      (\<exists>shared. x_dh_shared x (x_random x (tick w)) (pi_ephemeralKey p) = Some shared \<and>
         (let sk = sha256_bytes x (str ''session:send'' @ shared); rk = sha256_bytes x (str ''session:recv'' @ shared) in
          ss_sendr s' = \<lparr>cph_key = Some (if initiator then sk else rk), cph_nonce = 0\<rparr> \<and>
          ss_recv s' = \<lparr>cph_key = Some (if initiator then rk else sk), cph_nonce = 0\<rparr>)))) \<and>
    (r \<noteq> Inr () \<longrightarrow> ss_sendr s' = ss_sendr s \<and> ss_recv s' = ss_recv s \<and> ss_peer s' = ss_peer s)"
proof -
  let ?e = "x_dh_public x (x_random x (tick w))"
  let ?w = "w\<lparr>tick := Suc (tick w)\<rparr>"
  obtain q s1 w1 where ex: "exchange x initiator ?e (Sign x (ss_ourKeys s) (key_bytes ?e)) s ?w = (q, s1, w1)"
    using prod_cases3 by blast
  have send: "ss_sendr b = ss_sendr a \<and> ss_recv b = ss_recv a \<and> ss_peer b = ss_peer a \<and>
      ss_ourStatic b = ss_ourStatic a" if "doSend x a e sg v = (u, b, v')" for a b e sg u and v v' :: "'a world_scheme"
    using that by (auto simp: doSend_def Let_def split: sum.splits option.splits prod.splits if_splits)
  have s1: "ss_sendr s1 = ss_sendr s" "ss_recv s1 = ss_recv s" "ss_peer s1 = ss_peer s"
    "ss_ourStatic s1 = ss_ourStatic s"
    using ex by (auto simp: exchange_def Let_def split: if_splits prod.splits sum.splits dest!: send)
  show ?thesis
  proof (cases "r = Inr ()")
    case True
    then obtain peer shared where peer: "q = Inr peer" "verifyPeer x s1 peer = Inr ()"
      "x_dh_shared x (x_random x (tick w)) (kx_PubKey peer) = Some shared" "s' = deriveKeys x shared initiator peer s1"
      using assms ex by (auto simp: handshake_def Let_def split: sum.splits option.splits)
    obtain t raw where "x_read x t = Some raw" "key_exchange raw = Inr peer"
      using exchange_read ex unfolding peer(1) by blast
    with True peer(2-4) s1 show ?thesis
      by (auto simp: verifyPeer_def guardR_def deriveKeys_def peerPubKey_def Let_def split: if_splits)
  next
    case False
    with assms ex s1 show ?thesis by (auto simp: handshake_def Let_def split: sum.splits option.splits)
  qed
qed

text \<open>
  C9: A session that completes the handshake knows its peer: the peer's static key is neither absent
  nor our own, a key exchange that was read from the connection carries it together with the ephemeral
  key and a signature of the one over the other, and the session keys, one for each direction by the
  side we are on, derive from the secret shared with that ephemeral key; both counters start at zero.  A
  handshake that fails in any way leaves the session's keys as they were, so a new session never sends or
  accepts a frame.
\<close>

theorem handshake_authenticates:
  assumes "handshake x initiator s w = (r, s', w')"
  shows "(r = Inr () \<longrightarrow> (let p = ss_peer s' in
      pi_staticPubKey p \<noteq> NilKey \<and> pi_staticPubKey p \<noteq> ss_ourStatic s \<and> peerPubKey s' = pi_staticPubKey p \<and>
      (\<exists>t raw data. x_read x t = Some raw \<and> key_exchange raw = Inr data \<and>
         kx_StaticPubKey data = pi_staticPubKey p \<and> kx_PubKey data = pi_ephemeralKey p \<and>
         Verify x (pi_staticPubKey p) (key_bytes (pi_ephemeralKey p)) (kx_Signature data)) \<and>
      (\<exists>shared. x_dh_shared x (x_random x (tick w)) (pi_ephemeralKey p) = Some shared \<and>
         (let sk = sha256_bytes x (str ''session:send'' @ shared); rk = sha256_bytes x (str ''session:recv'' @ shared) in
          ss_sendr s' = \<lparr>cph_key = Some (if initiator then sk else rk), cph_nonce = 0\<rparr> \<and>
          ss_recv s' = \<lparr>cph_key = Some (if initiator then rk else sk), cph_nonce = 0\<rparr>)))) \<and>
    (r \<noteq> Inr () \<longrightarrow> ss_sendr s' = ss_sendr s \<and> ss_recv s' = ss_recv s \<and> ss_peer s' = ss_peer s)"
  using assms by (rule handshake_result)

lemma alice_handshake:
  "handshake demo_net True alice \<lparr>tick = 0\<rparr> = (Inr (), deriveKeys demo_net (key_bytes 11) True
     (hello_data demo_net bob 10) (write_conn (hello demo_net alice 0) alice), \<lparr>tick = 3\<rparr>)"
proof -
  have "x_read demo_net 2 = Some (hello demo_net bob 10)"
    unfolding demo_hello by (simp add: demo_net_def)
  moreover have "x_dh_shared demo_net (x_random demo_net 0) (x_dh_public demo_net (x_random demo_net 10)) =
      Some (key_bytes 11)" "x_write demo_net 1"
    by (simp_all add: demo_net_def demo_ext_def)
  moreover have "ss_ourStatic alice \<noteq> ss_ourStatic bob"
    by (simp add: alice_def bob_def demo_session_def)
  ultimately show ?thesis
    using handshake_honest [OF demo_honest, of "\<lparr>tick = 0\<rparr>" True 10 "key_bytes 11"]
    by (simp add: numeral_2_eq_2)
qed

theorem handshake_authenticates_witness:
  "\<exists>t raw data. x_read demo_net t = Some raw \<and> key_exchange raw = Inr data \<and> kx_StaticPubKey data = 9 \<and>
     Verify demo_net 9 (key_bytes (kx_PubKey data)) (kx_Signature data)"
proof -
  let ?s' = "deriveKeys demo_net (key_bytes 11) True (hello_data demo_net bob 10) (write_conn (hello demo_net alice 0) alice)"
  have "pi_staticPubKey (ss_peer ?s') = 9" by (simp add: deriveKeys_def hello_data_def Let_def) (simp add: bob_def)
  with handshake_authenticates [OF alice_handshake] show ?thesis unfolding Let_def by metis
qed

text \<open>
  Closing a session makes it inert: nothing is sealed, opened or written any more, every attempt
  is an error.
\<close>

theorem closed_session_inert:
  assumes "closeConn s = (r, s')"
  shows "(\<exists>e. session_encrypt x s' plain = (Inl (Err e), s')) \<and>
    (\<exists>e. session_decrypt x s' f = (Inl (Err e), s')) \<and>
    (\<exists>e. send x s' plain w = (Inl (Err e), s', w))"
proof -
  have "cph_key (ss_sendr s') = None" "cph_key (ss_recv s') = None"
    using assms by (auto simp: closeConn_def Let_def split: option.splits)
  then show ?thesis
    by (simp add: session_encrypt_def session_decrypt_def send_def)
qed

theorem closed_session_inert_witness:
  "\<exists>e. send demo_ext (snd (closeConn demo_session)) [1] \<lparr>tick = 0\<rparr> =
     (Inl (Err e), snd (closeConn demo_session), \<lparr>tick = 0\<rparr>)"
  by (rule conjunct2 [OF conjunct2 [OF closed_session_inert [OF prod.collapse [symmetric]]]])

end
