(* ===== verification/MessageCodec.thy ===== *)
theory MessageCodec
  imports Config Wire
begin

text \<open>
  The wire and storage format of chat messages, from \<open>message/message.go\<close>: \<open>Message.Encode\<close>,
  \<open>ToMessage\<close>, the attachment codec under them and \<open>searchText\<close>.  The explicit panics of
  \<open>toWireUint\<close> and \<open>toInt64\<close> are kept: they are what a value or a buffer outside the format runs
  into.  A panic message's formatted value is left out of its text.
\<close>

abbreviation idSize :: nat where "idSize \<equiv> 16"
abbreviation u16Size :: nat where "u16Size \<equiv> 2"
abbreviation u32Size :: nat where "u32Size \<equiv> 4"
abbreviation u64Size :: nat where "u64Size \<equiv> 8"
abbreviation timeFieldSize :: nat where "timeFieldSize \<equiv> 8"

subsection \<open>Integers on the wire\<close>

text \<open>\<open>var maxV T; maxV--\<close> is the largest value of the width, \<open>-1\<close> as a word.\<close>

definition toWireUint :: "int \<Rightarrow> 'w::len word result" where
  "toWireUint n =
     (if n < 0 then Inl (Panic ''message: negative value cannot be encoded as unsigned'')
      else if n > uint (- 1 :: 'w word) then Inl (Panic ''message: value overflows'')
      else Inr (of_int n))"

definition toInt64 :: "64 word \<Rightarrow> int result" where
  "toInt64 n = (if uint n > 9223372036854775807 then Inl (Panic ''message: value overflows int64'')
                else Inr (uint n))"

subsection \<open>Data\<close>

record attachment =
  att_ID :: uuid
  att_Name :: gostring
  att_MIMEType :: gostring
  att_Size :: int
  att_Data :: bytes

record message =
  msg_ID :: uuid
  msg_FromPubKey :: key
  msg_To :: gostring
  msg_Content :: gostring
  msg_Time :: time
  msg_CreatedAt :: time
  msg_UpdatedAt :: time
  msg_Attachments :: "attachment list"

subsection \<open>Encoding\<close>

definition attachmentEncodedSize :: "attachment \<Rightarrow> nat" where
  "attachmentEncodedSize a =
     idSize + u16Size + length (att_Name a) + u16Size + length (att_MIMEType a) + u64Size +
     u32Size + length (att_Data a)"

definition encodeAttachment :: "bytes \<Rightarrow> nat \<Rightarrow> attachment \<Rightarrow> (bytes \<times> nat) result" where
  "encodeAttachment buf off a =
     bindR (copy_at buf off (uuid_bytes (att_ID a))) (\<lambda>buf.
     let off = off + idSize; nameBytes = att_Name a in
     bindR (toWireUint (int (length nameBytes))) (\<lambda>n.
     bindR (PutUint16 buf off n) (\<lambda>buf. let off = off + u16Size in
     bindR (copy_at buf off nameBytes) (\<lambda>buf.
     let off = off + length nameBytes; mimeBytes = att_MIMEType a in
     bindR (toWireUint (int (length mimeBytes))) (\<lambda>n.
     bindR (PutUint16 buf off n) (\<lambda>buf. let off = off + u16Size in
     bindR (copy_at buf off mimeBytes) (\<lambda>buf. let off = off + length mimeBytes in
     bindR (toWireUint (att_Size a)) (\<lambda>n.
     bindR (PutUint64 buf off n) (\<lambda>buf. let off = off + u64Size in
     bindR (toWireUint (int (length (att_Data a)))) (\<lambda>n.
     bindR (PutUint32 buf off n) (\<lambda>buf. let off = off + u32Size in
     bindR (copy_at buf off (att_Data a)) (\<lambda>buf.
       Inr (buf, off + length (att_Data a))))))))))))))"

fun encodeAttachments :: "bytes \<Rightarrow> nat \<Rightarrow> attachment list \<Rightarrow> bytes result" where
  "encodeAttachments buf off [] = Inr buf"
| "encodeAttachments buf off (a # as) =
     bindR (encodeAttachment buf off a) (\<lambda>(buf, off). encodeAttachments buf off as)"

definition Encode :: "message \<Rightarrow> bytes result" where
  "Encode m =
     (let toBytes = msg_To m; contentBytes = msg_Content m;
          size = foldl (\<lambda>n a. n + attachmentEncodedSize a)
                   (idSize + AesKeySize + u16Size + length toBytes + u32Size + length contentBytes +
                    timeFieldSize + timeFieldSize + timeFieldSize + u16Size)
                   (msg_Attachments m);
          buf = make_bytes size; off = 0
      in bindR (copy_at buf off (uuid_bytes (msg_ID m))) (\<lambda>buf. let off = off + idSize in
         bindR (copy_at buf off (key_bytes (msg_FromPubKey m))) (\<lambda>buf.
         let off = off + AesKeySize in
         bindR (toWireUint (int (length toBytes))) (\<lambda>n.
         bindR (PutUint16 buf off n) (\<lambda>buf. let off = off + u16Size in
         bindR (copy_at buf off toBytes) (\<lambda>buf. let off = off + length toBytes in
         bindR (toWireUint (int (length contentBytes))) (\<lambda>n.
         bindR (PutUint32 buf off n) (\<lambda>buf. let off = off + u32Size in
         bindR (copy_at buf off contentBytes) (\<lambda>buf. let off = off + length contentBytes in
         bindR (toWireUint (UnixNano (msg_Time m))) (\<lambda>n.
         bindR (PutUint64 buf off n) (\<lambda>buf. let off = off + timeFieldSize in
         bindR (toWireUint (UnixNano (msg_CreatedAt m))) (\<lambda>n.
         bindR (PutUint64 buf off n) (\<lambda>buf. let off = off + timeFieldSize in
         bindR (toWireUint (UnixNano (msg_UpdatedAt m))) (\<lambda>n.
         bindR (PutUint64 buf off n) (\<lambda>buf. let off = off + timeFieldSize in
         bindR (toWireUint (int (length (msg_Attachments m)))) (\<lambda>n.
         bindR (PutUint16 buf off n) (\<lambda>buf. let off = off + u16Size in
         encodeAttachments buf off (msg_Attachments m))))))))))))))))))"

subsection \<open>Decoding\<close>

definition decodeAttachment :: "bytes \<Rightarrow> nat \<Rightarrow> (attachment \<times> nat) result" where
  "decodeAttachment data off =
     guardR (\<not> length data < off + idSize + u16Size)
       ''message: buffer truncated at attachment id''
    (bindR (slice data off (off + idSize)) (\<lambda>idB. let off = off + idSize in
     bindR (Uint16 data off) (\<lambda>nl. let nameLen = unat nl; off = off + u16Size in
     guardR (\<not> length data < off + nameLen + u16Size)
       ''message: buffer truncated at attachment name''
    (bindR (slice data off (off + nameLen)) (\<lambda>name. let off = off + nameLen in
     bindR (Uint16 data off) (\<lambda>ml. let mimeLen = unat ml; off = off + u16Size in
     guardR (\<not> length data < off + mimeLen + u64Size + u32Size)
       ''message: buffer truncated at attachment mime''
    (bindR (slice data off (off + mimeLen)) (\<lambda>mime. let off = off + mimeLen in
     bindR (Uint64 data off) (\<lambda>sz.
     bindR (toInt64 sz) (\<lambda>size. let off = off + u64Size in
     bindR (Uint32 data off) (\<lambda>dl. let dataLen = unat dl; off = off + u32Size in
     guardR (\<not> length data < off + dataLen) ''message: buffer truncated at attachment data''
    (if dataLen > 0
     then bindR (slice data off (off + dataLen)) (\<lambda>d.
            Inr (\<lparr>att_ID = uuid_of idB, att_Name = name, att_MIMEType = mime,
                  att_Size = size, att_Data = d\<rparr>, off + dataLen))
     else Inr (\<lparr>att_ID = uuid_of idB, att_Name = name, att_MIMEType = mime,
                att_Size = size, att_Data = []\<rparr>, off)))))))))))))"

primrec decodeAttachments :: "nat \<Rightarrow> bytes \<Rightarrow> nat \<Rightarrow> attachment list result" where
  "decodeAttachments 0 data off = Inr []"
| "decodeAttachments (Suc n) data off =
     bindR (decodeAttachment data off) (\<lambda>(a, newOff).
     bindR (decodeAttachments n data newOff) (\<lambda>as. Inr (a # as)))"

definition ToMessage :: "bytes \<Rightarrow> message result" where
  "ToMessage data =
     (let off = 0 in
     guardR (\<not> length data < idSize + AesKeySize + u16Size)
       ''message: buffer too short for header''
    (bindR (slice data off (off + idSize)) (\<lambda>idB. let off = off + idSize in
     bindR (slice data off (off + AesKeySize)) (\<lambda>fromB. let off = off + AesKeySize in
     bindR (Uint16 data off) (\<lambda>dl. let dLen = unat dl; off = off + u16Size in
     guardR (\<not> length data < off + dLen + u32Size) ''message: buffer truncated at to''
    (bindR (slice data off (off + dLen)) (\<lambda>to. let off = off + dLen in
     bindR (Uint32 data off) (\<lambda>cl. let contentLen = unat cl; off = off + u32Size in
     guardR (\<not> length data < off + contentLen + 3 * timeFieldSize + u16Size)
       ''message: buffer truncated at content''
    (bindR (slice data off (off + contentLen)) (\<lambda>content. let off = off + contentLen in
     bindR (Uint64 data off) (\<lambda>t.
     bindR (toInt64 t) (\<lambda>nanos. let off = off + timeFieldSize in
     bindR (Uint64 data off) (\<lambda>t.
     bindR (toInt64 t) (\<lambda>createdNanos. let off = off + timeFieldSize in
     bindR (Uint64 data off) (\<lambda>t.
     bindR (toInt64 t) (\<lambda>updatedNanos. let off = off + timeFieldSize in
     bindR (Uint16 data off) (\<lambda>n. let attCount = unat n; off = off + u16Size in
     bindR (decodeAttachments attCount data off) (\<lambda>as.
       Inr \<lparr>msg_ID = uuid_of idB, msg_FromPubKey = key_of fromB, msg_To = to,
            msg_Content = content, msg_Time = nanos, msg_CreatedAt = createdNanos,
            msg_UpdatedAt = updatedNanos, msg_Attachments = as\<rparr>))))))))))))))))))"

subsection \<open>Search text\<close>

definition searchText :: "message \<Rightarrow> gostring" where
  "searchText msg =
     foldl (\<lambda>b a. if att_Name a \<noteq> [] then b @ str '' '' @ att_Name a else b)
       (msg_Content msg) (msg_Attachments msg)"

subsection \<open>The layout\<close>

definition attachment_wire :: "attachment \<Rightarrow> bytes" where
  "attachment_wire a =
     uuid_bytes (att_ID a) @ nat_be 2 (length (att_Name a)) @ att_Name a @
     nat_be 2 (length (att_MIMEType a)) @ att_MIMEType a @ nat_be 8 (nat (att_Size a)) @
     nat_be 4 (length (att_Data a)) @ att_Data a"

definition attachment_ok :: "attachment \<Rightarrow> bool" where
  "attachment_ok a \<longleftrightarrow> length (att_Name a) \<le> 65535 \<and> length (att_MIMEType a) \<le> 65535 \<and>
     0 \<le> att_Size a \<and> att_Size a < 2 ^ 63 \<and> length (att_Data a) \<le> 4294967295"

definition time_ok :: "time \<Rightarrow> bool" where
  "time_ok t \<longleftrightarrow> 0 \<le> t \<and> t < 2 ^ 63"

definition message_wire :: "message \<Rightarrow> bytes" where
  "message_wire m =
     uuid_bytes (msg_ID m) @ key_bytes (msg_FromPubKey m) @
     nat_be 2 (length (msg_To m)) @ msg_To m @
     nat_be 4 (length (msg_Content m)) @ msg_Content m @
     nat_be 8 (nat (msg_Time m)) @ nat_be 8 (nat (msg_CreatedAt m)) @
     nat_be 8 (nat (msg_UpdatedAt m)) @ nat_be 2 (length (msg_Attachments m)) @
     concat (map attachment_wire (msg_Attachments m))"

definition message_ok :: "message \<Rightarrow> bool" where
  "message_ok m \<longleftrightarrow> length (msg_To m) \<le> 65535 \<and> length (msg_Content m) \<le> 4294967295 \<and>
     time_ok (msg_Time m) \<and> time_ok (msg_CreatedAt m) \<and> time_ok (msg_UpdatedAt m) \<and>
     length (msg_Attachments m) \<le> 65535 \<and> list_all attachment_ok (msg_Attachments m)"

subsection \<open>Encoder\<close>

lemma toWireUint_ok [codec]:
  "n \<le> 65535 \<Longrightarrow> (toWireUint (int n) :: 16 word result) = Inr (of_nat n)"
  "m \<le> 4294967295 \<Longrightarrow> (toWireUint (int m) :: 32 word result) = Inr (of_nat m)"
  "0 \<le> k \<Longrightarrow> k < 2 ^ 63 \<Longrightarrow> (toWireUint k :: 64 word result) = Inr (of_int k)"
  by (simp_all add: toWireUint_def unsigned_minus_1_eq_mask mask_eq_exp_minus_1)

lemma of_int_time [codec]:
  assumes "0 \<le> k" "k < 2 ^ 63"
  shows "unat (of_int k :: 64 word) = nat k" "uint (of_int k :: 64 word) = k"
proof -
  show u: "uint (of_int k :: 64 word) = k"
    using assms by (simp add: uint_word_of_int)
  then show "unat (of_int k :: 64 word) = nat k"
    by (metis nat_uint_eq)
qed

lemma length_attachment_wire [codec]: "length (attachment_wire a) = attachmentEncodedSize a"
  by (simp add: attachment_wire_def attachmentEncodedSize_def)

lemma encodeAttachment_filled:
  assumes "attachment_ok a" "off = length p" "attachmentEncodedSize a \<le> k"
  shows "encodeAttachment (filled p k) off a =
    Inr (filled (p @ attachment_wire a) (k - attachmentEncodedSize a),
         off + attachmentEncodedSize a)"
  using assms
  by (simp add: encodeAttachment_def attachment_ok_def attachmentEncodedSize_def
      attachment_wire_def Let_def codec)

lemma encodeAttachments_filled:
  assumes "list_all attachment_ok as" "off = length p"
    "k = length (concat (map attachment_wire as))"
  shows "encodeAttachments (filled p k) off as = Inr (p @ concat (map attachment_wire as))"
  using assms
proof (induction as arbitrary: p k off)
  case Nil
  then show ?case by (simp add: codec)
next
  case (Cons a as)
  have "encodeAttachments (filled (p @ attachment_wire a) (length (concat (map attachment_wire as))))
      (length (p @ attachment_wire a)) as =
    Inr ((p @ attachment_wire a) @ concat (map attachment_wire as))"
    using Cons.prems by (intro Cons.IH) simp_all
  with Cons.prems show ?case
    by (simp add: encodeAttachment_filled codec)
qed

lemma foldl_size:
  "foldl (\<lambda>n a. n + attachmentEncodedSize a) n as =
     n + length (concat (map attachment_wire as))"
  by (induction as arbitrary: n) (simp_all add: codec)

lemma Encode_ok:
  assumes "message_ok m"
  shows "Encode m = Inr (message_wire m)"
proof -
  have "UnixNano (msg_Time m) = msg_Time m" "UnixNano (msg_CreatedAt m) = msg_CreatedAt m"
    "UnixNano (msg_UpdatedAt m) = msg_UpdatedAt m"
    using assms by (simp_all add: message_ok_def time_ok_def UnixNano_def int64_id)
  then show ?thesis
    using assms
    by (simp add: Encode_def message_ok_def time_ok_def message_wire_def foldl_size
        encodeAttachments_filled Let_def codec)
qed

subsection \<open>Decoder\<close>

lemma toInt64_ok [codec]:
  "0 \<le> k \<Longrightarrow> k < 2 ^ 63 \<Longrightarrow> toInt64 (of_int k) = Inr k"
  by (simp add: toInt64_def codec)

lemma decodeAttachment_wire:
  assumes "attachment_ok a" "off = length p"
  shows "decodeAttachment (p @ attachment_wire a @ r) off =
    Inr (a, off + attachmentEncodedSize a)"
  using assms
  by (simp add: decodeAttachment_def attachment_ok_def attachmentEncodedSize_def
      attachment_wire_def Let_def codec)

lemma decodeAttachments_wire:
  assumes "list_all attachment_ok as" "off = length p"
  shows "decodeAttachments (length as) (p @ concat (map attachment_wire as) @ r) off = Inr as"
  using assms
proof (induction as arbitrary: p off)
  case Nil
  then show ?case by simp
next
  case (Cons a as)
  have "decodeAttachments (length as) ((p @ attachment_wire a) @ concat (map attachment_wire as) @ r)
      (length (p @ attachment_wire a)) = Inr as"
    using Cons.prems by (intro Cons.IH) simp_all
  with Cons.prems show ?case
    using decodeAttachment_wire [of a off p "concat (map attachment_wire as) @ r"]
    by (simp add: codec)
qed

lemma ToMessage_wire:
  assumes "message_ok m"
  shows "ToMessage (message_wire m @ trail) = Inr m"
proof -
  define h where "h = uuid_bytes (msg_ID m) @ key_bytes (msg_FromPubKey m) @
     nat_be 2 (length (msg_To m)) @ msg_To m @
     nat_be 4 (length (msg_Content m)) @ msg_Content m @
     nat_be 8 (nat (msg_Time m)) @ nat_be 8 (nat (msg_CreatedAt m)) @
     nat_be 8 (nat (msg_UpdatedAt m)) @ nat_be 2 (length (msg_Attachments m))"
  have "decodeAttachments (length (msg_Attachments m))
      (h @ concat (map attachment_wire (msg_Attachments m)) @ trail) (length h) =
      Inr (msg_Attachments m)"
    using assms by (intro decodeAttachments_wire) (simp_all add: message_ok_def)
  then show ?thesis
    using assms
    by (simp add: ToMessage_def message_ok_def time_ok_def message_wire_def h_def Let_def codec
       )
qed

lemma toInt64_Inr_iff [returned]: "toInt64 z = Inr k \<longleftrightarrow> uint z < 2 ^ 63 \<and> k = uint z"
  by (auto simp: toInt64_def)

lemma toInt64_panics [safe]:
  "''message: value overflows int64'' \<in> F \<Longrightarrow> panics_only F (toInt64 z)"
  by (simp add: toInt64_def panics_only_def)

text \<open>The branch on an empty attachment makes no difference to the value read.\<close>

lemma guardR_optional_slice:
  "g = f [] \<Longrightarrow> guardR (\<not> length data < o1 + d) msg
     (if 0 < d then bindR (slice data o1 (o1 + d)) (\<lambda>x. Inr (f x, o1 + d)) else Inr (g, o1)) =
   guardR (\<not> length data < o1 + d) msg (Inr (f (take d (drop o1 data)), o1 + d))"
  by (simp add: guardR_def slice_add)

lemma decodeAttachment_returned:
  assumes "decodeAttachment data off = Inr (a, off')"
  obtains n m z d where
    "n = unat (of_nat (be_nat (take 2 (drop (off + 16) data))) :: 16 word)"
    "m = unat (of_nat (be_nat (take 2 (drop (off + 16 + 2 + n) data))) :: 16 word)"
    "z = (of_nat (be_nat (take 8 (drop (off + 16 + 2 + n + 2 + m) data))) :: 64 word)"
    "d = unat (of_nat (be_nat (take 4 (drop (off + 16 + 2 + n + 2 + m + 8) data))) :: 32 word)"
    "uint z < 2 ^ 63" "off' = off + 16 + 2 + n + 2 + m + 8 + 4 + d" "off' \<le> length data"
    "a = \<lparr>att_ID = uuid_of (take 16 (drop off data)),
          att_Name = take n (drop (off + 16 + 2) data),
          att_MIMEType = take m (drop (off + 16 + 2 + n + 2) data), att_Size = uint z,
          att_Data = take d (drop (off + 16 + 2 + n + 2 + m + 8 + 4) data)\<rparr>"
proof -
  from assms obtain nl ml z k dl idB name mime where
    r: "Uint16 data (off + 16) = Inr nl" "Uint16 data (off + 16 + 2 + unat nl) = Inr ml"
      "Uint64 data (off + 16 + 2 + unat nl + 2 + unat ml) = Inr z"
      "Uint32 data (off + 16 + 2 + unat nl + 2 + unat ml + 8) = Inr dl"
    and z: "toInt64 z = Inr k"
    and s: "slice data off (off + 16) = Inr idB"
      "slice data (off + 16 + 2) (off + 16 + 2 + unat nl) = Inr name"
      "slice data (off + 16 + 2 + unat nl + 2) (off + 16 + 2 + unat nl + 2 + unat ml) = Inr mime"
    and len: "\<not> length data < off + 16 + 2 + unat nl + 2 + unat ml + 8 + 4 + unat dl"
    and a: "a = \<lparr>att_ID = uuid_of idB, att_Name = name, att_MIMEType = mime,
       att_Size = k, att_Data = take (unat dl) (drop (off + 16 + 2 + unat nl + 2 + unat ml + 8 + 4) data)\<rparr>"
    and off': "off' = off + 16 + 2 + unat nl + 2 + unat ml + 8 + 4 + unat dl"
    unfolding decodeAttachment_def Let_def
    by (simp only: guardR_optional_slice bindR_Inr_iff guardR_Inr_iff prod.inject sum.inject) blast
  show thesis
    using r z s len
    by (intro that [of "unat nl" "unat ml" z "unat dl"])
      (simp_all only: returned off' diff_add_inverse not_less a)
qed

lemma decodeAttachment_sound:
  assumes "decodeAttachment data off = Inr (a, off')"
  shows "attachment_ok a" "off' = off + attachmentEncodedSize a" "off' \<le> length data"
    "attachment_wire a @ drop off' data = drop off data"
proof -
  from assms obtain n m z d where
    n: "n = unat (of_nat (be_nat (take 2 (drop (off + 16) data))) :: 16 word)"
    and m: "m = unat (of_nat (be_nat (take 2 (drop (off + 16 + 2 + n) data))) :: 16 word)"
    and z: "z = (of_nat (be_nat (take 8 (drop (off + 16 + 2 + n + 2 + m) data))) :: 64 word)"
    and d: "d = unat (of_nat (be_nat (take 4
              (drop (off + 16 + 2 + n + 2 + m + 8) data))) :: 32 word)"
    and sz: "uint z < 2 ^ 63" and off': "off' = off + 16 + 2 + n + 2 + m + 8 + 4 + d"
    and len: "off' \<le> length data"
    and a: "a = \<lparr>att_ID = uuid_of (take 16 (drop off data)),
          att_Name = take n (drop (off + 16 + 2) data),
          att_MIMEType = take m (drop (off + 16 + 2 + n + 2) data), att_Size = uint z,
          att_Data = take d (drop (off + 16 + 2 + n + 2 + m + 8 + 4) data)\<rparr>"
    by (rule decodeAttachment_returned)
  have small: "n \<le> 65535" "m \<le> 65535" "d \<le> 4294967295"
    by (simp_all add: n m d codec)
  have wire: "nat_be 2 n = take 2 (drop (off + 16) data)"
    "nat_be 2 m = take 2 (drop (off + 16 + 2 + n) data)"
    "nat_be 8 (unat z) = take 8 (drop (off + 16 + 2 + n + 2 + m) data)"
    "nat_be 4 d = take 4 (drop (off + 16 + 2 + n + 2 + m + 8) data)"
    using len by (simp_all add: off' n m d z codec)
  show "attachment_ok a"
    using sz small by (simp add: a attachment_ok_def min.coboundedI2)
  show "off' = off + attachmentEncodedSize a"
    using len by (simp add: a off' attachmentEncodedSize_def)
  show "off' \<le> length data" by (rule len)
  show "attachment_wire a @ drop off' data = drop off data"
    using len wire
    by (simp add: a off' attachment_wire_def uuid_bytes_uuid_of codec min_absorb2)
qed

lemma decodeAttachments_sound:
  "decodeAttachments n data off = Inr as \<Longrightarrow> off \<le> length data \<Longrightarrow>
     length as = n \<and> list_all attachment_ok as \<and>
     (\<exists>trail. drop off data = concat (map attachment_wire as) @ trail)"
proof (induction n arbitrary: off as)
  case 0
  then show ?case by simp
next
  case (Suc n)
  from Suc.prems(1) obtain a off' as' where a: "decodeAttachment data off = Inr (a, off')"
    and as': "decodeAttachments n data off' = Inr as'" and as: "as = a # as'"
    by (auto simp: bindR_Inr_iff)
  note d = decodeAttachment_sound [OF a]
  from Suc.IH [OF as' d(3)] d(1) d(4) [symmetric] as show ?case
    by auto
qed

lemma decodeAttachment_panics [safe]:
  "panics_only {''message: value overflows int64''} (decodeAttachment data off)"
  unfolding decodeAttachment_def Let_def
  by (intro safe) simp_all

lemma decodeAttachments_panics [safe]:
  "panics_only {''message: value overflows int64''} (decodeAttachments n data off)"
  by (induction n arbitrary: off) (auto intro!: safe simp: case_prod_unfold)

lemma ToMessage_panics: "panics_only {''message: value overflows int64''} (ToMessage data)"
  unfolding ToMessage_def Let_def
  by (intro safe) simp_all

lemma ToMessage_returned:
  assumes "ToMessage data = Inr x"
  obtains n m t1 t2 t3 k as where
    "n = unat (of_nat (be_nat (take 2 (drop 48 data))) :: 16 word)"
    "m = unat (of_nat (be_nat (take 4 (drop (50 + n) data))) :: 32 word)"
    "t1 = (of_nat (be_nat (take 8 (drop (54 + n + m) data))) :: 64 word)"
    "t2 = (of_nat (be_nat (take 8 (drop (62 + n + m) data))) :: 64 word)"
    "t3 = (of_nat (be_nat (take 8 (drop (70 + n + m) data))) :: 64 word)"
    "k = unat (of_nat (be_nat (take 2 (drop (78 + n + m) data))) :: 16 word)"
    "uint t1 < 2 ^ 63" "uint t2 < 2 ^ 63" "uint t3 < 2 ^ 63"
    "80 + n + m \<le> length data" "decodeAttachments k data (80 + n + m) = Inr as"
    "x = \<lparr>msg_ID = uuid_of (take 16 data), msg_FromPubKey = key_of (take 32 (drop 16 data)),
          msg_To = take n (drop 50 data), msg_Content = take m (drop (54 + n) data),
          msg_Time = uint t1, msg_CreatedAt = uint t2, msg_UpdatedAt = uint t3,
          msg_Attachments = as\<rparr>"
proof -
  from assms obtain nl ml t1 t2 t3 kl as idB fromB to content where
    r: "Uint16 data (0 + 16 + 32) = Inr nl"
      "Uint32 data (0 + 16 + 32 + 2 + unat nl) = Inr ml"
      "Uint64 data (0 + 16 + 32 + 2 + unat nl + 4 + unat ml) = Inr t1"
      "Uint64 data (0 + 16 + 32 + 2 + unat nl + 4 + unat ml + 8) = Inr t2"
      "Uint64 data (0 + 16 + 32 + 2 + unat nl + 4 + unat ml + 8 + 8) = Inr t3"
      "Uint16 data (0 + 16 + 32 + 2 + unat nl + 4 + unat ml + 8 + 8 + 8) = Inr kl"
    and t: "uint t1 < 2 ^ 63" "uint t2 < 2 ^ 63" "uint t3 < 2 ^ 63"
    and s: "slice data 0 (0 + 16) = Inr idB" "slice data (0 + 16) (0 + 16 + 32) = Inr fromB"
      "slice data (0 + 16 + 32 + 2) (0 + 16 + 32 + 2 + unat nl) = Inr to"
      "slice data (0 + 16 + 32 + 2 + unat nl + 4) (0 + 16 + 32 + 2 + unat nl + 4 + unat ml) =
         Inr content"
    and as: "decodeAttachments (unat kl) data
        (0 + 16 + 32 + 2 + unat nl + 4 + unat ml + 8 + 8 + 8 + 2) = Inr as"
    and x: "\<lparr>msg_ID = uuid_of idB, msg_FromPubKey = key_of fromB, msg_To = to,
         msg_Content = content, msg_Time = uint t1, msg_CreatedAt = uint t2,
         msg_UpdatedAt = uint t3, msg_Attachments = as\<rparr> = x"
    unfolding ToMessage_def Let_def
    by (simp only: bindR_Inr_iff guardR_Inr_iff toInt64_Inr_iff sum.inject) blast
  note r' = r [unfolded Uint_Inr_iff, THEN conjunct2, simplified, unfolded add.assoc]
    and len = r(6) [unfolded Uint_Inr_iff, THEN conjunct1, simplified]
    and s' = s [unfolded slice_Inr_iff, THEN conjunct2, THEN conjunct2, simplified]
  show thesis
    by (rule that [of "unat nl" "unat ml" t1 t2 t3 "unat kl" as])
      (simp_all add: t [simplified] as [simplified] len r' [symmetric] s' x [symmetric] add.assoc)
qed

lemma ToMessage_sound:
  assumes "ToMessage data = Inr x"
  shows "message_ok x \<and> (\<exists>trail. data = message_wire x @ trail)"
proof -
  from assms obtain n m t1 t2 t3 k as where
    n: "n = unat (of_nat (be_nat (take 2 (drop 48 data))) :: 16 word)"
    and m: "m = unat (of_nat (be_nat (take 4 (drop (50 + n) data))) :: 32 word)"
    and t: "t1 = (of_nat (be_nat (take 8 (drop (54 + n + m) data))) :: 64 word)"
      "t2 = (of_nat (be_nat (take 8 (drop (62 + n + m) data))) :: 64 word)"
      "t3 = (of_nat (be_nat (take 8 (drop (70 + n + m) data))) :: 64 word)"
    and k: "k = unat (of_nat (be_nat (take 2 (drop (78 + n + m) data))) :: 16 word)"
    and t_ok: "uint t1 < 2 ^ 63" "uint t2 < 2 ^ 63" "uint t3 < 2 ^ 63"
    and len: "80 + n + m \<le> length data"
    and as: "decodeAttachments k data (80 + n + m) = Inr as"
    and x: "x = \<lparr>msg_ID = uuid_of (take 16 data), msg_FromPubKey = key_of (take 32 (drop 16 data)),
          msg_To = take n (drop 50 data), msg_Content = take m (drop (54 + n) data),
          msg_Time = uint t1, msg_CreatedAt = uint t2, msg_UpdatedAt = uint t3,
          msg_Attachments = as\<rparr>"
    by (rule ToMessage_returned)
  from decodeAttachments_sound [OF as len] obtain trail where
    lk: "length as = k" and aok: "list_all attachment_ok as"
    and trail: "drop (80 + n + m) data = concat (map attachment_wire as) @ trail" by blast
  have small: "n \<le> 65535" "m \<le> 4294967295" "k \<le> 65535"
    by (simp_all add: n m k codec)
  have wire: "nat_be 2 n = take 2 (drop 48 data)" "nat_be 4 m = take 4 (drop (50 + n) data)"
    "nat_be 8 (unat t1) = take 8 (drop (54 + n + m) data)"
    "nat_be 8 (unat t2) = take 8 (drop (62 + n + m) data)"
    "nat_be 8 (unat t3) = take 8 (drop (70 + n + m) data)"
    "nat_be 2 k = take 2 (drop (78 + n + m) data)"
    using len by (simp_all add: n m t k codec)
  have "message_ok x"
    using t_ok small aok lk by (simp add: x message_ok_def time_ok_def min.coboundedI2)
  moreover have "data = message_wire x @ trail"
    using len wire lk trail [symmetric]
    by (simp add: x message_wire_def key_bytes_key_of uuid_bytes_uuid_of codec min_absorb2
        append_take_drop_id)
  ultimately show ?thesis by blast
qed

interpretation msg: exact_format message_wire ToMessage message_ok
  by unfold_locales (simp_all add: ToMessage_wire ToMessage_sound)

subsection \<open>What the encoder refuses\<close>

text \<open>
  The times of a message are within the range of \<open>UnixNano\<close>, and an attachment's size is an
  \<open>int64\<close>: what the source's types and its clock guarantee.
\<close>

definition int64_range :: "int \<Rightarrow> bool" where
  "int64_range x \<longleftrightarrow> - (2 ^ 63) \<le> x \<and> x < 2 ^ 63"

definition message_typed :: "message \<Rightarrow> bool" where
  "message_typed m \<longleftrightarrow> int64_range (msg_Time m) \<and> int64_range (msg_CreatedAt m) \<and>
     int64_range (msg_UpdatedAt m) \<and> list_all (\<lambda>a. int64_range (att_Size a)) (msg_Attachments m)"

definition no_error :: "'a result \<Rightarrow> bool" where
  "no_error r = (case r of Inl (Err _) \<Rightarrow> False | _ \<Rightarrow> True)"

lemma no_error_bindR: "no_error r \<Longrightarrow> (\<And>v. no_error (f v)) \<Longrightarrow> no_error (bindR r f)"
  by (cases r) (auto simp: no_error_def split: fault.splits)

lemma no_error_writes:
  "no_error (Inr v)" "no_error (copy_at buf off src)" "no_error (PutUint16 buf off v16)"
  "no_error (PutUint32 buf off v32)" "no_error (PutUint64 buf off v64)" "no_error (toWireUint n)"
  by (simp_all add: no_error_def copy_at_def PutUint16_def PutUint32_def PutUint64_def put_be_def
      toWireUint_def Let_def)

lemma no_error_encodeAttachments: "no_error (encodeAttachments buf off as)"
proof (induction as arbitrary: buf off)
  case Nil
  show ?case by (simp add: no_error_writes)
next
  case (Cons a as)
  have "no_error (encodeAttachment buf off a)"
    unfolding encodeAttachment_def Let_def by (intro no_error_bindR no_error_writes)
  with Cons show ?case
    by (auto intro!: no_error_bindR)
qed

lemma no_error_Encode: "no_error (Encode m)"
  unfolding Encode_def Let_def
  by (intro no_error_bindR no_error_writes no_error_encodeAttachments)

lemma toWireUint_bound:
  "toWireUint (int n) = Inr (v :: 16 word) \<Longrightarrow> n \<le> 65535"
  "toWireUint (int m) = Inr (w :: 32 word) \<Longrightarrow> m \<le> 4294967295"
  "toWireUint k = Inr (z :: 64 word) \<Longrightarrow> 0 \<le> k"
  by (auto simp: toWireUint_def unsigned_minus_1_eq_mask mask_eq_exp_minus_1 split: if_splits)

lemma encodeAttachment_bounds:
  "encodeAttachment buf off a = Inr r \<Longrightarrow> int64_range (att_Size a) \<Longrightarrow> attachment_ok a"
  unfolding encodeAttachment_def Let_def bindR_Inr_iff attachment_ok_def int64_range_def
  by (blast dest: toWireUint_bound)

lemma encodeAttachments_bounds:
  "encodeAttachments buf off as = Inr r \<Longrightarrow> list_all (\<lambda>a. int64_range (att_Size a)) as \<Longrightarrow>
     list_all attachment_ok as"
  by (induction as arbitrary: buf off) (auto simp: bindR_Inr_iff dest: encodeAttachment_bounds)

lemma Encode_bounds:
  assumes "Encode m = Inr bs" "message_typed m"
  shows "message_ok m"
proof -
  have nano: "UnixNano (msg_Time m) = msg_Time m" "UnixNano (msg_CreatedAt m) = msg_CreatedAt m"
    "UnixNano (msg_UpdatedAt m) = msg_UpdatedAt m"
    using assms(2) by (simp_all add: message_typed_def int64_range_def UnixNano_def int64_id)
  show ?thesis
    using assms
    unfolding Encode_def Let_def bindR_Inr_iff nano message_ok_def time_ok_def message_typed_def
      int64_range_def
    by (blast dest: toWireUint_bound encodeAttachments_bounds [unfolded int64_range_def])
qed

lemma Encode_Inr_iff:
  assumes "message_typed m"
  shows "Encode m = Inr bs \<longleftrightarrow> message_ok m \<and> bs = message_wire m"
  using Encode_bounds [OF _ assms] Encode_ok by fastforce

lemma Encode_panic_iff: "message_typed m \<Longrightarrow> is_panic (Encode m) \<longleftrightarrow> \<not> message_ok m"
  using no_error_Encode [of m] Encode_Inr_iff [of m]
  by (cases "Encode m") (auto simp: no_error_def split: fault.splits)

lemma message_ok_typed: "message_ok m \<Longrightarrow> message_typed m"
  by (auto simp: message_ok_def message_typed_def time_ok_def int64_range_def attachment_ok_def
      list_all_iff)

subsection \<open>Properties\<close>

text \<open>
  C33: \<open>Encode\<close> panics exactly on the messages that do not fit the format (a name, content or
  attachment count too long for its length field, a negative time or size); on every other message
  its buffer has exactly the computed size, is filled completely, and \<open>ToMessage\<close> gives the
  message back, whatever follows the encoding.
\<close>

theorem message_roundtrip:
  assumes "message_typed m"
  shows "(is_panic (Encode m) \<longleftrightarrow> \<not> message_ok m) \<and>
    (Encode m = Inr bs \<longrightarrow> ToMessage (bs @ trail) = Inr m)"
  using assms Encode_panic_iff Encode_Inr_iff msg.roundtrip by auto

definition sample_message :: message where
  "sample_message = \<lparr>msg_ID = 9, msg_FromPubKey = 3, msg_To = str ''bob'', msg_Content = str ''hi'',
     msg_Time = 5, msg_CreatedAt = 6, msg_UpdatedAt = 7,
     msg_Attachments = [\<lparr>att_ID = 4, att_Name = str ''a'', att_MIMEType = [], att_Size = 2,
       att_Data = [1, 2]\<rparr>]\<rparr>"

lemma sample_message_ok: "message_ok sample_message"
  by (simp add: sample_message_def message_ok_def time_ok_def attachment_ok_def str_def)

theorem message_roundtrip_witness:
  "\<not> is_panic (Encode sample_message) \<and>
   Encode sample_message = Inr (message_wire sample_message) \<and>
   ToMessage (message_wire sample_message @ [7]) = Inr sample_message"
proof -
  have t: "message_typed sample_message"
    by (rule message_ok_typed [OF sample_message_ok])
  have e: "Encode sample_message = Inr (message_wire sample_message)"
    by (rule Encode_ok [OF sample_message_ok])
  with message_roundtrip [OF t, of "message_wire sample_message" "[7]"] show ?thesis by simp
qed

text \<open>
  On arbitrary bytes \<open>ToMessage\<close> reads inside its buffer: the only panic it can raise is that of
  \<open>toInt64\<close>.  It returns a message exactly when the buffer starts with the encoding of one that
  fits the format.
\<close>

theorem ToMessage_exact:
  "panics_only {''message: value overflows int64''} (ToMessage data) \<and>
   (ToMessage data = Inr m \<longleftrightarrow> message_ok m \<and> (\<exists>trail. data = message_wire m @ trail))"
  using ToMessage_panics msg.dec_iff by blast

text \<open>
  A peer can make \<open>ToMessage\<close> panic: whenever the send time on the wire has its top bit set,
  decoding an otherwise well-formed message does not return an error but panics, and no caller of
  \<open>ToMessage\<close> recovers.
\<close>

theorem ToMessage_remote_panic:
  assumes "length to \<le> 65535" "length content \<le> 4294967295" "2 ^ 63 \<le> t" "t < 2 ^ 64"
  shows "ToMessage (uuid_bytes uid @ key_bytes from @ nat_be 2 (length to) @ to @
      nat_be 4 (length content) @ content @ nat_be 8 t @ nat_be 8 t2 @ nat_be 8 t3 @ nat_be 2 n @
      rest) = Inl (Panic ''message: value overflows int64'')"
proof -
  have "toInt64 (of_nat t) = Inl (Panic ''message: value overflows int64'')"
    using assms(3,4) by (simp add: toInt64_def uint_nat unat_of_nat)
  then show ?thesis
    using assms(1,2) by (simp add: ToMessage_def Let_def codec)
qed

theorem ToMessage_remote_panic_witness:
  "ToMessage (uuid_bytes 1 @ key_bytes 2 @ nat_be 2 0 @ nat_be 4 0 @ nat_be 8 (2 ^ 63) @
      nat_be 8 0 @ nat_be 8 0 @ nat_be 2 0) = Inl (Panic ''message: value overflows int64'')"
  using ToMessage_remote_panic [of "[]" "[]" "2 ^ 63" 1 2 0 0 0 "[]"] by simp

end
