(* ===== verification/MessageStore.thy ===== *)
theory MessageStore
  imports MessageCodec Store
begin

text \<open>
  Messages in the database, from \<open>message/message.go\<close>: storing, reading (through the plaintext cache),
  updating, deleting and searching messages, and storing attachments.  A function that changes the
  message behind its pointer argument returns the changed message too.
\<close>

subsection \<open>Operations\<close>

definition NewMessage ::
  "ext \<Rightarrow> gostring \<Rightarrow> gostring \<Rightarrow> attachment list \<Rightarrow> 'z world_scheme \<Rightarrow> message \<times> 'z world_scheme" where
  "NewMessage x to content atts s =
     (let (now, s) = Now x s; (i, s) = uuid_New x s
      in (\<lparr>msg_ID = i, msg_FromPubKey = NilKey, msg_To = to, msg_Content = content, msg_Time = now,
           msg_CreatedAt = now, msg_UpdatedAt = now, msg_Attachments = atts\<rparr>, s))"

text \<open>The loop returns at the first failing write; the attachments before it are already changed.\<close>

fun StoreAttachments ::
  "ext \<Rightarrow> key \<Rightarrow> gostring \<Rightarrow> attachment list \<Rightarrow> 'z store_scheme \<Rightarrow>
    unit result \<times> attachment list \<times> 'z store_scheme" where
  "StoreAttachments x secret msgID [] s = (Inr (), [], s)"
| "StoreAttachments x secret msgID (a # as) s =
     (if att_Data a = []
      then (let (r, as', s) = StoreAttachments x secret msgID as s in (r, a # as', s))
      else (let (i, s) = (if att_ID a = uuid_Nil then uuid_New x s else (att_ID a, s))
            in case wrapS ''message: store attachment''
                 (files_PutWithID x secret i msgID (att_Data a) s) of
                 (Inl e, s) \<Rightarrow> (Inl e, a # as, s)
               | (Inr _, s) \<Rightarrow>
                   (let (r, as', s) = StoreAttachments x secret msgID as s
                    in (r, a\<lparr>att_ID := i, att_Size := int (length (att_Data a)), att_Data := []\<rparr> # as', s))))"

definition indexAndCache ::
  "ext \<Rightarrow> uuid \<Rightarrow> gostring \<Rightarrow> message \<Rightarrow> bytes \<Rightarrow> 'z store_scheme \<Rightarrow> 'z store_scheme" where
  "indexAndCache x i fromName msg plain s =
     CacheStore x i plain (snd (IndexSearch x i fromName (msg_To msg) (searchText msg) s))"

definition loadPlain ::
  "ext \<Rightarrow> key \<Rightarrow> uuid \<Rightarrow> 'z store_scheme \<Rightarrow> gostring result \<times> 'z store_scheme" where
  "loadPlain x secret i s =
     (let (cached, s) = CacheLoad x i s
      in case cached of
           Some v \<Rightarrow> (Inr v, s)
         | None \<Rightarrow> bindS (wrapS ''message: store get'' (chats_Get x i secret s))
             (\<lambda>plain s. (Inr plain, CacheStore x i plain s)))"

definition message_Put ::
  "ext \<Rightarrow> key \<Rightarrow> gostring \<Rightarrow> message \<Rightarrow> 'z store_scheme \<Rightarrow> uuid result \<times> message \<times> 'z store_scheme" where
  "message_Put x secret fromName msg s =
     (case wrapR ''message: encode'' (Encode msg) of
        Inl e \<Rightarrow> (Inl e, msg, s)
      | Inr plain \<Rightarrow>
          (let (i, s) = (if msg_ID msg = uuid_Nil then uuid_New x s else (msg_ID msg, s));
               msg = msg\<lparr>msg_ID := i\<rparr>
           in case wrapS ''message: store put'' (chats_PutWithID x i plain secret s) of
                (Inl e, s) \<Rightarrow> (Inl e, msg, s)
              | (Inr _, s) \<Rightarrow> (Inr i, msg, indexAndCache x i fromName msg plain s)))"

definition message_Get ::
  "ext \<Rightarrow> key \<Rightarrow> uuid \<Rightarrow> 'z store_scheme \<Rightarrow> message result \<times> 'z store_scheme" where
  "message_Get x secret i s =
     bindS (loadPlain x secret i s) (\<lambda>plain s.
     bindS (wrapS ''message: decode'' (liftR (ToMessage plain) s)) (\<lambda>msg s.
       (Inr (msg\<lparr>msg_ID := i\<rparr>), s)))"

definition message_Update ::
  "ext \<Rightarrow> key \<Rightarrow> uuid \<Rightarrow> gostring \<Rightarrow> message \<Rightarrow> 'z store_scheme \<Rightarrow> unit result \<times> 'z store_scheme" where
  "message_Update x secret i fromName msg s =
     bindS (catchS (message_Get x secret i s) (\<lambda>_ s. (Inr msg, s))
         (\<lambda>existing s. (Inr (msg\<lparr>msg_CreatedAt := msg_CreatedAt existing\<rparr>), s))) (\<lambda>msg s.
       let (now, s) = Now x s; msg = msg\<lparr>msg_UpdatedAt := now\<rparr> in
       bindS (wrapS ''message: encode'' (liftR (Encode msg) s)) (\<lambda>plain s.
       bindS (wrapS ''message: store update'' (chats_Update x i plain secret s)) (\<lambda>_ s.
         (Inr (), indexAndCache x i fromName msg plain s))))"

fun delete_attachments :: "ext \<Rightarrow> attachment list \<Rightarrow> 'z store_scheme \<Rightarrow> 'z store_scheme" where
  "delete_attachments x [] s = s"
| "delete_attachments x (a # as) s = delete_attachments x as (snd (files_Delete x (att_ID a) s))"

definition message_Delete ::
  "ext \<Rightarrow> key \<Rightarrow> uuid \<Rightarrow> 'z store_scheme \<Rightarrow> unit result \<times> 'z store_scheme" where
  "message_Delete x secret i s =
     bindS (catchS (loadPlain x secret i s) (\<lambda>_ s. (Inr (), s)) (\<lambda>plain s.
         catchS (liftR (ToMessage plain) s) (\<lambda>_ s. (Inr (), s))
           (\<lambda>msg s. (Inr (), delete_attachments x (msg_Attachments msg) s)))) (\<lambda>_ s.
     bindS (wrapS ''message: store delete'' (chats_Delete x i s)) (\<lambda>_ s. (Inr (), s)))"

text \<open>The loop of \<open>Search\<close>: an id that does not parse or a message that cannot be read is skipped.\<close>

fun search_load ::
  "ext \<Rightarrow> key \<Rightarrow> gostring list \<Rightarrow> 'z store_scheme \<Rightarrow> message list result \<times> 'z store_scheme" where
  "search_load x secret [] s = (Inr [], s)"
| "search_load x secret (t # ts) s =
     (case x_uuid_Parse x t of
        None \<Rightarrow> search_load x secret ts s
      | Some i \<Rightarrow> catchS (message_Get x secret i s) (\<lambda>_ s. search_load x secret ts s)
          (\<lambda>msg s. bindS (search_load x secret ts s) (\<lambda>out s. (Inr (msg # out), s))))"

definition message_Search ::
  "ext \<Rightarrow> key \<Rightarrow> gostring \<Rightarrow> int \<Rightarrow> 'z store_scheme \<Rightarrow> message list result \<times> 'z store_scheme" where
  "message_Search x secret query limit s =
     (if query = [] then (Inr [], s)
      else bindS (wrapS ''message: search index'' (chats_Search x query limit s))
        (\<lambda>ids s. search_load x secret ids s))"

subsection \<open>The cache\<close>

text \<open>The plaintext the database holds under a key text, and a cache that only holds such plaintexts.\<close>

definition stored :: "ext \<Rightarrow> key \<Rightarrow> 'z store_scheme \<Rightarrow> gostring \<Rightarrow> gostring option" where
  "stored x secret s k =
     (case lookup_row ch_id (chats s) k of
        None \<Rightarrow> None
      | Some r \<Rightarrow> (case decrypt x secret (ch_value r) of Inr v \<Rightarrow> Some v | Inl _ \<Rightarrow> None))"

definition cache_coherent :: "ext \<Rightarrow> key \<Rightarrow> 'z store_scheme \<Rightarrow> bool" where
  "cache_coherent x secret s \<longleftrightarrow> (\<forall>k v. cache s k = Some v \<longrightarrow> stored x secret s k = Some v)"

text \<open>The footprint of a read: the tick and the cache.\<close>

definition only_cache :: "'z store_scheme \<Rightarrow> 'z store_scheme \<Rightarrow> bool" where
  "only_cache s s' \<longleftrightarrow> (\<exists>t c. s' = s\<lparr>tick := t, cache := c\<rparr> \<and> tick s \<le> t)"

text \<open>The footprint of a message write: those, and the two message tables.\<close>

definition only_chats :: "'z store_scheme \<Rightarrow> 'z store_scheme \<Rightarrow> bool" where
  "only_chats s s' \<longleftrightarrow>
     (\<exists>t c cs se. s' = s\<lparr>tick := t, cache := c, chats := cs, chat_search := se\<rparr> \<and> tick s \<le> t)"

lemma only_cache_simps:
  "only_cache s s' \<Longrightarrow> chats s' = chats s" "only_cache s s' \<Longrightarrow> chat_search s' = chat_search s"
  by (auto simp: only_cache_def)

lemma only_chats_simps:
  assumes "only_chats s s'"
  shows "files s' = files s" "known_peers s' = known_peers s" "outbox s' = outbox s"
    "profile s' = profile s" "store.more s' = store.more s" "tick s \<le> tick s'"
  using assms by (auto simp: only_chats_def)

lemma only_cache_refl [simp]: "only_cache s s"
  unfolding only_cache_def by (rule exI [of _ "tick s"], rule exI [of _ "cache s"]) simp

lemma only_cache_trans: "only_cache s t \<Longrightarrow> only_cache t u \<Longrightarrow> only_cache s u"
  by (force simp: only_cache_def)

lemma only_chats_trans: "only_chats s t \<Longrightarrow> only_chats t u \<Longrightarrow> only_chats s u"
  by (force simp: only_chats_def)

lemma only_cache_chats:
  assumes "only_cache s t"
  shows "only_chats s t"
proof -
  obtain n c where "t = s\<lparr>tick := n, cache := c\<rparr>" "tick s \<le> n"
    using assms by (auto simp: only_cache_def)
  then have "t = s\<lparr>tick := n, cache := c, chats := chats s, chat_search := chat_search s\<rparr>" "tick s \<le> n"
    by simp_all
  then show ?thesis unfolding only_chats_def by blast
qed

lemma only_cacheI:
  "tick s \<le> t \<Longrightarrow> only_cache s (s\<lparr>tick := t\<rparr>)" "only_cache s (s\<lparr>cache := c\<rparr>)"
  "tick s \<le> t \<Longrightarrow> only_cache s (s\<lparr>tick := t, cache := c\<rparr>)"
proof -
  have "s\<lparr>tick := t\<rparr> = s\<lparr>tick := t, cache := cache s\<rparr>" "s\<lparr>cache := c\<rparr> = s\<lparr>tick := tick s, cache := c\<rparr>"
    by simp_all
  then show "tick s \<le> t \<Longrightarrow> only_cache s (s\<lparr>tick := t\<rparr>)" "only_cache s (s\<lparr>cache := c\<rparr>)"
    "tick s \<le> t \<Longrightarrow> only_cache s (s\<lparr>tick := t, cache := c\<rparr>)"
    unfolding only_cache_def by blast+
qed

lemma stored_cong: "chats s' = chats s \<Longrightarrow> stored x secret s' = stored x secret s"
  by (simp add: stored_def fun_eq_iff)

lemma coherent_cong:
  "chats s' = chats s \<Longrightarrow> cache s' = cache s \<Longrightarrow> cache_coherent x secret s' = cache_coherent x secret s"
  by (simp add: cache_coherent_def stored_cong [of s' s])

lemma coherent_tick [simp]:
  "cache_coherent x secret (s\<lparr>tick := t\<rparr>) = cache_coherent x secret s"
  "stored x secret (s\<lparr>tick := t\<rparr>) = stored x secret s"
  by (simp_all add: coherent_cong [of "s\<lparr>tick := t\<rparr>" s] stored_cong [of "s\<lparr>tick := t\<rparr>" s])

lemma CacheLoad_spec:
  assumes "cache_coherent x secret s" "CacheLoad x i s = (c, s')"
  shows "only_cache s s' \<and> cache_coherent x secret s' \<and>
    (\<forall>v. c = Some v \<longrightarrow> stored x secret s (x_uuid_String x i) = Some v)"
  using assms
  by (auto simp: CacheLoad_def cache_Delete_def cache_coherent_def stored_def Let_def
      split: if_splits intro!: only_cacheI)

lemma coherent_CacheStore:
  assumes "cache_coherent x secret s" "stored x secret s (x_uuid_String x i) = Some v"
  shows "cache_coherent x secret (CacheStore x i v s)"
  using assms by (auto simp: cache_coherent_def CacheStore_def stored_def)

lemma chats_Get_stored:
  "snd (chats_Get x i secret s) = s\<lparr>tick := Suc (tick s)\<rparr>"
  "\<not> is_panic (fst (chats_Get x i secret s))"
  "fst (chats_Get x i secret s) = Inr v \<longleftrightarrow>
     x_db x (tick s) \<and> stored x secret s (x_uuid_String x i) = Some v"
  using decrypt_no_panic [of x secret]
  by (auto simp: chats_Get_eq stored_def split: option.splits sum.splits)

lemma loadPlain_spec:
  assumes "cache_coherent x secret s" "loadPlain x secret i s = (r, s')"
  shows "only_cache s s' \<and> cache_coherent x secret s' \<and> \<not> is_panic r \<and>
    (\<forall>v. r = Inr v \<longrightarrow> stored x secret s (x_uuid_String x i) = Some v)"
proof -
  obtain c s1 where load: "CacheLoad x i s = (c, s1)" by fastforce
  note l = CacheLoad_spec [OF assms(1) load]
  then have st: "stored x secret s1 = stored x secret s"
    by (auto intro!: stored_cong only_cache_simps)
  show ?thesis
  proof (cases c)
    case (Some v)
    with assms(2) load l show ?thesis by (auto simp: loadPlain_def)
  next
    case None
    obtain g s2 where get: "chats_Get x i secret s1 = (g, s2)" by fastforce
    then have s2: "s2 = s1\<lparr>tick := Suc (tick s1)\<rparr>" and np: "\<not> is_panic g"
      and g: "\<And>v. g = Inr v \<Longrightarrow> stored x secret s (x_uuid_String x i) = Some v"
      using chats_Get_stored [of x i secret s1] st by auto
    have c2: "only_cache s s2" "cache_coherent x secret s2"
      using l only_cache_trans [OF _ only_cacheI(1) [of s1 "Suc (tick s1)"], of s]
      by (simp_all add: s2 coherent_cong [of "s1\<lparr>tick := Suc (tick s1)\<rparr>" s1])
    show ?thesis
    proof (cases g)
      case (Inl e)
      with None load get assms(2) np c2 show ?thesis by (auto simp: loadPlain_def is_panic_Inl)
    next
      case (Inr v)
      have "cache_coherent x secret (CacheStore x i v s2)"
        using g [OF Inr] st by (intro coherent_CacheStore [OF c2(2)]) (simp add: s2 stored_cong [of s2 s1])
      moreover have "only_cache s (CacheStore x i v s2)"
        using only_cache_trans [OF c2(1) only_cacheI(2)] by (simp add: CacheStore_def)
      ultimately show ?thesis
        using None load get assms(2) Inr g by (auto simp: loadPlain_def)
    qed
  qed
qed

text \<open>The other direction: while the database answers, what is stored is what is loaded.\<close>

lemma loadPlain_stored:
  assumes "cache_coherent x secret s" "stored x secret s (x_uuid_String x i) = Some v"
    and "x_db x (Suc (tick s))"
  shows "fst (loadPlain x secret i s) = Inr v"
proof -
  obtain c s1 where load: "CacheLoad x i s = (c, s1)" by fastforce
  have s1: "tick s1 = Suc (tick s)" "chats s1 = chats s"
    using load by (auto simp: CacheLoad_def cache_Delete_def Let_def split: if_splits)
  have "fst (chats_Get x i secret s1) = Inr v"
    using assms s1 by (simp add: chats_Get_stored stored_cong [of s1 s])
  moreover have "c = Some w \<Longrightarrow> w = v" for w
    using CacheLoad_spec [OF assms(1) load] assms(2) by simp
  ultimately show ?thesis
    using load by (cases "chats_Get x i secret s1") (auto simp: loadPlain_def split: option.split)
qed

subsection \<open>Effects of the operations\<close>

lemma stored_update:
  "aead_laws x \<Longrightarrow> chats s' = replace_row ch_id (chat_row x i v secret t) (chats s) \<Longrightarrow>
    stored x secret s' = (stored x secret s)(x_uuid_String x i := Some v)"
  by (rule ext) (simp add: stored_def table_look, simp add: chat_row_def)

lemma chats_PutWithID_spec:
  assumes "aead_laws x" "chats_PutWithID x i v secret s = (r, s')"
  shows "only_chats s s' \<and> \<not> is_panic r \<and>
    (r = Inr () \<longrightarrow> stored x secret s' = (stored x secret s)(x_uuid_String x i := Some v) \<and>
       cache s' = (cache s)(x_uuid_String x i := None) \<and> chat_search s' = chat_search s) \<and>
    (r \<noteq> Inr () \<longrightarrow> only_cache s s' \<and> cache s' = cache s)"
proof (cases "x_db x (tick s + 2)")
  case True
  with assms(2) have r: "r = Inr ()"
    and s': "s' = s\<lparr>tick := tick s + 3, chats := replace_row ch_id (chat_row x i v secret (tick s)) (chats s),
      cache := (cache s)(x_uuid_String x i := None)\<rparr>"
    by (auto simp: chats_PutWithID_eq Let_def)
  have "s' = s\<lparr>tick := tick s + 3, cache := (cache s)(x_uuid_String x i := None),
      chats := replace_row ch_id (chat_row x i v secret (tick s)) (chats s),
      chat_search := chat_search s\<rparr>"
    by (simp add: s')
  then have "only_chats s s'" unfolding only_chats_def by (metis le_add1)
  moreover have "stored x secret s' = (stored x secret s)(x_uuid_String x i := Some v)"
    by (rule stored_update [OF assms(1)]) (simp add: s')
  ultimately show ?thesis by (simp add: r s')
next
  case False
  with assms(2) have "r = Inl (Err (Wrap ''store: put'' db_error))" "s' = s\<lparr>tick := tick s + 3\<rparr>"
    by (auto simp: chats_PutWithID_eq Let_def)
  then show ?thesis using only_cacheI(1) [of s "tick s + 3"] only_cache_chats by auto
qed

lemma indexAndCache_spec:
  "only_chats s (indexAndCache x i fromName msg plain s)"
  "chats (indexAndCache x i fromName msg plain s) = chats s"
  "cache (indexAndCache x i fromName msg plain s) = (cache s)(x_uuid_String x i := Some plain)"
proof -
  let ?s = "indexAndCache x i fromName msg plain s"
  show c: "chats ?s = chats s" "cache ?s = (cache s)(x_uuid_String x i := Some plain)"
    by (simp_all add: indexAndCache_def CacheStore_def IndexSearch_def db_exec_eq)
  have "?s = s\<lparr>tick := Suc (tick s), cache := cache ?s, chats := chats s, chat_search := chat_search ?s\<rparr>"
    by (simp add: indexAndCache_def CacheStore_def IndexSearch_def db_exec_eq)
  then show "only_chats s ?s" unfolding only_chats_def by (metis le_SucI order_refl)
qed

lemma coherent_put:
  assumes "cache_coherent x secret s" "stored x secret s' = (stored x secret s)(k := Some v)"
    and "cache s' = (cache s)(k := c)" "c = None \<or> c = Some v"
  shows "cache_coherent x secret s'"
  using assms by (auto simp: cache_coherent_def)

lemma coherent_failed:
  "cache_coherent x secret s \<Longrightarrow> only_cache s s' \<Longrightarrow> cache s' = cache s \<Longrightarrow> cache_coherent x secret s'"
  using coherent_cong [of s' s x secret] only_cache_simps(1) [of s s'] by simp

text \<open>Writing a row, indexing it and caching its text.\<close>

lemma put_index_cache_spec:
  assumes "aead_laws x" "cache_coherent x secret s" "chats_PutWithID x i plain secret s = (Inr u, s1)"
    and "s' = indexAndCache x i fromName msg plain s1"
  shows "only_chats s s' \<and> cache_coherent x secret s' \<and>
    stored x secret s' = (stored x secret s)(x_uuid_String x i := Some plain)"
proof -
  note p = chats_PutWithID_spec [OF assms(1,3), simplified]
  note ic = indexAndCache_spec [where s = s1 and x = x and i = i and fromName = fromName and
      msg = msg and plain = plain, folded assms(4)]
  have st: "stored x secret s' = (stored x secret s)(x_uuid_String x i := Some plain)"
    using p stored_cong [OF ic(2), of x secret] by simp
  moreover have "cache_coherent x secret s'"
    by (rule coherent_put [OF assms(2) st]) (use p ic(3) in auto)
  ultimately show ?thesis using p ic(1) by (blast intro: only_chats_trans)
qed

definition put_id :: "ext \<Rightarrow> message \<Rightarrow> 'z store_scheme \<Rightarrow> uuid" where
  "put_id x msg s = (if msg_ID msg = uuid_Nil then x_uuid_New x (tick s) else msg_ID msg)"

lemma message_Put_spec:
  assumes "aead_laws x" "cache_coherent x secret s"
    and "message_Put x secret fromName msg s = (r, msg', s')"
  shows "only_chats s s' \<and> cache_coherent x secret s' \<and>
    (\<forall>i. r = Inr i \<longrightarrow> i = put_id x msg s \<and> msg' = msg\<lparr>msg_ID := i\<rparr> \<and>
       (\<exists>plain. Encode msg = Inr plain \<and>
          stored x secret s' = (stored x secret s)(x_uuid_String x i := Some plain))) \<and>
    (\<forall>e. r = Inl e \<longrightarrow> chats s' = chats s)"
proof (cases "Encode msg")
  case (Inl e)
  then have "s' = s" and r: "\<exists>e. r = Inl e"
    using assms(3) by (cases e; auto simp: message_Put_def)+
  then show ?thesis using assms(2) only_cache_chats [OF only_cache_refl, of s] by auto
next
  case (Inr plain)
  define s0 where "s0 = (if msg_ID msg = uuid_Nil then s\<lparr>tick := Suc (tick s)\<rparr> else s)"
  define i where "i = put_id x msg s"
  have s0: "only_cache s s0" "cache s0 = cache s" "cache_coherent x secret s0"
    "stored x secret s0 = stored x secret s"
    using assms(2) only_cacheI(1) [of s "Suc (tick s)"]
    by (auto simp: s0_def)
  obtain q s1 where put: "chats_PutWithID x i plain secret s0 = (q, s1)" by fastforce
  note p = chats_PutWithID_spec [OF assms(1) put]
  have eq: "message_Put x secret fromName msg s =
      (case q of Inl e \<Rightarrow> (wrapR ''message: store put'' (Inl e), msg\<lparr>msg_ID := i\<rparr>, s1)
       | Inr _ \<Rightarrow> (Inr i, msg\<lparr>msg_ID := i\<rparr>, indexAndCache x i fromName (msg\<lparr>msg_ID := i\<rparr>) plain s1))"
    using Inr put
    by (cases q) (auto simp: message_Put_def uuid_New_def i_def put_id_def s0_def Let_def wrapR_def
        split: fault.split)
  show ?thesis
  proof (cases q)
    case (Inl e)
    then have "s' = s1" "\<exists>e. r = Inl e" "only_cache s s1" "cache s1 = cache s"
      using assms(3) eq p s0 only_cache_trans [of s s0 s1]
      by (cases e; auto)+
    then show ?thesis
      using assms(2) by (auto intro: coherent_failed only_cache_chats only_cache_simps)
  next
    case (Inr u)
    then have r: "r = Inr i" "msg' = msg\<lparr>msg_ID := i\<rparr>"
      and s': "s' = indexAndCache x i fromName (msg\<lparr>msg_ID := i\<rparr>) plain s1"
      using assms(3) eq by auto
    from put_index_cache_spec [OF assms(1) s0(3) put [unfolded Inr] s'] s0 r \<open>Encode msg = Inr plain\<close>
    show ?thesis
      using only_chats_trans [OF only_cache_chats [OF s0(1)], of s'] by (auto simp: i_def)
  qed
qed

lemma message_Get_spec:
  assumes "cache_coherent x secret s" "message_Get x secret i s = (r, s')"
  shows "only_cache s s' \<and> cache_coherent x secret s' \<and>
    (\<forall>m. r = Inr m \<longrightarrow> (\<exists>plain m0. stored x secret s (x_uuid_String x i) = Some plain \<and>
       ToMessage plain = Inr m0 \<and> m = m0\<lparr>msg_ID := i\<rparr>))"
proof -
  obtain q s1 where "loadPlain x secret i s = (q, s1)" by fastforce
  with loadPlain_spec [OF assms(1) this] assms(2) show ?thesis
    by (cases q) (auto simp: message_Get_def liftR_def bindS_def split: sum.splits)
qed

lemma message_Get_stored:
  assumes "cache_coherent x secret s" "stored x secret s (x_uuid_String x i) = Some plain"
    and "x_db x (Suc (tick s))"
  shows "fst (message_Get x secret i s) =
    wrapR ''message: decode'' (bindR (ToMessage plain) (\<lambda>m. Inr (m\<lparr>msg_ID := i\<rparr>)))"
proof -
  obtain s1 where "loadPlain x secret i s = (Inr plain, s1)"
    using loadPlain_stored [OF assms] by (metis prod.collapse)
  then show ?thesis
    by (cases "ToMessage plain") (auto simp: message_Get_def liftR_def wrapR_def split: fault.split)
qed

lemma chats_Update_spec:
  assumes "aead_laws x" "chats_Update x i v secret s = (r, s')"
  shows "(\<exists>s1. only_cache s s1 \<and> cache s1 = cache s \<and> chats_PutWithID x i v secret s1 = (r, s') \<and>
      lookup_row ch_id (chats s) (x_uuid_String x i) \<noteq> None) \<or>
    (\<exists>e. r = Inl (Err e)) \<and> only_cache s s' \<and> cache s' = cache s"
proof -
  have "only_cache s (s\<lparr>tick := Suc (tick s)\<rparr>)" "cache (s\<lparr>tick := Suc (tick s)\<rparr>) = cache s"
    by (auto intro: only_cacheI)
  with assms(2) show ?thesis
    unfolding chats_Update_def by (auto simp: db_query_eq split: if_splits)
qed

lemma update_index_cache_spec:
  assumes "aead_laws x" "cache_coherent x secret s"
    and "bindS (wrapS m (chats_Update x i plain secret s))
      (\<lambda>_ s. (Inr (), indexAndCache x i fromName msg plain s)) = (r, s')"
  shows "only_chats s s' \<and> cache_coherent x secret s' \<and>
    (r = Inr () \<longrightarrow> stored x secret s' = (stored x secret s)(x_uuid_String x i := Some plain)) \<and>
    (\<forall>e. r = Inl e \<longrightarrow> chats s' = chats s)"
proof -
  obtain u s1 where up: "chats_Update x i plain secret s = (u, s1)" by fastforce
  from chats_Update_spec [OF assms(1) this] show ?thesis
  proof (elim disjE exE conjE)
    fix e assume "u = Inl (Err e)" "only_cache s s1" "cache s1 = cache s"
    then show ?thesis
      using assms up coherent_failed [of x secret s s1]
      by (auto intro: only_cache_chats only_cache_simps)
  next
    fix t assume t: "only_cache s t" "cache t = cache s"
      and put: "chats_PutWithID x i plain secret t = (u, s1)"
    have st: "cache_coherent x secret t" "stored x secret t = stored x secret s"
      using t assms(2) coherent_failed [of x secret s t]
        stored_cong [OF only_cache_simps(1) [OF t(1)], of x secret] by auto
    note p = chats_PutWithID_spec [OF assms(1) put]
    show ?thesis
    proof (cases u)
      case (Inl e)
      then have "only_cache s s1" "cache_coherent x secret s1"
        using p st t only_cache_trans [of s t s1] coherent_failed [of x secret t s1] by auto
      then show ?thesis
        using assms(3) up Inl by (auto intro: only_cache_chats only_cache_simps)
    next
      case (Inr w)
      then have "r = Inr ()" and s': "s' = indexAndCache x i fromName msg plain s1"
        using assms(3) up by auto
      with put_index_cache_spec [OF assms(1) st(1) put [unfolded Inr] s'] st show ?thesis
        using only_chats_trans [OF only_cache_chats [OF t(1)], of s'] by auto
    qed
  qed
qed

text \<open>\<open>Update\<close> keeps the creation time of the message it replaces and dates the change.\<close>

definition updated :: "ext \<Rightarrow> message result \<Rightarrow> message \<Rightarrow> nat \<Rightarrow> message" where
  "updated x existing msg t =
     (case existing of Inr e \<Rightarrow> msg\<lparr>msg_CreatedAt := msg_CreatedAt e\<rparr> | Inl _ \<Rightarrow> msg)
       \<lparr>msg_UpdatedAt := x_now x t\<rparr>"

lemma message_Update_eq:
  assumes "message_Get x secret i s = (g, s1)" "\<not> is_panic g"
  shows "message_Update x secret i fromName msg s =
    (let m = updated x g msg (tick s1); s2 = s1\<lparr>tick := Suc (tick s1)\<rparr>
     in case Encode m of
          Inl e \<Rightarrow> (Inl (wrap_fault ''message: encode'' e), s2)
        | Inr plain \<Rightarrow> bindS (wrapS ''message: store update'' (chats_Update x i plain secret s2)) (\<lambda>_ s.
            (Inr (), indexAndCache x i fromName m plain s)))"
  using assms
  by (cases g; cases "Encode (updated x g msg (tick s1))")
    (auto simp: message_Update_def Now_def updated_def liftR_def is_panic_def Let_def split: fault.splits)

lemma message_Update_spec:
  assumes "aead_laws x" "cache_coherent x secret s"
    and "message_Update x secret i fromName msg s = (r, s')" "message_Get x secret i s = (g, s1)"
  shows "only_chats s s' \<and> cache_coherent x secret s' \<and>
    (r = Inr () \<longrightarrow> (\<exists>plain. Encode (updated x g msg (tick s1)) = Inr plain \<and>
       stored x secret s' = (stored x secret s)(x_uuid_String x i := Some plain))) \<and>
    (\<forall>e. r = Inl e \<longrightarrow> chats s' = chats s)"
proof (cases "is_panic g")
  case True
  with message_Get_spec [OF assms(2,4)] assms(3,4) show ?thesis
    by (cases g) (auto simp: message_Update_def is_panic_Inl intro: only_cache_chats only_cache_simps)
next
  case False
  define s2 where "s2 = s1\<lparr>tick := Suc (tick s1)\<rparr>"
  note mg = message_Get_spec [OF assms(2,4)]
  have s2: "only_cache s s2" "cache_coherent x secret s2" "stored x secret s2 = stored x secret s"
    using mg only_cache_trans [OF _ only_cacheI(1) [of s1 "Suc (tick s1)"], of s]
      stored_cong [of s1 s x secret] only_cache_simps(1) [of s s1] by (auto simp: s2_def)
  show ?thesis
  proof (cases "Encode (updated x g msg (tick s1))")
    case (Inl e)
    with assms(3) message_Update_eq [OF assms(4) False, of fromName msg] s2 show ?thesis
      by (auto simp: Let_def s2_def intro: only_cache_chats only_cache_simps)
  next
    case (Inr plain)
    with assms(3) message_Update_eq [OF assms(4) False, of fromName msg]
      update_index_cache_spec [OF assms(1) s2(2), of "''message: store update''" i plain fromName
        "updated x g msg (tick s1)" r s'] s2
    show ?thesis
      using only_chats_trans [OF only_cache_chats [OF s2(1)], of s'] only_cache_simps(1) [OF s2(1)]
      by (auto simp: Let_def s2_def)
  qed
qed

subsection \<open>Deleting\<close>

lemma delete_attachments_frame:
  "\<exists>fs. delete_attachments x as s = s\<lparr>tick := tick s + length as, files := fs\<rparr>"
proof (induction as arbitrary: s)
  case Nil
  show ?case by (rule exI [of _ "files s"]) simp
next
  case (Cons a as)
  from Cons [of "snd (files_Delete x (att_ID a) s)"] show ?case
    by (auto simp: files_Delete_def db_exec_eq)
qed

lemma delete_attachments_keep:
  "lookup_row fl_id (files s) k = None \<Longrightarrow> lookup_row fl_id (files (delete_attachments x as s)) k = None"
  by (induction as arbitrary: s) (auto simp: files_Delete_def db_exec_eq table_look)

lemma delete_attachments_other:
  "k \<notin> (\<lambda>a. x_uuid_String x (att_ID a)) ` set as \<Longrightarrow>
    lookup_row fl_id (files (delete_attachments x as s)) k = lookup_row fl_id (files s) k"
  by (induction as arbitrary: s) (auto simp: files_Delete_def db_exec_eq table_look)

lemma delete_attachments_gone:
  assumes "\<And>t. x_db x t" "a \<in> set as"
  shows "lookup_row fl_id (files (delete_attachments x as s)) (x_uuid_String x (att_ID a)) = None"
  using assms(2)
proof (induction as arbitrary: s)
  case (Cons b as)
  show ?case
  proof (cases "a = b")
    case True
    then show ?thesis
      using assms(1) by (auto intro!: delete_attachments_keep simp: files_Delete_def db_exec_eq table_look)
  next
    case False
    with Cons show ?thesis by simp
  qed
qed simp

text \<open>The footprint of a delete: the tick, the cache, the message tables and the files.\<close>

definition only_messages :: "'z store_scheme \<Rightarrow> 'z store_scheme \<Rightarrow> bool" where
  "only_messages s s' \<longleftrightarrow>
     (\<exists>t c cs se fs. s' = s\<lparr>tick := t, cache := c, chats := cs, chat_search := se, files := fs\<rparr> \<and> tick s \<le> t)"

lemma only_messages_simps:
  assumes "only_messages s s'"
  shows "known_peers s' = known_peers s" "outbox s' = outbox s" "profile s' = profile s"
    "store.more s' = store.more s" "tick s \<le> tick s'"
  using assms by (auto simp: only_messages_def)

lemma only_messages_trans: "only_messages s t \<Longrightarrow> only_messages t u \<Longrightarrow> only_messages s u"
  by (force simp: only_messages_def)

lemma only_chats_messages:
  assumes "only_chats s t"
  shows "only_messages s t"
proof -
  obtain n c cs se where "t = s\<lparr>tick := n, cache := c, chats := cs, chat_search := se\<rparr>" "tick s \<le> n"
    using assms by (auto simp: only_chats_def)
  then have "t = s\<lparr>tick := n, cache := c, chats := cs, chat_search := se, files := files s\<rparr>" "tick s \<le> n"
    by simp_all
  then show ?thesis unfolding only_messages_def by blast
qed

lemma delete_attachments_only:
  "only_messages s (delete_attachments x as s)"
  "chats (delete_attachments x as s) = chats s" "cache (delete_attachments x as s) = cache s"
proof -
  obtain fs where eq: "delete_attachments x as s = s\<lparr>tick := tick s + length as, files := fs\<rparr>"
    using delete_attachments_frame by blast
  then show "chats (delete_attachments x as s) = chats s" "cache (delete_attachments x as s) = cache s"
    by simp_all
  have "delete_attachments x as s = s\<lparr>tick := tick s + length as, cache := cache s,
      chats := chats s, chat_search := chat_search s, files := fs\<rparr>"
    by (simp add: eq)
  then show "only_messages s (delete_attachments x as s)"
    unfolding only_messages_def using le_add1 [of "tick s" "length as"] by blast
qed

lemma chats_Delete_spec:
  assumes "cache_coherent x secret s" "chats_Delete x i s = (r, s')"
  shows "only_chats s s' \<and> cache_coherent x secret s' \<and> \<not> is_panic r \<and>
    (r = Inr () \<longrightarrow> chats s' = delete_row ch_id (x_uuid_String x i) (chats s) \<and>
       stored x secret s' = (stored x secret s)(x_uuid_String x i := None) \<and>
       cache s' (x_uuid_String x i) = None \<and>
       (x_db x (Suc (tick s)) \<longrightarrow> lookup_row sr_msg_id (chat_search s') (x_uuid_String x i) = None)) \<and>
    (\<forall>e. r = Inl e \<longrightarrow> chats s' = chats s)"
proof (cases "x_db x (tick s)")
  case True
  let ?se = "if x_db x (Suc (tick s)) then delete_row sr_msg_id (x_uuid_String x i) (chat_search s)
    else chat_search s"
  have r: "r = Inr ()" and s': "s' = s\<lparr>tick := tick s + 2, cache := (cache s)(x_uuid_String x i := None),
      chats := delete_row ch_id (x_uuid_String x i) (chats s), chat_search := ?se\<rparr>"
    using assms(2) True by (auto simp: chats_Delete_eq)
  then have "only_chats s s'" unfolding only_chats_def by (metis le_add1)
  moreover have "stored x secret s' = (stored x secret s)(x_uuid_String x i := None)"
    by (rule ext) (simp add: stored_def s' table_look)
  moreover from this have "cache_coherent x secret s'"
    using assms(1) by (auto simp: cache_coherent_def s')
  ultimately show ?thesis by (simp add: r s' table_look)
next
  case False
  with assms have "r = Inl (Err (Wrap ''store: delete'' db_error))" "s' = s\<lparr>tick := Suc (tick s)\<rparr>"
    by (auto simp: chats_Delete_eq)
  then show ?thesis using assms(1) only_cacheI(1) [of s "Suc (tick s)"] only_cache_chats by auto
qed

text \<open>The attachments \<open>Delete\<close> looks for before it removes the row.\<close>

definition delete_files :: "ext \<Rightarrow> key \<Rightarrow> uuid \<Rightarrow> 'z store_scheme \<Rightarrow> unit result \<times> 'z store_scheme" where
  "delete_files x secret i s =
     catchS (loadPlain x secret i s) (\<lambda>_ s. (Inr (), s)) (\<lambda>plain s.
       catchS (liftR (ToMessage plain) s) (\<lambda>_ s. (Inr (), s))
         (\<lambda>msg s. (Inr (), delete_attachments x (msg_Attachments msg) s)))"

lemma message_Delete_eq:
  "message_Delete x secret i s = bindS (delete_files x secret i s) (\<lambda>_ s.
     bindS (wrapS ''message: store delete'' (chats_Delete x i s)) (\<lambda>_ s. (Inr (), s)))"
  by (simp add: message_Delete_def delete_files_def)

lemma delete_files_spec:
  assumes "cache_coherent x secret s" "delete_files x secret i s = (r, s')"
  shows "only_messages s s' \<and> cache_coherent x secret s' \<and> chats s' = chats s \<and>
    (\<forall>e. r = Inl e \<longrightarrow> (\<exists>p. e = Panic p))"
proof -
  obtain q s1 where load: "loadPlain x secret i s = (q, s1)" by fastforce
  note l = loadPlain_spec [OF assms(1) this]
  then have s1: "only_messages s s1" "chats s1 = chats s"
    by (auto intro: only_chats_messages only_cache_chats only_cache_simps)
  have att': "only_messages s (delete_attachments x as s1)" "cache_coherent x secret (delete_attachments x as s1)"
    "chats (delete_attachments x as s1) = chats s" for as
    using delete_attachments_only [where s = s1 and x = x and as = as] s1 l only_messages_trans [OF s1(1)]
      coherent_cong [of "delete_attachments x as s1" s1] by auto
  from assms(2) load l s1 att' show ?thesis
    by (cases q) (auto simp: delete_files_def liftR_def catchS_def is_panic_Inl
        split: sum.splits fault.splits)
qed

lemma message_Delete_spec:
  assumes "cache_coherent x secret s" "message_Delete x secret i s = (r, s')"
  shows "only_messages s s' \<and> cache_coherent x secret s' \<and>
    (r = Inr () \<longrightarrow> stored x secret s' = (stored x secret s)(x_uuid_String x i := None) \<and>
       lookup_row ch_id (chats s') (x_uuid_String x i) = None \<and> cache s' (x_uuid_String x i) = None) \<and>
    (\<forall>e. r = Inl e \<longrightarrow> chats s' = chats s)"
proof -
  obtain q s1 where df: "delete_files x secret i s = (q, s1)" by fastforce
  note d = delete_files_spec [OF assms(1) this]
  show ?thesis
  proof (cases q)
    case (Inl e)
    with assms(2) df d show ?thesis by (auto simp: message_Delete_eq)
  next
    case (Inr u)
    obtain c s2 where cd: "chats_Delete x i s1 = (c, s2)" by fastforce
    then have "r = (case c of Inl e \<Rightarrow> Inl (wrap_fault ''message: store delete'' e) | Inr _ \<Rightarrow> Inr ())" "s' = s2"
      using assms(2) df Inr by (cases c; auto simp: message_Delete_eq)+
    with chats_Delete_spec [of x secret s1, OF _ cd] d only_messages_trans [of s s1 s2]
      stored_cong [of s1 s x secret] only_chats_messages [of s1 s2] show ?thesis
      by (auto simp: chats.look_del split: sum.splits)
  qed
qed

lemma search_load_coherent:
  "cache_coherent x secret s \<Longrightarrow> cache_coherent x secret (snd (search_load x secret ts s))"
proof (induction ts arbitrary: s)
  case (Cons t ts)
  show ?case
  proof (cases "x_uuid_Parse x t")
    case (Some i)
    obtain g s1 where get: "message_Get x secret i s = (g, s1)" by fastforce
    with message_Get_spec [OF Cons.prems this] Cons.IH [of s1] Some show ?thesis
      by (auto simp: catchS_def bindS_def split: sum.splits fault.splits prod.splits)
  qed (use Cons in auto)
qed simp

lemma message_Search_coherent:
  assumes "cache_coherent x secret s"
  shows "cache_coherent x secret (snd (message_Search x secret q n s))"
proof -
  have "cache_coherent x secret (snd (chats_Search x q n s))"
    using assms by (simp add: chats_Search_def db_query_eq)
  then show ?thesis
    using assms search_load_coherent
    by (cases "chats_Search x q n s") (auto simp: message_Search_def bindS_def split: sum.split)
qed

lemma Encode_decode:
  assumes "message_typed m" "Encode m = Inr plain"
  shows "ToMessage plain = Inr m"
  using assms(2) msg.roundtrip_exact [of m] unfolding Encode_Inr_iff [OF assms(1)] by simp

subsection \<open>Properties\<close>

text \<open>
  C23: What \<open>Put\<close> stored is what \<open>Get\<close> returns under the id it was given, in full, with the
  attachments, whether the text is still cached or has to be read back and decrypted; every other
  message is untouched.  A message without an id gets a fresh one.
\<close>

theorem message_put_get:
  assumes "aead_laws x" "uuid_laws x" "cache_coherent x secret s" "message_typed msg"
    and "message_Put x secret fromName msg s = (Inr i, msg', s')" "x_db x (Suc (tick s'))"
  shows "fst (message_Get x secret i s') = Inr (msg\<lparr>msg_ID := i\<rparr>) \<and> msg' = msg\<lparr>msg_ID := i\<rparr> \<and>
    (msg_ID msg \<noteq> uuid_Nil \<longrightarrow> i = msg_ID msg) \<and>
    (\<forall>j. j \<noteq> i \<longrightarrow> stored x secret s' (x_uuid_String x j) = stored x secret s (x_uuid_String x j))"
proof -
  obtain plain where p: "i = put_id x msg s" "msg' = msg\<lparr>msg_ID := i\<rparr>" "Encode msg = Inr plain"
    "cache_coherent x secret s'"
    "stored x secret s' = (stored x secret s)(x_uuid_String x i := Some plain)"
    using message_Put_spec [OF assms(1,3,5)] by auto
  then have "ToMessage plain = Inr msg"
    by (intro Encode_decode [OF assms(4)])
  with p assms(2) message_Get_stored [OF p(4) _ assms(6), of i plain] show ?thesis
    by (auto simp: put_id_def)
qed

lemma cache_coherent_empty: "cache_coherent x secret empty_store"
  by (simp add: cache_coherent_def empty_store_def)

definition sample_put :: store where
  "sample_put = snd (snd (message_Put demo_ext 7 [65] sample_message empty_store))"

lemma sample_put_ok:
  "message_Put demo_ext 7 fromName sample_message empty_store =
     (Inr 9, sample_message, snd (snd (message_Put demo_ext 7 fromName sample_message empty_store)))"
  using Encode_ok [OF sample_message_ok]
  by (simp add: message_Put_def chats_PutWithID_eq Let_def) (simp add: sample_message_def)

theorem message_put_get_witness:
  "fst (message_Get demo_ext 7 9 sample_put) = Inr sample_message"
  using message_put_get [OF demo_ext_laws(1,4) cache_coherent_empty message_ok_typed [OF sample_message_ok]
      sample_put_ok [of "[65]"]]
  by (simp add: sample_put_def)

text \<open>
  The plaintext cache never holds anything but what the database holds: every operation keeps
  the two in agreement, on success, on a database error at any of its statements, and on a panic.
\<close>

theorem cache_stays_coherent:
  assumes "aead_laws x" "cache_coherent x secret s"
  shows "cache_coherent x secret (snd (snd (message_Put x secret fromName msg s))) \<and>
    cache_coherent x secret (snd (message_Get x secret i s)) \<and>
    cache_coherent x secret (snd (message_Update x secret i fromName msg s)) \<and>
    cache_coherent x secret (snd (message_Delete x secret i s)) \<and>
    cache_coherent x secret (snd (message_Search x secret query n s))"
  using assms message_Put_spec [OF assms, of fromName msg] message_Get_spec [OF assms(2), of i]
    message_Update_spec [OF assms, of i fromName msg] message_Delete_spec [OF assms(2), of i]
    message_Search_coherent [OF assms(2)]
  by (metis prod.collapse)

theorem cache_stays_coherent_witness:
  "cache_coherent demo_ext 7 (snd (message_Update demo_ext 7 1 [] sample_message empty_store))"
  using cache_stays_coherent [OF demo_ext_laws(1) cache_coherent_empty] by blast

text \<open>
  C24: The cache is invisible: while the database answers, reading a message gives the same result
  with any coherent cache as with an empty one.
\<close>

theorem cache_transparent:
  assumes "cache_coherent x secret s" "x_db x (Suc (tick s))"
  shows "fst (message_Get x secret i s) = fst (message_Get x secret i (s\<lparr>cache := (\<lambda>_. None)\<rparr>))"
proof (cases "stored x secret s (x_uuid_String x i)")
  case (Some plain)
  let ?e = "s\<lparr>cache := (\<lambda>_. None)\<rparr>"
  have "cache_coherent x secret ?e" "stored x secret ?e (x_uuid_String x i) = Some plain"
    "x_db x (Suc (tick ?e))"
    using Some assms(2) by (auto simp: cache_coherent_def stored_def)
  from message_Get_stored [OF this] message_Get_stored [OF assms(1) Some assms(2)] show ?thesis
    by simp
next
  case None
  then have "cache s (x_uuid_String x i) = None"
    using assms(1) by (cases "cache s (x_uuid_String x i)") (auto simp: cache_coherent_def)
  then have "fst (loadPlain x secret i s) = fst (loadPlain x secret i (s\<lparr>cache := (\<lambda>_. None)\<rparr>)) \<and>
      (\<exists>e. fst (loadPlain x secret i s) = Inl e)"
    using None assms(2)
    by (auto simp: loadPlain_def CacheLoad_def cache_Delete_def chats_Get_eq stored_def Let_def
        split: option.splits sum.splits)
  then show ?thesis
    by (cases "loadPlain x secret i s"; cases "loadPlain x secret i (s\<lparr>cache := (\<lambda>_. None)\<rparr>)")
      (auto simp: message_Get_def)
qed

lemma sample_put_coherent: "cache_coherent demo_ext 7 sample_put"
  using message_Put_spec [OF demo_ext_laws(1) cache_coherent_empty sample_put_ok [of "[65]"]]
  by (simp add: sample_put_def)

lemma sample_stored: "stored demo_ext 7 sample_put (x_uuid_String demo_ext 9) = Some (message_wire sample_message)"
  using message_Put_spec [OF demo_ext_laws(1) cache_coherent_empty sample_put_ok [of "[65]"]]
    Encode_ok [OF sample_message_ok] by (simp add: sample_put_def)


theorem cache_transparent_witness:
  "fst (message_Get demo_ext 7 9 sample_put) =
     fst (message_Get demo_ext 7 9 (sample_put\<lparr>cache := (\<lambda>_. None)\<rparr>))"
  by (rule cache_transparent [OF sample_put_coherent]) simp

text \<open>
  C25: An update replaces the content, keeps the creation time of the stored message whatever the
  caller's copy says, and dates the change; reading the message back gives exactly that, and every
  other message is untouched.
\<close>

theorem message_update_effect:
  assumes "aead_laws x" "uuid_laws x" "cache_coherent x secret s"
    and "message_Get x secret i s = (Inr old, s1)"
    and "message_Update x secret i fromName msg s = (Inr (), s')"
    and "message_typed (msg\<lparr>msg_CreatedAt := msg_CreatedAt old, msg_UpdatedAt := x_now x (tick s1)\<rparr>)"
    and "x_db x (Suc (tick s'))"
  shows "fst (message_Get x secret i s') = Inr (msg\<lparr>msg_ID := i, msg_CreatedAt := msg_CreatedAt old,
      msg_UpdatedAt := x_now x (tick s1)\<rparr>) \<and>
    (\<forall>j. j \<noteq> i \<longrightarrow> stored x secret s' (x_uuid_String x j) = stored x secret s (x_uuid_String x j))"
proof -
  let ?m = "updated x (Inr old) msg (tick s1)"
  obtain plain where p: "Encode ?m = Inr plain" "cache_coherent x secret s'"
    "stored x secret s' = (stored x secret s)(x_uuid_String x i := Some plain)"
    using message_Update_spec [OF assms(1,3,5,4)] by auto
  then have "ToMessage plain = Inr ?m"
    using Encode_decode [of ?m] assms(6) by (simp add: updated_def)
  with p assms(2) message_Get_stored [OF p(2) _ assms(7), of i plain] show ?thesis
    by (auto simp: updated_def)
qed

definition edited :: message where
  "edited = sample_message\<lparr>msg_Content := str ''edited'', msg_CreatedAt := 0\<rparr>"

lemma sample_get:
  "message_Get demo_ext 7 9 sample_put = (Inr sample_message, sample_put\<lparr>tick := 5\<rparr>)"
  using Encode_ok [OF sample_message_ok] msg.roundtrip_exact [OF sample_message_ok]
  by (simp add: sample_put_def message_Put_def chats_PutWithID_eq Let_def indexAndCache_def CacheStore_def
      IndexSearch_def db_exec_eq message_Get_def loadPlain_def CacheLoad_def liftR_def)
    (simp add: sample_message_def empty_store_def)

lemma sample_update:
  "message_Update demo_ext 7 9 [] edited sample_put =
     (Inr (), snd (message_Update demo_ext 7 9 [] edited sample_put))"
proof -
  have "message_ok (updated demo_ext (Inr sample_message) edited 5)"
    by (simp add: updated_def edited_def sample_message_def message_ok_def time_ok_def
        attachment_ok_def str_def)
  then obtain plain where "Encode (updated demo_ext (Inr sample_message) edited 5) = Inr plain"
    using Encode_ok by blast
  moreover have "lookup_row ch_id (chats sample_put) (uuid_bytes 9) \<noteq> None"
    using Encode_ok [OF sample_message_ok]
    by (simp add: sample_put_def message_Put_def chats_PutWithID_eq Let_def indexAndCache_def
        CacheStore_def IndexSearch_def db_exec_eq chats.look_put)
      (simp add: sample_message_def)
  ultimately show ?thesis
    using message_Update_eq [OF sample_get, of "[]" edited]
    by (simp add: chats_Update_def db_query_eq chats_PutWithID_eq Let_def)
qed

theorem message_update_effect_witness:
  "fst (message_Get demo_ext 7 9 (snd (message_Update demo_ext 7 9 [] edited sample_put))) =
     Inr (edited\<lparr>msg_CreatedAt := 6, msg_UpdatedAt := 5000000000\<rparr>)"
proof -
  have "message_typed (edited\<lparr>msg_CreatedAt := msg_CreatedAt sample_message,
      msg_UpdatedAt := x_now demo_ext (tick (sample_put\<lparr>tick := 5\<rparr>))\<rparr>)"
    by (simp add: message_typed_def int64_range_def edited_def sample_message_def)
  from message_update_effect [OF demo_ext_laws(1,4) sample_put_coherent sample_get sample_update this]
  show ?thesis by (simp add: edited_def) (simp add: sample_message_def)
qed

lemma message_Delete_steps:
  assumes "cache_coherent x secret s" "\<And>t. x_db x t"
    and "stored x secret s (x_uuid_String x i) = Some plain" "ToMessage plain = Inr m"
  shows "\<exists>s1 s'. only_cache s s1 \<and> delete_files x secret i s = (Inr (), delete_attachments x (msg_Attachments m) s1) \<and>
    chats_Delete x i (delete_attachments x (msg_Attachments m) s1) = (Inr (), s') \<and>
    message_Delete x secret i s = (Inr (), s')"
proof -
  obtain s1 where l: "loadPlain x secret i s = (Inr plain, s1)"
    using loadPlain_stored [OF assms(1,3) assms(2)] by (metis prod.collapse)
  then have "only_cache s s1" using loadPlain_spec [OF assms(1)] by blast
  moreover from l have df: "delete_files x secret i s = (Inr (), delete_attachments x (msg_Attachments m) s1)"
    using assms(4) by (simp add: delete_files_def liftR_def)
  moreover obtain s' where "chats_Delete x i (delete_attachments x (msg_Attachments m) s1) = (Inr (), s')"
    using assms(2) by (auto simp: chats_Delete_eq)
  ultimately show ?thesis by (auto simp: message_Delete_eq)
qed

text \<open>
  C26: A deleted message is gone: the row, its search index entry, its cached text and the files of
  its attachments are removed, and reading it reports that it does not exist.  Everything else stays: every
  other message, index entry and file, the peers, the outbox and the profile.
\<close>

theorem message_delete_effect:
  assumes "uuid_laws x" "cache_coherent x secret s" "\<And>t. x_db x t"
    and "stored x secret s (x_uuid_String x i) = Some plain" "ToMessage plain = Inr m"
  shows "\<exists>s'. message_Delete x secret i s = (Inr (), s') \<and>
    fst (message_Get x secret i s') = Inl (Err (Wrap ''message: store get'' ErrNotExist)) \<and>
    (\<forall>j. j \<noteq> i \<longrightarrow> stored x secret s' (x_uuid_String x j) = stored x secret s (x_uuid_String x j)) \<and>
    (\<forall>k. lookup_row sr_msg_id (chat_search s') k =
       (if k = x_uuid_String x i then None else lookup_row sr_msg_id (chat_search s) k)) \<and>
    (\<forall>k. lookup_row fl_id (files s') k =
       (if k \<in> (\<lambda>a. x_uuid_String x (att_ID a)) ` set (msg_Attachments m) then None else lookup_row fl_id (files s) k)) \<and>
    known_peers s' = known_peers s \<and> outbox s' = outbox s \<and> profile s' = profile s"
proof -
  obtain s1 s2 s' where s1: "only_cache s s1" and s2: "s2 = delete_attachments x (msg_Attachments m) s1"
    and df: "delete_files x secret i s = (Inr (), s2)" and del: "chats_Delete x i s2 = (Inr (), s')"
    and md: "message_Delete x secret i s = (Inr (), s')"
    using message_Delete_steps [OF assms(2,3,4,5)] by blast
  have s': "chat_search s' = delete_row sr_msg_id (x_uuid_String x i) (chat_search s2)" "files s' = files s2"
    using del assms(3) by (auto simp: chats_Delete_eq)
  have same: "chat_search s2 = chat_search s" "files s1 = files s"
    using delete_attachments_frame [of x "msg_Attachments m" s1] s1 by (auto simp: s2 only_cache_def)
  note ms = message_Delete_spec [OF assms(2) md]
  have "fst (message_Get x secret i s') = Inl (Err (Wrap ''message: store get'' ErrNotExist))"
    using ms assms(3)
    by (auto simp: message_Get_def loadPlain_def CacheLoad_def cache_Delete_def chats_Get_eq Let_def)
  moreover have "lookup_row fl_id (files s') k =
      (if k \<in> (\<lambda>a. x_uuid_String x (att_ID a)) ` set (msg_Attachments m) then None else lookup_row fl_id (files s) k)" for k
    using delete_attachments_gone [OF assms(3), of _ "msg_Attachments m" s1] delete_attachments_other [of k x "msg_Attachments m" s1]
    by (auto simp: s'(2) s2 same(2))
  moreover have "\<forall>j. j \<noteq> i \<longrightarrow> stored x secret s' (x_uuid_String x j) = stored x secret s (x_uuid_String x j)"
    using ms assms(1) by auto
  ultimately show ?thesis
    using md only_messages_simps [of s s'] ms by (auto simp: s'(1) same(1) table_look)
qed

theorem message_delete_effect_witness:
  "\<exists>s'. message_Delete demo_ext 7 9 sample_put = (Inr (), s') \<and>
     fst (message_Get demo_ext 7 9 s') = Inl (Err (Wrap ''message: store get'' ErrNotExist))"
  using message_delete_effect [OF demo_ext_laws(4) sample_put_coherent _ sample_stored
      msg.roundtrip_exact [OF sample_message_ok]] by auto



subsection \<open>Searching\<close>

definition decodable :: "ext \<Rightarrow> key \<Rightarrow> 'z store_scheme \<Rightarrow> bool" where
  "decodable x secret s \<longleftrightarrow> (\<forall>k v. stored x secret s k = Some v \<longrightarrow> \<not> is_panic (ToMessage v))"

lemma decodableD: "decodable x secret s \<Longrightarrow> stored x secret s k = Some v \<Longrightarrow> ToMessage v \<noteq> Inl (Panic p)"
  by (auto simp: decodable_def dest!: spec)

lemma message_Get_no_panic:
  assumes "cache_coherent x secret s" "decodable x secret s"
  shows "\<not> is_panic (fst (message_Get x secret i s))"
proof -
  obtain q s1 where "loadPlain x secret i s = (q, s1)" by fastforce
  with loadPlain_spec [OF assms(1) this] assms(2) show ?thesis
    by (cases q; cases "ToMessage (projr q)")
      (auto simp: message_Get_def liftR_def is_panic_Inl dest: decodableD)
qed

lemma search_load_finds:
  assumes "cache_coherent x secret s" "decodable x secret s" "\<And>t. x_db x t"
  shows "\<exists>out. fst (search_load x secret ts s) = Inr out \<and>
    (\<forall>t i v m. t \<in> set ts \<longrightarrow> x_uuid_Parse x t = Some i \<longrightarrow>
       stored x secret s (x_uuid_String x i) = Some v \<longrightarrow> ToMessage v = Inr m \<longrightarrow>
       m\<lparr>msg_ID := i\<rparr> \<in> set out)"
  using assms(1,2)
proof (induction ts arbitrary: s)
  case (Cons t ts)
  show ?case
  proof (cases "x_uuid_Parse x t")
    case None
    with Cons.IH [OF Cons.prems] show ?thesis by auto
  next
    case (Some j)
    obtain g s1 where get: "message_Get x secret j s = (g, s1)" by fastforce
    note mg = message_Get_spec [OF Cons.prems(1) get]
    have st: "stored x secret s1 = stored x secret s"
      using mg by (intro stored_cong) (auto intro: only_cache_simps)
    have np: "\<not> is_panic g"
      using message_Get_no_panic [OF Cons.prems, of j] get by simp
    obtain out where out: "fst (search_load x secret ts s1) = Inr out"
      "\<forall>t i v m. t \<in> set ts \<longrightarrow> x_uuid_Parse x t = Some i \<longrightarrow>
         stored x secret s1 (x_uuid_String x i) = Some v \<longrightarrow> ToMessage v = Inr m \<longrightarrow>
         m\<lparr>msg_ID := i\<rparr> \<in> set out"
      using Cons.IH [of s1] mg Cons.prems(2) st by (auto simp: decodable_def)
    have hit: "g = Inr (m\<lparr>msg_ID := j\<rparr>)"
      if "stored x secret s (x_uuid_String x j) = Some v" "ToMessage v = Inr m" for v m
      using message_Get_stored [OF Cons.prems(1) that(1) assms(3)] get that(2) by simp
    show ?thesis
    proof (cases g)
      case (Inl e)
      then obtain e' where "g = Inl (Err e')" using np by (cases e) auto
      with Some get out st hit show ?thesis by auto
    next
      case (Inr m)
      with Some get out st hit show ?thesis
        by (cases "search_load x secret ts s1") auto
    qed
  qed
qed simp

lemma chats_Search_hits:
  assumes "\<And>t. x_db x t" "r \<in> set (chat_search s)" "search_hit x q r"
    and "limit \<le> 0 \<or> int (length (filter (search_hit x q) (chat_search s))) \<le> limit"
  shows "\<exists>ids. chats_Search x q limit s = (Inr ids, s\<lparr>tick := tick s + 2\<rparr>) \<and> sr_msg_id r \<in> set ids"
  using assms by (auto simp: chats_Search_def db_query_eq Let_def numeral_eq_Suc)

lemma searchText_prefix: "\<exists>rest. searchText msg = msg_Content msg @ rest"
proof -
  have "\<exists>rest. foldl (\<lambda>b a. if att_Name a \<noteq> [] then b @ str '' '' @ att_Name a else b) b as = b @ rest"
    for b and as :: "attachment list"
  proof (induction as arbitrary: b)
    case (Cons a as)
    from Cons [of b] Cons [of "b @ str '' '' @ att_Name a"] show ?case by auto
  qed simp
  then show ?thesis by (simp add: searchText_def)
qed

lemma put_indexes:
  assumes "message_Put x secret fromName msg s = (Inr i, msg', s')" "\<And>t. x_db x t"
  shows "\<exists>r \<in> set (chat_search s'). sr_msg_id r = x_uuid_String x i \<and> sr_search_text r = searchText msg"
proof -
  obtain plain s1 where "s' = indexAndCache x i fromName (msg\<lparr>msg_ID := i\<rparr>) plain s1"
    using assms(1)
    by (auto simp: message_Put_def Let_def chats_PutWithID_eq split: sum.splits if_splits prod.splits)
  then show ?thesis
    using assms(2)
    by (auto simp: indexAndCache_def CacheStore_def IndexSearch_def db_exec_eq replace_row_def searchText_def)
qed

text \<open>
  C27: A stored message is found by any part of its content: searching for a non-empty piece of the
  text of a message just stored returns that message, when the number of hits stays within the limit
  (the documented behaviour of \<open>LIKE\<close> on ASCII text, \<open>like_laws\<close>).
\<close>

theorem stored_message_found:
  assumes "aead_laws x" "uuid_laws x" "like_laws x" "\<And>t. x_db x t"
    and "cache_coherent x secret s" "decodable x secret s'" "message_typed msg"
    and "message_Put x secret fromName msg s = (Inr i, msg', s')"
    and "msg_Content msg = a @ q @ b" "q \<noteq> []" "length q \<le> 49998"
    and "\<forall>c \<in> set (searchText msg). 0 < c \<and> c < 128"
    and "limit \<le> 0 \<or> int (length (filter (search_hit x q) (chat_search s'))) \<le> limit"
  shows "\<exists>out. fst (message_Search x secret q limit s') = Inr out \<and> msg\<lparr>msg_ID := i\<rparr> \<in> set out"
proof -
  obtain plain where plain: "Encode msg = Inr plain" "cache_coherent x secret s'"
    "stored x secret s' (x_uuid_String x i) = Some plain"
    using message_Put_spec [OF assms(1,5,8)] by auto
  have dec: "ToMessage plain = Inr msg" by (rule Encode_decode [OF assms(7) plain(1)])
  obtain r where r: "r \<in> set (chat_search s')" "sr_msg_id r = x_uuid_String x i"
    "sr_search_text r = searchText msg"
    using put_indexes [OF assms(8,4)] by blast
  obtain rest where "searchText msg = a @ q @ b @ rest"
    using searchText_prefix [of msg] assms(9) by auto
  with assms(3,11,12) have "x_like x (str ''%'' @ q @ str ''%'') (searchText msg)"
    unfolding like_laws_def by (metis append_assoc)
  then have "search_hit x q r" by (simp add: search_hit_def Let_def r)
  then obtain ids where ids: "chats_Search x q limit s' = (Inr ids, s'\<lparr>tick := tick s' + 2\<rparr>)"
    "sr_msg_id r \<in> set ids"
    using chats_Search_hits [OF assms(4) r(1) _ assms(13)] by blast
  have "cache_coherent x secret (s'\<lparr>tick := tick s' + 2\<rparr>)" "decodable x secret (s'\<lparr>tick := tick s' + 2\<rparr>)"
    using plain(2) assms(6) by (simp_all add: decodable_def)
  from search_load_finds [OF this assms(4), of ids] ids r(2) plain(3) dec assms(2,10) show ?thesis
    by (auto simp: message_Search_def uuid_laws_def)
qed

theorem stored_message_found_witness:
  "\<exists>out. fst (message_Search demo_ext 7 (str ''h'') 50 sample_put) = Inr out \<and> sample_message \<in> set out"
proof -
  have eq: "sample_message\<lparr>msg_ID := 9\<rparr> = sample_message"
    by (simp add: sample_message_def)
  have row: "chats sample_put = [chat_row demo_ext 9 (message_wire sample_message) 7 0]"
    and se: "length (chat_search sample_put) = 1"
    using Encode_ok [OF sample_message_ok]
    by (simp_all add: sample_put_def message_Put_def chats_PutWithID_eq Let_def indexAndCache_def
        CacheStore_def IndexSearch_def db_exec_eq)
      (simp_all add: sample_message_def empty_store_def replace_row_def delete_row_def)
  have dec: "decodable demo_ext 7 sample_put"
    using demo_ext_laws(1) msg.roundtrip_exact [OF sample_message_ok]
    by (auto simp: decodable_def stored_def row lookup_row_def split: if_splits option.splits)
      (simp add: chat_row_def)
  have len: "length (filter P (chat_search sample_put)) \<le> 1" for P
    using length_filter_le [of P "chat_search sample_put"] se by simp
  have "\<exists>out. fst (message_Search demo_ext 7 (str ''h'') 50 sample_put) = Inr out \<and>
      sample_message\<lparr>msg_ID := 9\<rparr> \<in> set out"
  proof (rule stored_message_found [OF demo_ext_laws(1,4,5) _ cache_coherent_empty dec
        message_ok_typed [OF sample_message_ok]])
    show "message_Put demo_ext 7 [65] sample_message empty_store = (Inr 9, sample_message, sample_put)"
      using sample_put_ok [of "[65]"] by (simp add: sample_put_def)
    show "msg_Content sample_message = [] @ str ''h'' @ str ''i''"
      by (simp add: sample_message_def str_def)
    show "\<forall>c \<in> set (searchText sample_message). 0 < c \<and> c < 128"
      by (simp add: searchText_def sample_message_def str_def)
    show "(50 :: int) \<le> 0 \<or>
        int (length (filter (search_hit demo_ext (str ''h'')) (chat_search sample_put))) \<le> 50"
      using len [of "search_hit demo_ext (str ''h'')"] by simp
  qed (simp_all add: str_def)
  then show ?thesis by (simp only: eq)
qed

end
