(* ===== verification/Outbox.thy ===== *)
theory Outbox
  imports Store Signal
begin

text \<open>
  The outbox as a queue per peer.  The locale \<open>dated_outbox\<close> is the contract the client relies on when
  it queues signals for an offline peer and flushes them later: a queued signal is added to its target's
  queue with the second it was queued in, reading a queue gives exactly its entries ordered by these
  seconds, and deleting a delivered entry removes that entry from its queue and nothing else.  Entries
  of one second come in any order, and the clock may be set back.  The rows of the \<open>outbox\<close> table
  implement it, through the view \<open>outbox_queue\<close>.
\<close>

subsection \<open>The contract\<close>

abbreviation entry_date :: "'i \<times> 'd \<times> 'a \<Rightarrow> 'd" where
  "entry_date e \<equiv> fst (snd e)"

abbreviation entry_payload :: "'i \<times> 'd \<times> 'a \<Rightarrow> 'a" where
  "entry_payload e \<equiv> snd (snd e)"

locale dated_outbox =
  fixes queue :: "'s \<Rightarrow> 'k \<Rightarrow> ('i \<times> 'd :: linorder \<times> 'a) list"
    and put :: "'k \<Rightarrow> 'a \<Rightarrow> 's \<Rightarrow> 'i result \<times> 's"
    and get :: "'k \<Rightarrow> 's \<Rightarrow> ('i \<times> 'd \<times> 'a) list result \<times> 's"
    and del :: "'i \<Rightarrow> 's \<Rightarrow> unit result \<times> 's"
    and clock :: "'s \<Rightarrow> 'd"
    and ok :: "'s \<Rightarrow> bool"
  assumes put_appends: "ok s \<Longrightarrow> put k a s = (Inr i, s') \<Longrightarrow>
      ok s' \<and> (\<forall>j. queue s' j = queue s j @ (if j = k then [(i, clock s, a)] else []))"
    and put_fails: "ok s \<Longrightarrow> put k a s = (Inl e, s') \<Longrightarrow> ok s' \<and> queue s' = queue s"
    and get_sorted: "ok s \<Longrightarrow> get k s = (Inr es, s') \<Longrightarrow>
      mset es = mset (queue s k) \<and> sorted (map entry_date es)"
    and get_keeps: "ok s \<Longrightarrow> get k s = (r, s') \<Longrightarrow> ok s' \<and> queue s' = queue s"
    and del_removes: "ok s \<Longrightarrow> del i s = (Inr u, s') \<Longrightarrow>
      ok s' \<and> (\<forall>j. queue s' j = filter (\<lambda>e. fst e \<noteq> i) (queue s j))"
    and del_fails: "ok s \<Longrightarrow> del i s = (Inl e, s') \<Longrightarrow> ok s' \<and> queue s' = queue s"
    and ids_distinct: "ok s \<Longrightarrow> distinct (map fst (queue s k))"
    and ids_apart: "ok s \<Longrightarrow> j \<noteq> k \<Longrightarrow>
      p \<in> set (queue s j) \<Longrightarrow> q \<in> set (queue s k) \<Longrightarrow> fst p \<noteq> fst q"
begin

text \<open>Signals queued in different seconds, one after the other, are got in the order they were queued.\<close>

lemma get_fifo:
  assumes "ok s" "get k s = (Inr es, s')" "sorted_wrt (<) (map entry_date (queue s k))"
  shows "es = queue s k"
proof -
  note es = get_sorted [OF assms(1,2)]
  have strict: "sorted (map entry_date (queue s k))" "distinct (map entry_date (queue s k))"
    using assms(3) by (simp_all add: strict_sorted_iff)
  then have "inj_on entry_date (set es)" using es mset_eq_setD [of es "queue s k"] by (simp add: distinct_map)
  then have "sort_key entry_date es = queue s k" using es strict(1) by (intro sort_key_inj_key_eq) simp_all
  moreover have "sort_key entry_date es = es" using es by (simp add: sort_key_id_if_sorted)
  ultimately show ?thesis by simp
qed

text \<open>An entry of an earlier second comes before one of a later second.\<close>

lemma earlier_first:
  assumes "ok s" "get k s = (Inr es, s')" "i < length es" "j < length es" "entry_date (es ! i) < entry_date (es ! j)"
  shows "i < j"
proof (rule ccontr)
  assume "\<not> i < j"
  then have "map entry_date es ! j \<le> map entry_date es ! i"
    using get_sorted [OF assms(1,2)] assms(3) by (intro sorted_nth_mono) auto
  with assms(3-5) show False by simp
qed

text \<open>Removing some entries of what was got, by their ids, leaves the others, and every other queue.\<close>

lemma removed_entries:
  assumes "ok s" "mset es = mset (queue s k)" "\<forall>j. queue s' j = filter (\<lambda>e. fst e \<notin> fst ` set (take n es)) (queue s j)"
  shows "mset (queue s' k) = mset (drop n es) \<and> (\<forall>j. j \<noteq> k \<longrightarrow> queue s' j = queue s j)"
proof (intro conjI allI impI)
  let ?P = "\<lambda>e. fst e \<notin> fst ` set (take n es)"
  have "distinct (map fst es)"
    using ids_distinct [OF assms(1), of k] assms(2) by (metis mset_eq_imp_distinct_iff mset_map)
  then have "fst ` set (take n es) \<inter> fst ` set (drop n es) = {}"
    using append_take_drop_id [of n es] by (metis distinct_append map_append set_map)
  then have "filter ?P (take n es) = []" "filter ?P (drop n es) = drop n es"
    by (auto simp: filter_empty_conv filter_id_conv)
  then have "filter ?P es = drop n es" by (metis append_Nil append_take_drop_id filter_append)
  then show "mset (queue s' k) = mset (drop n es)"
    using assms(2,3) by (metis mset_filter)
  show "queue s' j = queue s j" if "j \<noteq> k" for j
  proof -
    have "set (take n es) \<subseteq> set (queue s k)" using mset_eq_setD [OF assms(2)] by (metis set_take_subset)
    then have "?P e" if "e \<in> set (queue s j)" for e using ids_apart [OF assms(1) \<open>j \<noteq> k\<close> that] by blast
    then show ?thesis using assms(3) by (simp add: filter_id_conv)
  qed
qed

end

subsection \<open>The table as queues\<close>

definition row_entry :: "ext \<Rightarrow> key \<Rightarrow> outboxRow \<Rightarrow> uuid \<times> time \<times> bytes" where
  "row_entry x secret r =
     (the (x_uuid_Parse x (ob_id r)), of_RFC3339 (ob_created_at r), projr (decryptRaw x secret (ob_signal_content r)))"

abbreviation rows_for :: "key \<Rightarrow> 'z store_scheme \<Rightarrow> outboxRow list" where
  "rows_for k s \<equiv> filter (\<lambda>r. ob_target_pub_key r = Key_String k) (outbox s)"

definition outbox_queue :: "ext \<Rightarrow> key \<Rightarrow> 'z store_scheme \<Rightarrow> key \<Rightarrow> (uuid \<times> time \<times> bytes) list" where
  "outbox_queue x secret s k = map (row_entry x secret) (rows_for k s)"

text \<open>What \<open>Get\<close> returns, as entries; and the second a signal is queued in.\<close>

definition signal_entry :: "OutboxSignal \<Rightarrow> uuid \<times> time \<times> bytes" where
  "signal_entry e = (ob_ID e, ob_CreatedAt e, ob_SignalContent e)"

definition entries_got :: "ext \<Rightarrow> key \<Rightarrow> key \<Rightarrow> 'z store_scheme \<Rightarrow> (uuid \<times> time \<times> bytes) list result \<times> 'z store_scheme" where
  "entries_got x secret k s = (let (q, s') = outbox_Get x k secret s in (map_sum id (map signal_entry) q, s'))"

definition queue_second :: "ext \<Rightarrow> 'z store_scheme \<Rightarrow> time" where
  "queue_second x s = of_RFC3339 (Format_RFC3339 (x_now x (Suc (Suc (tick s)))))"

definition outbox_row_ok :: "ext \<Rightarrow> key \<Rightarrow> outboxRow \<Rightarrow> bool" where
  "outbox_row_ok x secret r \<longleftrightarrow>
     (\<exists>u. ob_id r = x_uuid_String x u) \<and> (\<exists>k. ob_target_pub_key r = Key_String k) \<and>
     (\<exists>k. ob_signal_from r = Key_String k) \<and> (\<exists>u. ob_signal_id r = x_uuid_String x u) \<and>
     (\<exists>p. decryptRaw x secret (ob_signal_content r) = Inr p)"

text \<open>The states the program keeps: rows it wrote itself, each under an id of its own.\<close>

definition outbox_ok :: "ext \<Rightarrow> key \<Rightarrow> 'z store_scheme \<Rightarrow> bool" where
  "outbox_ok x secret s \<longleftrightarrow>
     aead_laws x \<and> uuid_laws x \<and> primary_key ob_id (outbox s) \<and> (\<forall>r \<in> set (outbox s). outbox_row_ok x secret r)"

lemma outbox_row_ok_new:
  assumes "aead_laws x"
  shows "outbox_row_ok x secret (outbox_row x k a secret t)"
proof -
  obtain ty fr sid where "x_json_signal x a = (ty, fr, sid)" by (cases "x_json_signal x a")
  with assms show ?thesis by (auto simp: outbox_row_ok_def outbox_row_def)
qed

lemma outbox_ok_cong: "outbox_ok x secret s \<Longrightarrow> outbox s' = outbox s \<Longrightarrow> outbox_ok x secret s'"
  by (simp add: outbox_ok_def)

lemma outbox_queue_cong: "outbox s' = outbox s \<Longrightarrow> outbox_queue x secret s' = outbox_queue x secret s"
  by (simp add: outbox_queue_def fun_eq_iff)

lemma Key_String_eq [simp]: "Key_String a = Key_String b \<longleftrightarrow> a = b"
  by (metis FromHex_String sum.inject(2))

lemma outbox_Put_appends:
  assumes ok: "outbox_ok x secret s" and put: "outbox_Put x k a secret s = (Inr i, s')"
  shows "outbox_ok x secret s' \<and>
    (\<forall>j. outbox_queue x secret s' j = outbox_queue x secret s j @ (if j = k then [(i, queue_second x s, a)] else []))"
proof -
  let ?n = "outbox_row x k a secret (tick s)"
  have i: "i = x_uuid_New x (Suc (tick s))" and s': "outbox s' = outbox s @ [?n]"
    and new: "lookup_row ob_id (outbox s) (ob_id ?n) = None"
    using put by (auto simp: outbox_Put_eq Let_def split: if_splits)
  have laws: "aead_laws x" "uuid_laws x" using ok by (auto simp: outbox_ok_def)
  have "decryptRaw x secret (ob_signal_content ?n) = Inr a"
    using laws(1) by (simp add: outbox_row_def split: prod.split)
  moreover have "the (x_uuid_Parse x (ob_id ?n)) = i"
    using laws(2) by (simp add: i uuid_laws_def)
  ultimately have "row_entry x secret ?n = (i, queue_second x s, a)"
    by (simp add: row_entry_def queue_second_def)
  moreover have "outbox_ok x secret s'"
    unfolding outbox_ok_def s'
    using ok laws outbox_row_ok_new [OF laws(1)] primary_key_append [OF _ new] by (auto simp: outbox_ok_def)
  ultimately show ?thesis by (simp add: outbox_queue_def s')
qed

lemma outbox_Put_fails:
  assumes "outbox_ok x secret s" "outbox_Put x k a secret s = (Inl e, s')"
  shows "outbox_ok x secret s' \<and> outbox_queue x secret s' = outbox_queue x secret s"
proof -
  have "outbox s' = outbox s" using assms(2) by (auto simp: outbox_Put_eq Let_def split: if_splits)
  with assms(1) show ?thesis by (blast intro: outbox_ok_cong outbox_queue_cong)
qed

lemma outbox_rows_id:
  assumes "outbox_ok x secret s" "r \<in> set (outbox s)"
  shows "ob_id r = x_uuid_String x i \<longleftrightarrow> the (x_uuid_Parse x (ob_id r)) = i"
  using assms by (auto simp: outbox_ok_def outbox_row_ok_def uuid_laws_def)

lemma outbox_Delete_removes:
  assumes ok: "outbox_ok x secret s" and del: "outbox_Delete x i s = (Inr u, s')"
  shows "outbox_ok x secret s' \<and>
    (\<forall>j. outbox_queue x secret s' j = filter (\<lambda>e. fst e \<noteq> i) (outbox_queue x secret s j))"
proof -
  have s': "outbox s' = filter (\<lambda>r. ob_id r \<noteq> x_uuid_String x i) (outbox s)"
    using del by (auto simp: outbox_Delete_def db_exec_eq delete_row_def split: if_splits)
  have "rows_for j s' = filter (\<lambda>r. the (x_uuid_Parse x (ob_id r)) \<noteq> i) (rows_for j s)" for j
    unfolding s' filter_filter using outbox_rows_id [OF ok] by (intro filter_cong) auto
  then have "outbox_queue x secret s' j = filter (\<lambda>e. fst e \<noteq> i) (outbox_queue x secret s j)" for j
    by (simp add: outbox_queue_def filter_map comp_def row_entry_def)
  moreover have "outbox_ok x secret s'"
    using ok primary_key_delete [of ob_id "outbox s"] by (auto simp: outbox_ok_def s' delete_row_def)
  ultimately show ?thesis by blast
qed

lemma outbox_Delete_fails:
  assumes "outbox_ok x secret s" "outbox_Delete x i s = (Inl e, s')"
  shows "outbox_ok x secret s' \<and> outbox_queue x secret s' = outbox_queue x secret s"
proof -
  have "outbox s' = outbox s" using assms(2) by (auto simp: outbox_Delete_def db_exec_eq split: if_splits)
  with assms(1) show ?thesis by (blast intro: outbox_ok_cong outbox_queue_cong)
qed

lemma outbox_ids:
  assumes "outbox_ok x secret s"
  shows "inj_on (\<lambda>r. the (x_uuid_Parse x (ob_id r))) (set (outbox s))" "distinct (outbox s)"
proof -
  have d: "distinct (map ob_id (outbox s))"
    using assms by (simp add: outbox_ok_def primary_key_def)
  then show "distinct (outbox s)" by (simp add: distinct_map)
  show "inj_on (\<lambda>r. the (x_uuid_Parse x (ob_id r))) (set (outbox s))"
  proof (rule inj_onI)
    fix r q
    assume *: "r \<in> set (outbox s)" "q \<in> set (outbox s)"
      "the (x_uuid_Parse x (ob_id r)) = the (x_uuid_Parse x (ob_id q))"
    then have "ob_id r = ob_id q"
      using outbox_rows_id [OF assms *(1)] outbox_rows_id [OF assms *(2)] by metis
    with d * show "r = q" by (simp add: distinct_map inj_on_def)
  qed
qed

lemma outbox_queue_distinct:
  assumes "outbox_ok x secret s"
  shows "distinct (map fst (outbox_queue x secret s k))"
proof -
  have "inj_on (\<lambda>r. the (x_uuid_Parse x (ob_id r))) (set (rows_for k s))"
    using outbox_ids(1) [OF assms] by (rule inj_on_subset) auto
  with outbox_ids(2) [OF assms] show ?thesis
    by (simp add: outbox_queue_def row_entry_def comp_def distinct_map)
qed

lemma outbox_queue_apart:
  assumes "outbox_ok x secret s" "j \<noteq> k"
    and "e \<in> set (outbox_queue x secret s j)" "f \<in> set (outbox_queue x secret s k)"
  shows "fst e \<noteq> fst f"
proof
  assume eq: "fst e = fst f"
  obtain r q where rq: "r \<in> set (rows_for j s)" "q \<in> set (rows_for k s)"
    "fst e = the (x_uuid_Parse x (ob_id r))" "fst f = the (x_uuid_Parse x (ob_id q))"
    using assms(3,4) by (auto simp: outbox_queue_def row_entry_def)
  then have "r = q" using eq outbox_ids(1) [OF assms(1)] by (auto simp: inj_on_def)
  with rq assms(2) show False by auto
qed

subsection \<open>Reading and retrying\<close>

lemma mset_outbox_for: "mset (outbox_for x k s) = mset (rows_for k s)"
  by (simp add: outbox_for_def by_created_at_def)

lemma sorted_outbox_for: "sorted (map (\<lambda>r. of_RFC3339 (ob_created_at r)) (outbox_for x k s))"
proof -
  have "sorted (map (\<lambda>r. (ob_created_at r, x_tie x (tick s) (ob_id r))) (outbox_for x k s))"
    unfolding outbox_for_def by_created_at_def by (rule sorted_sort_key)
  then show ?thesis
    unfolding sorted_map by (rule sorted_wrt_mono_rel [rotated]) (auto simp: of_RFC3339_def less_eq_prod_def)
qed

lemma scan_outbox_content_ok:
  assumes "uuid_laws x" "outbox_row_ok x secret r"
  shows "\<exists>e. scan_outbox_content x secret r = Inr e \<and> signal_entry e = row_entry x secret r"
  using assms
  by (auto simp: outbox_row_ok_def scan_outbox_content_def scan_outbox_def signal_entry_def row_entry_def)
    (simp add: uuid_laws_def)

lemma outbox_Get_eq:
  assumes "outbox_ok x secret s" "x_db x (tick s)" "x_db x (Suc (tick s))"
  shows "\<exists>es. outbox_Get x k secret s = (Inr es, s\<lparr>tick := tick s + 2\<rparr>) \<and>
    map signal_entry es = map (row_entry x secret) (outbox_for x k (s\<lparr>tick := Suc (tick s)\<rparr>))"
proof -
  let ?scan = "scan_outbox_content x secret" and ?rs = "outbox_for x k (s\<lparr>tick := Suc (tick s)\<rparr>)"
  have "set ?rs \<subseteq> set (outbox s)" by (auto simp: outbox_for_def by_created_at_def)
  then have "\<exists>e. ?scan r = Inr e \<and> signal_entry e = row_entry x secret r" if "r \<in> set ?rs" for r
    using scan_outbox_content_ok [of x secret r] that assms(1) by (auto simp: outbox_ok_def)
  then have "mapR ?scan ?rs = Inr (map (projr \<circ> ?scan) ?rs)"
    "map signal_entry (map (projr \<circ> ?scan) ?rs) = map (row_entry x secret) ?rs"
    by (force intro!: mapR_Inr)+
  then show ?thesis
    using assms(2,3) by (simp add: outbox_Get_def db_query_eq liftR_def numeral_eq_Suc)
qed

lemma outbox_Get_tick: "snd (outbox_Get x k secret s) = s\<lparr>tick := tick (snd (outbox_Get x k secret s))\<rparr>
    \<and> tick s \<le> tick (snd (outbox_Get x k secret s))"
  by (auto simp: outbox_Get_def db_query_eq liftR_def bindS_def split: sum.split)

lemma entries_got_sorted:
  assumes "outbox_ok x secret s" "entries_got x secret k s = (Inr es, s')"
  shows "mset es = mset (outbox_queue x secret s k) \<and> sorted (map entry_date es)"
proof -
  have ok: "x_db x (tick s)" "x_db x (Suc (tick s))"
    using assms(2) by (auto simp: entries_got_def outbox_Get_def db_query_eq liftR_def bindS_def
        split: prod.splits sum.splits if_splits)
  from outbox_Get_eq [OF assms(1) this, of k] assms(2)
  have es: "es = map (row_entry x secret) (outbox_for x k (s\<lparr>tick := Suc (tick s)\<rparr>))"
    by (auto simp: entries_got_def)
  show ?thesis
    using mset_outbox_for [of x k "s\<lparr>tick := Suc (tick s)\<rparr>"] sorted_outbox_for [of x k "s\<lparr>tick := Suc (tick s)\<rparr>"]
    by (simp add: es outbox_queue_def row_entry_def comp_def)
qed

lemma entries_got_keeps:
  assumes "outbox_ok x secret s" "entries_got x secret k s = (r, s')"
  shows "outbox_ok x secret s' \<and> outbox_queue x secret s' = outbox_queue x secret s"
proof -
  have "s' = snd (outbox_Get x k secret s)" using assms(2) by (auto simp: entries_got_def split: prod.splits)
  then have "outbox s' = outbox s" using outbox_Get_tick [of x k secret s] by (metis store.select_convs(5) store.surjective store.update_convs(5) world.update_convs(1))
  with assms(1) show ?thesis by (blast intro: outbox_ok_cong outbox_queue_cong)
qed

interpretation ob: dated_outbox "outbox_queue x secret" "\<lambda>k a. outbox_Put x k a secret"
  "entries_got x secret" "outbox_Delete x" "queue_second x" "outbox_ok x secret" for x secret
  by (unfold_locales; (erule (1) outbox_Put_appends outbox_Put_fails entries_got_sorted entries_got_keeps
      outbox_Delete_removes outbox_Delete_fails | erule outbox_queue_distinct | erule (3) outbox_queue_apart))

lemma IncrementRetry_queue:
  assumes "outbox_ok x secret s"
  shows "outbox_ok x secret (snd (IncrementRetry x i s)) \<and>
    outbox_queue x secret (snd (IncrementRetry x i s)) = outbox_queue x secret s"
proof (cases "x_db x (tick s)")
  case False
  with assms show ?thesis
    by (auto simp: IncrementRetry_def db_exec_eq intro: outbox_ok_cong outbox_queue_cong)
next
  case True
  let ?g = "\<lambda>r. if ob_id r = x_uuid_String x i then r\<lparr>ob_retry_count := ob_retry_count r + 1\<rparr> else r"
  let ?s = "snd (IncrementRetry x i s)"
  have s': "outbox ?s = map ?g (outbox s)" using True by (simp add: IncrementRetry_def db_exec_eq update_row_def)
  have "rows_for k ?s = map ?g (rows_for k s)" for k
    by (auto simp: s' filter_map comp_def intro!: arg_cong [where f = "map ?g"] filter_cong)
  then have "outbox_queue x secret ?s = outbox_queue x secret s"
    by (auto simp: outbox_queue_def row_entry_def fun_eq_iff)
  moreover have "primary_key ob_id (outbox ?s) = primary_key ob_id (outbox s)"
    by (auto simp: s' primary_key_def comp_def intro!: arg_cong [where f = distinct])
  ultimately show ?thesis using assms by (auto simp: outbox_ok_def s' outbox_row_ok_def)
qed

subsection \<open>Properties\<close>

text \<open>
  C21: The outbox implements a queue per peer, ordered by the second: after a signal is accepted for a
  peer, reading that peer's outbox gives, decrypted, exactly what was queued before and the new signal
  under the id \<open>Put\<close> returned, each once, an earlier second before a later one; signals queued one after
  the other in different seconds come out first in, first out; and no other peer's queue changes.
\<close>

theorem outbox_refines_queue:
  assumes "outbox_ok x secret s" "outbox_Put x k raw secret s = (Inr i, s')"
    and "x_db x (tick s')" "x_db x (Suc (tick s'))"
  shows "\<exists>es. fst (outbox_Get x k secret s') = Inr es \<and>
    mset (map signal_entry es) = mset (outbox_queue x secret s k) + {#(i, queue_second x s, raw)#} \<and>
    sorted (map ob_CreatedAt es) \<and>
    (sorted_wrt (<) (map entry_date (outbox_queue x secret s k) @ [queue_second x s]) \<longrightarrow>
       map signal_entry es = outbox_queue x secret s k @ [(i, queue_second x s, raw)]) \<and>
    (\<forall>j. j \<noteq> k \<longrightarrow> outbox_queue x secret s' j = outbox_queue x secret s j) \<and>
    outbox_ok x secret s'"
proof -
  have put: "outbox_ok x secret s'" "outbox_queue x secret s' k = outbox_queue x secret s k @ [(i, queue_second x s, raw)]"
    "\<forall>j. j \<noteq> k \<longrightarrow> outbox_queue x secret s' j = outbox_queue x secret s j"
    using ob.put_appends [OF assms(1,2)] by auto
  obtain es where es: "outbox_Get x k secret s' = (Inr es, s'\<lparr>tick := tick s' + 2\<rparr>)"
    using outbox_Get_eq [OF put(1) assms(3,4), of k] by blast
  then have got: "entries_got x secret k s' = (Inr (map signal_entry es), s'\<lparr>tick := tick s' + 2\<rparr>)"
    by (simp add: entries_got_def)
  have dates: "map entry_date (map signal_entry es) = map ob_CreatedAt es" by (simp add: signal_entry_def)
  from ob.get_sorted [OF put(1) got] ob.get_fifo [OF put(1) got] es put show ?thesis
    unfolding dates by auto
qed

lemma outbox_ok_empty: "outbox_ok demo_ext secret empty_store"
  using demo_ext_laws by (simp add: outbox_ok_def empty_store_def primary_key_def)

lemma demo_outbox_Put:
  "outbox_Put demo_ext k raw secret empty_store = (Inr 2, snd (outbox_Put demo_ext k raw secret empty_store))"
  by (simp add: outbox_Put_eq empty_store_def lookup_row_def Let_def)

theorem outbox_refines_queue_witness:
  "\<exists>es. fst (outbox_Get demo_ext 4 7 (snd (outbox_Put demo_ext 4 [1, 2] 7 empty_store))) = Inr es \<and>
     map signal_entry es = [(2, 2000000000, [1, 2])]"
proof -
  have "outbox_queue demo_ext 7 empty_store 4 = []" "queue_second demo_ext empty_store = 2000000000"
    by (simp_all add: outbox_queue_def queue_second_def empty_store_def of_RFC3339_def Format_RFC3339_def)
  with outbox_refines_queue [OF outbox_ok_empty demo_outbox_Put [of 4 "[1, 2]" 7]] show ?thesis by auto
qed

text \<open>
  Signals queued in one second have no order: a query may return the later one first, and the flush then
  sends them in that order.
\<close>

definition tied_ext :: ext where
  "tied_ext = demo_ext\<lparr>x_now := (\<lambda>_. 0), x_tie := (\<lambda>_ i. if i = uuid_bytes 2 then 1 else 0)\<rparr>"

lemma same_second_swapped:
  "\<exists>s s' i j es. outbox_Put tied_ext 4 [1] 7 empty_store = (Inr i, s) \<and> outbox_Put tied_ext 4 [2] 7 s = (Inr j, s') \<and>
     fst (outbox_Get tied_ext 4 7 s') = Inr es \<and> map ob_SignalContent es = [[2], [1]]"
proof -
  obtain s where s: "outbox_Put tied_ext 4 [1] 7 empty_store = (Inr 2, s)" "outbox s = [outbox_row tied_ext 4 [1] 7 0]" "tick s = 4"
    by (simp add: outbox_Put_eq empty_store_def lookup_row_def Let_def tied_ext_def)
  have ids: "ob_id (outbox_row tied_ext 4 p 7 t) = uuid_bytes (of_nat (Suc (Suc t)))" "ob_created_at (outbox_row tied_ext 4 p 7 t) = 0"
    "ob_target_pub_key (outbox_row tied_ext 4 p 7 t) = Key_String 4" for p t
    by (simp_all add: tied_ext_def Format_RFC3339_def)
  have "uuid_of (uuid_bytes 2) \<noteq> uuid_of (uuid_bytes 6)" by simp
  then have ne: "uuid_bytes 2 \<noteq> uuid_bytes 6" by metis
  obtain s' where s': "outbox_Put tied_ext 4 [2] 7 s = (Inr 6, s')" "outbox s' = [outbox_row tied_ext 4 [1] 7 0, outbox_row tied_ext 4 [2] 7 4]"
    using s(2,3) ne ids(1) [of "[1]" 0] by (simp add: outbox_Put_eq lookup_row_def Let_def tied_ext_def)
  have sel: "x_uuid_String tied_ext u = uuid_bytes u" "x_uuid_New tied_ext t = of_nat (Suc t)" for u t by (simp_all add: tied_ext_def)
  have laws: "aead_laws tied_ext" "uuid_laws tied_ext" using demo_ext_laws by (simp_all add: tied_ext_def aead_laws_def uuid_laws_def)
  have ok: "outbox_ok tied_ext 7 s'"
    using laws outbox_row_ok_new [OF laws(1)] ne by (simp add: outbox_ok_def s'(2) primary_key_def sel)
  have "outbox_for tied_ext 4 t = [outbox_row tied_ext 4 [2] 7 4, outbox_row tied_ext 4 [1] 7 0]" if "outbox t = outbox s'" for t :: store
    using ne by (simp add: outbox_for_def by_created_at_def that s'(2) ids) (simp add: tied_ext_def less_eq_prod_def)
  moreover have "decryptRaw tied_ext 7 (ob_signal_content (outbox_row tied_ext 4 p 7 t)) = Inr p" for p t
    using laws(1) by (simp add: outbox_row_def split: prod.split)
  moreover obtain es where es: "fst (outbox_Get tied_ext 4 7 s') = Inr es"
    "map signal_entry es = map (row_entry tied_ext 7) (outbox_for tied_ext 4 (s'\<lparr>tick := Suc (tick s')\<rparr>))"
    using outbox_Get_eq [OF ok, of 4] by (auto simp: tied_ext_def)
  ultimately have "map entry_payload (map signal_entry es) = [[2], [1]]" by (simp add: row_entry_def)
  then have "map ob_SignalContent es = [[2], [1]]" by (simp add: signal_entry_def comp_def)
  with s(1) s'(1) es(1) show ?thesis by (intro exI conjI)
qed

text \<open>
  The metadata columns of the outbox are never filled: \<open>Put\<close> decodes the signal's bytes as JSON,
  but signals (and file chunks) are binary, so every queued signal is recorded with an empty type, the
  zero sender key and the nil signal id, whatever it carries.
\<close>

theorem outbox_metadata_lost:
  assumes "json_laws x" "signal_New typ from uid content = Inr raw"
    and "outbox_Put x k raw secret s = (Inr i, s')"
  shows "ob_signal_type (last (outbox s')) = [] \<and>
    ob_signal_from (last (outbox s')) = Key_String NilKey \<and>
    ob_signal_id (last (outbox s')) = x_uuid_String x uuid_Nil"
proof -
  have "x_json_signal x raw = ([], 0, 0)"
    using assms(1,2) by (auto simp: json_laws_def signal_New_eq signal_wire_def split: if_splits)
  with assms(3) show ?thesis
    by (auto simp: outbox_Put_eq Let_def outbox_row_def split: if_splits)
qed

theorem outbox_metadata_lost_witness:
  "ob_signal_type (last (outbox (snd (outbox_Put demo_ext 4
      (signal_wire \<lparr>sig_Type = Message, sig_From = 5, sig_ID = 6, sig_Content = []\<rparr>) 7 empty_store)))) = []"
proof -
  let ?raw = "signal_wire \<lparr>sig_Type = Message, sig_From = 5, sig_ID = 6, sig_Content = []\<rparr>"
  have raw: "signal_New Message 5 6 [] = Inr ?raw"
    by (simp add: signal_New_eq Message_def str_def)
  show ?thesis
    using outbox_metadata_lost [OF demo_ext_laws(6) raw demo_outbox_Put] by (rule conjunct1)
qed

end
