(* ===== verification/Client.thy ===== *)
theory Client
  imports Session MessageStore Outbox
begin

text \<open>
  The client, from \<open>client/client.go\<close>: its state, sending messages and files, the outbox, and what an
  incoming signal or file chunk does.

  Sessions are objects shared by the session map and the goroutines that serve them, so they live in
  a heap and are named by references.  The session map is a list of key and reference; \<open>Range\<close>
  visits it in list order, which stands for any order, since no other operation depends on it.  A
  function without a result returns \<open>Inr ()\<close> or the panic that unwinds it; errors it only logs are
  values it drops.
\<close>

subsection \<open>State\<close>

record pendingFile =
  pnd_meta :: fileMeta
  pnd_received :: int
  pnd_buf :: bytes

record client = store +
  cl_Keys :: Keys
  cl_Timeout :: int
  cl_RateLimit :: int
  cl_RateWindow :: int
  cl_MaxMessageSize :: int
  cl_sessions :: "(key \<times> nat) list"
  cl_heap :: "nat \<Rightarrow> session"
  cl_next :: nat
  cl_pendingFiles :: "uuid \<Rightarrow> pendingFile option"

abbreviation secret_of :: "client \<Rightarrow> key" where
  "secret_of c \<equiv> K_Private (cl_Keys c)"

abbreviation own_key :: "client \<Rightarrow> key" where
  "own_key c \<equiv> K_Public (cl_Keys c)"

text \<open>\<open>sync.Map\<close>.\<close>

definition sessions_Load :: "key \<Rightarrow> client \<Rightarrow> nat option" where
  "sessions_Load k c = map_of (cl_sessions c) k"

definition sessions_Delete :: "key \<Rightarrow> client \<Rightarrow> client" where
  "sessions_Delete k c = c\<lparr>cl_sessions := filter (\<lambda>e. fst e \<noteq> k) (cl_sessions c)\<rparr>"

definition sessions_Store :: "key \<Rightarrow> nat \<Rightarrow> client \<Rightarrow> client" where
  "sessions_Store k r c =
     c\<lparr>cl_sessions := filter (\<lambda>e. fst e \<noteq> k) (cl_sessions c) @ [(k, r)]\<rparr>"

definition set_session :: "nat \<Rightarrow> session \<Rightarrow> client \<Rightarrow> client" where
  "set_session r s c = c\<lparr>cl_heap := (cl_heap c)(r := s)\<rparr>"

abbreviation sess_status :: "nat \<Rightarrow> client \<Rightarrow> PeerStatus" where
  "sess_status r c \<equiv> ss_stat (cl_heap c r)"

definition sess_send :: "ext \<Rightarrow> nat \<Rightarrow> bytes \<Rightarrow> client \<Rightarrow> unit result \<times> client" where
  "sess_send x r plain c = (let (res, s, c) = send x (cl_heap c r) plain c in (res, set_session r s c))"

text \<open>A loop over a list whose body ends the function only by a panic.\<close>

primrec forS :: "('a \<Rightarrow> 's \<Rightarrow> unit result \<times> 's) \<Rightarrow> 'a list \<Rightarrow> 's \<Rightarrow> unit result \<times> 's" where
  "forS f [] s = (Inr (), s)"
| "forS f (a # as) s = bindS (f a s) (\<lambda>_ s. forS f as s)"

subsection \<open>Own name and picture\<close>

record Info =
  inf_Name :: gostring
  inf_ProfilePic :: uuid

definition client_Info :: "ext \<Rightarrow> client \<Rightarrow> Info \<times> client" where
  "client_Info x c =
     (case profile_Get x c of
        (Inl _, c) \<Rightarrow> (\<lparr>inf_Name = [], inf_ProfilePic = uuid_Nil\<rparr>, c)
      | (Inr p, c) \<Rightarrow> (\<lparr>inf_Name = pf_Name p, inf_ProfilePic = pf_ProfilePic p\<rparr>, c))"

definition getName :: "ext \<Rightarrow> client \<Rightarrow> gostring \<times> client" where
  "getName x c = (let (i, c) = client_Info x c in (inf_Name i, c))"

definition setName :: "ext \<Rightarrow> gostring \<Rightarrow> client \<Rightarrow> client" where
  "setName x n c = (let (i, c) = client_Info x c in snd (profile_Update x n (inf_ProfilePic i) c))"

subsection \<open>Sending\<close>

text \<open>
  The common part of \<open>sendMessage\<close> and \<open>sendMessageToPeer\<close>: store the message as our own (a failure is
  only logged), encode it, wrap it in a signal.
\<close>

definition own_message_signal :: "ext \<Rightarrow> message \<Rightarrow> client \<Rightarrow> bytes result \<times> client" where
  "own_message_signal x msg c =
     (let msg = msg\<lparr>msg_FromPubKey := own_key c\<rparr>;
          (name, c) = getName x c;
          (put, msg, c) = message_Put x (secret_of c) name msg c
      in bindS (ignoreS (put, c)) (\<lambda>_ c.
         bindS (wrapS ''encode message'' (liftR (Encode msg) c)) (\<lambda>payload c.
         wrapS ''client: signal'' (liftR (signal_New Message (own_key c) uuid_Nil payload) c))))"

definition sendMessage :: "ext \<Rightarrow> nat \<Rightarrow> message \<Rightarrow> client \<Rightarrow> unit result \<times> client" where
  "sendMessage x r msg c = bindS (own_message_signal x msg c) (\<lambda>sig c. sess_send x r sig c)"

definition queueSignal :: "ext \<Rightarrow> key \<Rightarrow> bytes \<Rightarrow> client \<Rightarrow> unit result \<times> client" where
  "queueSignal x target sig c =
     bindS (wrapS ''queue signal'' (outbox_Put x target sig (secret_of c) c)) (\<lambda>_ c. (Inr (), c))"

definition sendMessageToPeer :: "ext \<Rightarrow> key \<Rightarrow> message \<Rightarrow> client \<Rightarrow> unit result \<times> client" where
  "sendMessageToPeer x target msg c =
     bindS (own_message_signal x msg c) (\<lambda>sig c.
       case sessions_Load target c of
         None \<Rightarrow> queueSignal x target sig c
       | Some r \<Rightarrow> if sess_status r c \<noteq> Accepted then queueSignal x target sig c
                   else sess_send x r sig c)"

text \<open>
  A reader is what its successive reads return, each at most a buffer full, and whether it ends in an
  error instead of the end of the file.
\<close>

type_synonym reader = "bytes list \<times> bool"

definition file_chunk :: "uuid \<Rightarrow> bytes \<Rightarrow> bytes" where
  "file_chunk i data = [0] @ uuid_bytes i @ data"

fun send_chunks :: "ext \<Rightarrow> nat \<Rightarrow> uuid \<Rightarrow> bytes list \<Rightarrow> client \<Rightarrow> unit result \<times> client" where
  "send_chunks x r i [] c = (Inr (), c)"
| "send_chunks x r i (d # ds) c =
     (if d = [] then send_chunks x r i ds c
      else catchS (sess_send x r (file_chunk i d) c)
        (\<lambda>_ c. bindS (wrapS ''queue file chunk failed''
            (queueSignal x (peerPubKey (cl_heap c r)) (file_chunk i d) c)) (\<lambda>_ c. send_chunks x r i ds c))
        (\<lambda>_ c. send_chunks x r i ds c))"

definition sendFile ::
  "ext \<Rightarrow> nat \<Rightarrow> uuid \<Rightarrow> gostring \<Rightarrow> gostring \<Rightarrow> int \<Rightarrow> reader \<Rightarrow> client \<Rightarrow> unit result \<times> client" where
  "sendFile x r i name mimeType sz data c =
     bindS (liftR (encodeFileMeta \<lparr>fm_Name = name, fm_Size = sz, fm_MIME = mimeType\<rparr>) c) (\<lambda>metaRaw c.
     bindS (wrapS ''client: file send'' (liftR (signal_New FileMeta (own_key c) i metaRaw) c)) (\<lambda>sig c.
     bindS (wrapS ''send file meta'' (sess_send x r sig c)) (\<lambda>_ c.
     bindS (send_chunks x r i (fst data) c) (\<lambda>_ c.
       if snd data then (Inl (Err (Wrap ''read file data'' (Errorf ''%!w(<nil>)''))), c)
       else (Inr (), c)))))"

text \<open>The loop of \<open>flushOutbox\<close>: stop at the first entry that cannot be sent.\<close>

fun flush_entries :: "ext \<Rightarrow> nat \<Rightarrow> OutboxSignal list \<Rightarrow> client \<Rightarrow> unit result \<times> client" where
  "flush_entries x r [] c = (Inr (), c)"
| "flush_entries x r (e # es) c =
     catchS (sess_send x r (ob_SignalContent e) c)
       (\<lambda>_ c. ignoreS (IncrementRetry x (ob_ID e) c))
       (\<lambda>_ c. bindS (ignoreS (outbox_Delete x (ob_ID e) c)) (\<lambda>_ c. flush_entries x r es c))"

definition flushOutbox :: "ext \<Rightarrow> key \<Rightarrow> client \<Rightarrow> unit result \<times> client" where
  "flushOutbox x pubKey c =
     catchS (outbox_Get x pubKey (secret_of c) c) (\<lambda>_ c. (Inr (), c)) (\<lambda>entries c.
       if entries = [] then (Inr (), c)
       else case sessions_Load pubKey c of
         None \<Rightarrow> (Inr (), c)
       | Some r \<Rightarrow> if sess_status r c \<noteq> Accepted then (Inr (), c) else flush_entries x r entries c)"

definition sendToAll :: "ext \<Rightarrow> gostring \<Rightarrow> client \<Rightarrow> unit result \<times> client" where
  "sendToAll x content c =
     (let (now, c) = Now x c
      in forS (\<lambda>(_, r) c.
           let (msg, c) = NewMessage x (peerName (cl_heap c r)) content [] c
           in ignoreS (sendMessage x r (msg\<lparr>msg_Time := now\<rparr>) c)) (cl_sessions c) c)"

text \<open>Sending one signal on every session, and what to do with a session where it fails.\<close>

definition broadcast ::
  "ext \<Rightarrow> bytes result \<Rightarrow> (nat \<Rightarrow> bytes \<Rightarrow> client \<Rightarrow> unit result \<times> client) \<Rightarrow> client \<Rightarrow>
    unit result \<times> client" where
  "broadcast x sig on_error c =
     catchS (liftR sig c) (\<lambda>_ c. (Inr (), c)) (\<lambda>payload c.
       forS (\<lambda>(_, r) c. catchS (sess_send x r payload c) (\<lambda>_ c. on_error r payload c)
           (\<lambda>_ c. (Inr (), c))) (cl_sessions c) c)"

definition broadcastDelete :: "ext \<Rightarrow> uuid \<Rightarrow> client \<Rightarrow> unit result \<times> client" where
  "broadcastDelete x i c =
     broadcast x (signal_New Delete (own_key c) i []) (\<lambda>_ _ c. (Inr (), c)) c"

definition broadcastUpdate :: "ext \<Rightarrow> uuid \<Rightarrow> gostring \<Rightarrow> client \<Rightarrow> unit result \<times> client" where
  "broadcastUpdate x i content c =
     broadcast x (signal_New Update (own_key c) i content) (\<lambda>_ _ c. (Inr (), c)) c"

definition broadcastInfoChanged :: "ext \<Rightarrow> client \<Rightarrow> unit result \<times> client" where
  "broadcastInfoChanged x c =
     broadcast x (signal_New InfoChanged (own_key c) uuid_Nil [])
       (\<lambda>r payload c. ignoreS (queueSignal x (peerPubKey (cl_heap c r)) payload c)) c"

definition requestPeerInfo :: "ext \<Rightarrow> nat \<Rightarrow> client \<Rightarrow> unit result \<times> client" where
  "requestPeerInfo x r c =
     catchS (liftR (signal_New InfoRequest (own_key c) uuid_Nil []) c) (\<lambda>_ c. (Inr (), c))
       (\<lambda>sig c. ignoreS (sess_send x r sig c))"

subsection \<open>Authorship\<close>

definition displayNameForPubKey :: "ext \<Rightarrow> key \<Rightarrow> client \<Rightarrow> gostring \<times> client" where
  "displayNameForPubKey x pubKey c =
     (let (p, c) = peers_Get x pubKey c
      in (case p of
            Inl _ \<Rightarrow> take 16 (Key_String pubKey)
          | Inr peer \<Rightarrow>
              (let n = (if kp_Nickname peer = [] then kp_Name peer else kp_Nickname peer)
               in if n \<noteq> [] then n else take 16 (Key_String pubKey)), c))"

definition verifyAuthor :: "ext \<Rightarrow> uuid \<Rightarrow> key \<Rightarrow> client \<Rightarrow> message result \<times> client" where
  "verifyAuthor x i pubKey c =
     bindS (wrapS ''get message'' (message_Get x (secret_of c) i c)) (\<lambda>msg c.
       (if msg_FromPubKey msg = NilKey \<or> pubKey \<noteq> msg_FromPubKey msg
        then Fail ''sender pubkey does not match message author'' else Inr msg, c))"

definition verifyAndDelete :: "ext \<Rightarrow> signal \<Rightarrow> key \<Rightarrow> client \<Rightarrow> unit result \<times> client" where
  "verifyAndDelete x sig pubKey c =
     bindS (verifyAuthor x (sig_ID sig) pubKey c) (\<lambda>_ c.
       wrapS ''verify delete'' (message_Delete x (secret_of c) (sig_ID sig) c))"

definition verifyAndUpdate :: "ext \<Rightarrow> signal \<Rightarrow> key \<Rightarrow> client \<Rightarrow> unit result \<times> client" where
  "verifyAndUpdate x sig pubKey c =
     bindS (verifyAuthor x (sig_ID sig) pubKey c) (\<lambda>msg c.
       let msg = msg\<lparr>msg_Content := sig_Content sig\<rparr>; (name, c) = getName x c
       in wrapS ''verify update'' (message_Update x (secret_of c) (sig_ID sig) name msg c))"

subsection \<open>Peer information\<close>

definition handleInfoRequest :: "ext \<Rightarrow> key \<Rightarrow> client \<Rightarrow> unit result \<times> client" where
  "handleInfoRequest x pubKey c =
     (let (info, c) = client_Info x c in
      bindS (if inf_ProfilePic info \<noteq> uuid_Nil
             then catchS (files_Get x (secret_of c) (inf_ProfilePic info) c) (\<lambda>_ c. (Inr [], c))
                    (\<lambda>data c. (Inr data, c))
             else (Inr [], c)) (\<lambda>pic c.
      bindS (liftR (encodeInfoResponse \<lparr>ir_Name = inf_Name info, ir_ProfilePic = pic\<rparr>) c) (\<lambda>payload c.
      catchS (liftR (signal_New InfoResponse (own_key c) uuid_Nil payload) c) (\<lambda>_ c. (Inr (), c)) (\<lambda>sig c.
        case sessions_Load pubKey c of
          None \<Rightarrow> (Inr (), c)
        | Some r \<Rightarrow> ignoreS (sess_send x r sig c)))))"

text \<open>The picture of an info response: stored under a fresh id, the previous one deleted.\<close>

definition store_peer_pic :: "ext \<Rightarrow> KnownPeer \<Rightarrow> bytes \<Rightarrow> client \<Rightarrow> uuid result \<times> client" where
  "store_peer_pic x peer pic c =
     (if pic = [] then (Inr uuid_Nil, c)
      else let (i, c) = uuid_New x c in
        bindS (files_PutWithID x (secret_of c) i [] pic c) (\<lambda>_ c.
        bindS (ignoreS (files_Delete x (kp_ProfilePic peer) c)) (\<lambda>_ c. (Inr i, c))))"

definition handleInfoResponse :: "ext \<Rightarrow> key \<Rightarrow> bytes \<Rightarrow> client \<Rightarrow> unit result \<times> client" where
  "handleInfoResponse x pubKey content c =
     catchS (liftR (decodeInfoResponse content) c) (\<lambda>_ c. (Inr (), c)) (\<lambda>resp c.
       if ir_Name resp = [] \<and> ir_ProfilePic resp = [] then (Inr (), c)
       else catchS (peers_Get x pubKey c) (\<lambda>_ c. (Inr (), c)) (\<lambda>peer c.
         catchS (store_peer_pic x peer (ir_ProfilePic resp) c) (\<lambda>_ c. (Inr (), c)) (\<lambda>newID c.
           let peer = (if ir_Name resp \<noteq> [] then peer\<lparr>kp_Name := ir_Name resp\<rparr> else peer);
               peer = (if newID \<noteq> uuid_Nil then peer\<lparr>kp_ProfilePic := newID\<rparr> else peer)
           in ignoreS (peers_Add x peer c))))"

definition handleInfoChanged :: "ext \<Rightarrow> key \<Rightarrow> client \<Rightarrow> unit result \<times> client" where
  "handleInfoChanged x pubKey c =
     (case sessions_Load pubKey c of None \<Rightarrow> (Inr (), c) | Some r \<Rightarrow> requestPeerInfo x r c)"

definition handlePeerAccepted :: "ext \<Rightarrow> key \<Rightarrow> client \<Rightarrow> unit result \<times> client" where
  "handlePeerAccepted x pubKey c =
     catchS (peers_Get x pubKey c) (\<lambda>_ c. (Inr (), c)) (\<lambda>peer c.
     bindS (ignoreS (peers_Add x (peer\<lparr>kp_Status := Accepted\<rparr>) c)) (\<lambda>_ c.
       (Inr (), case sessions_Load pubKey c of
          None \<Rightarrow> c
        | Some r \<Rightarrow> set_session r (setStatus Accepted (cl_heap c r)) c)))"

subsection \<open>Incoming signals\<close>

text \<open>The case of \<open>signal.Message\<close>.\<close>

definition handleMessage :: "ext \<Rightarrow> signal \<Rightarrow> key \<Rightarrow> client \<Rightarrow> unit result \<times> client" where
  "handleMessage x sig pubKey c =
     catchS (liftR (ToMessage (sig_Content sig)) c) (\<lambda>_ c. (Inr (), c)) (\<lambda>msg c.
       let msg = msg\<lparr>msg_FromPubKey := pubKey\<rparr>;
           (fromName, c) = displayNameForPubKey x pubKey c;
           (put, msg, c) = message_Put x (secret_of c) fromName msg c
       in bindS (ignoreS (put, c)) (\<lambda>_ c. (Inr (), snd (getName x c))))"

definition handleSignal :: "ext \<Rightarrow> signal \<Rightarrow> key \<Rightarrow> client \<Rightarrow> unit result \<times> client" where
  "handleSignal x sig pubKey c =
     (if sig_Type sig = Message then
        (if sig_From sig \<noteq> pubKey then (Inr (), c) else handleMessage x sig pubKey c)
      else if sig_Type sig = FileMeta then
        (if sig_From sig \<noteq> pubKey then (Inr (), c)
         else catchS (liftR (decodeFileMeta (sig_Content sig)) c) (\<lambda>_ c. (Inr (), c)) (\<lambda>meta c.
           (Inr (), c\<lparr>cl_pendingFiles := (cl_pendingFiles c)(sig_ID sig :=
              Some \<lparr>pnd_meta = meta, pnd_received = 0, pnd_buf = []\<rparr>)\<rparr>)))
      else if sig_Type sig = Delete then
        (if sig_From sig \<noteq> pubKey then (Inr (), c) else ignoreS (verifyAndDelete x sig pubKey c))
      else if sig_Type sig = Update then
        (if sig_From sig \<noteq> pubKey then (Inr (), c) else ignoreS (verifyAndUpdate x sig pubKey c))
      else if sig_Type sig = InfoRequest then handleInfoRequest x pubKey c
      else if sig_Type sig = InfoResponse then handleInfoResponse x pubKey (sig_Content sig) c
      else if sig_Type sig = InfoChanged then handleInfoChanged x pubKey c
      else if sig_Type sig = PeerAccepted then handlePeerAccepted x pubKey c
      else (Inr (), c))"

subsection \<open>Incoming file chunks\<close>

definition finalizeFile :: "ext \<Rightarrow> uuid \<Rightarrow> pendingFile \<Rightarrow> client \<Rightarrow> unit result \<times> client" where
  "finalizeFile x i pf c =
     (let att = \<lparr>att_ID = i, att_Name = fm_Name (pnd_meta pf), att_MIMEType = fm_MIME (pnd_meta pf),
                 att_Size = fm_Size (pnd_meta pf), att_Data = pnd_buf pf\<rparr>;
          (res, _, c) = StoreAttachments x (secret_of c) [] [att] c
      in ignoreS (res, c\<lparr>cl_pendingFiles := (cl_pendingFiles c)(i := None)\<rparr>))"

definition handleFileChunk :: "ext \<Rightarrow> bytes \<Rightarrow> client \<Rightarrow> unit result \<times> client" where
  "handleFileChunk x plain c =
     (if length plain < FileIDLen then (Inr (), c)
      else let i = uuid_of (take FileIDLen plain); data = drop FileIDLen plain
        in case cl_pendingFiles c i of
             None \<Rightarrow> (Inr (), c)
           | Some pf \<Rightarrow>
               (let pf = pf\<lparr>pnd_buf := pnd_buf pf @ data, pnd_received := int64 (pnd_received pf + int (length data))\<rparr>;
                    c = c\<lparr>cl_pendingFiles := (cl_pendingFiles c)(i := Some pf)\<rparr>
                in if pnd_received pf \<ge> fm_Size (pnd_meta pf) then finalizeFile x i pf c else (Inr (), c)))"

definition handleDecrypted :: "ext \<Rightarrow> bytes \<Rightarrow> nat \<Rightarrow> key \<Rightarrow> client \<Rightarrow> unit result \<times> client" where
  "handleDecrypted x plain r pubKey c =
     (case plain of
        [] \<Rightarrow> (Inr (), c)
      | b # rest \<Rightarrow>
          if b = Marker then
            catchS (liftR (signal_Parse plain) c) (\<lambda>_ c. (Inr (), c)) (\<lambda>sig c.
              if sess_status r c \<noteq> Accepted then
                (if sig_Type sig \<in> {InfoRequest, InfoResponse, InfoChanged, PeerAccepted}
                 then handleSignal x sig pubKey c else (Inr (), c))
              else
               (let (now, c) = Now x c;
                    (allowed, l) = Allow now (ss_msgLimiter (cl_heap c r));
                    c = set_session r ((cl_heap c r)\<lparr>ss_msgLimiter := l\<rparr>) c
                in bindS (allowed, c) (\<lambda>ok c.
                     if ok then handleSignal x sig pubKey c else (Inr (), c))))
          else handleFileChunk x rest c)"

subsection \<open>Sending on a session\<close>

text \<open>What a successful send leaves: the counter advanced, the sealed frame written.\<close>

definition sent :: "ext \<Rightarrow> bytes \<Rightarrow> bytes \<Rightarrow> session \<Rightarrow> session" where
  "sent x k plain s = write_conn (sealed_frame x k (cph_nonce (ss_sendr s)) plain) (next_send s)"

lemma WriteMessage_eq:
  "WriteMessage x f c w = (conn_open c \<and> x_write x (tick w),
     if conn_open c \<and> x_write x (tick w) then c\<lparr>conn_sent := conn_sent c @ [f]\<rparr> else c, w\<lparr>tick := Suc (tick w)\<rparr>)"
  by (simp add: WriteMessage_def Let_def)

lemma send_spec:
  assumes "send x s plain w = (r, s', w')"
  shows "\<not> is_panic r \<and> ss_stat s' = ss_stat s \<and> ss_peer s' = ss_peer s \<and> ss_recv s' = ss_recv s \<and>
    ss_msgLimiter s' = ss_msgLimiter s \<and> (\<exists>t. w' = w\<lparr>tick := t\<rparr> \<and> tick w \<le> t) \<and>
    cph_key (ss_sendr s') = cph_key (ss_sendr s) \<and>
    (r = Inr () \<longrightarrow> (\<exists>k. has_send_key s k \<and> s' = sent x k plain s)) \<and>
    (\<forall>e. r = Inl e \<longrightarrow> ss_conn s' = ss_conn s)"
proof -
  have t: "\<exists>t. w = w\<lparr>tick := t\<rparr> \<and> tick w \<le> t" by (rule exI [of _ "tick w"]) simp
  show ?thesis
  proof (cases "session_encrypt x s plain")
    case (Pair q s1)
    show ?thesis
    proof (cases q)
      case (Inl e)
      then have "r = Inl e" "s' = s1" "w' = w" using assms Pair by (auto simp: send_def)
      with Pair Inl t show ?thesis
        by (auto simp: session_encrypt_def aesGCM_def Let_def split: option.splits if_splits)
    next
      case (Inr f)
      then obtain k where k: "has_send_key s k" "f = sealed_frame x k (cph_nonce (ss_sendr s)) plain"
        "s1 = next_send s"
        using Pair by (auto simp: session_encrypt_def aesGCM_def has_send_key_def sealed_frame_def
            next_send_def Let_def bindR_def split: option.splits if_splits)
      have "write_frame x s1 f w = (r, s', w')" using assms Pair Inr by (simp add: send_def)
      with k t show ?thesis
        by (auto simp: write_frame_def WriteMessage_eq sent_def write_conn_def next_send_def Let_def
            split: option.splits if_splits)
    qed
  qed
qed

lemma send_succeeds:
  assumes "has_send_key s k" "ss_conn s = Some c" "conn_open c" "\<And>t. x_write x t"
  shows "\<exists>w'. send x s plain w = (Inr (), sent x k plain s, w')"
  using assms encrypt_frame [OF assms(1), of x plain]
  by (auto simp: send_def write_frame_def WriteMessage_eq sent_def write_conn_def next_send_def Let_def)

lemma sess_send_spec:
  assumes "sess_send x r plain c = (q, c')"
  shows "\<not> is_panic q \<and> (\<exists>t s'. c' = c\<lparr>tick := t, cl_heap := (cl_heap c)(r := s')\<rparr> \<and> tick c \<le> t \<and>
    ss_stat s' = ss_stat (cl_heap c r) \<and> ss_peer s' = ss_peer (cl_heap c r) \<and>
    cph_key (ss_sendr s') = cph_key (ss_sendr (cl_heap c r)) \<and>
    (q = Inr () \<longrightarrow> (\<exists>k. has_send_key (cl_heap c r) k \<and> s' = sent x k plain (cl_heap c r))) \<and>
    (\<forall>e. q = Inl e \<longrightarrow> ss_conn s' = ss_conn (cl_heap c r)))"
proof -
  obtain s' c1 where s: "send x (cl_heap c r) plain c = (q, s', c1)" "c' = set_session r s' c1"
    using assms by (auto simp: sess_send_def split: prod.splits)
  note sp = send_spec [OF s(1)]
  then obtain t where t: "c1 = c\<lparr>tick := t\<rparr>" "tick c \<le> t" by blast
  have "c' = c\<lparr>tick := t, cl_heap := (cl_heap c)(r := s')\<rparr>" by (simp add: s(2) t set_session_def)
  with sp t(2) show ?thesis by blast
qed

text \<open>Sending leaves the database alone.\<close>

lemma sess_send_frame:
  assumes "sess_send x r plain c = (q, c')"
  shows "outbox c' = outbox c" "tick c \<le> tick c'" "chats c' = chats c" "cache c' = cache c"
    "files c' = files c" "known_peers c' = known_peers c" "cl_sessions c' = cl_sessions c"
    "cl_Keys c' = cl_Keys c" "cl_pendingFiles c' = cl_pendingFiles c" "profile c' = profile c"
    "chat_search c' = chat_search c" "j \<noteq> r \<Longrightarrow> cl_heap c' j = cl_heap c j"
    "sess_status j c' = sess_status j c"
  using sess_send_spec [OF assms] by auto

subsection \<open>Flushing the outbox\<close>

definition conn_frames :: "session \<Rightarrow> bytes list" where
  "conn_frames s = (case ss_conn s of None \<Rightarrow> [] | Some c \<Rightarrow> conn_sent c)"

lemma conn_frames_sent:
  "ss_conn s \<noteq> None \<Longrightarrow>
    conn_frames (sent x k plain s) = conn_frames s @ [sealed_frame x k (cph_nonce (ss_sendr s)) plain]"
  by (auto simp: conn_frames_def sent_def write_conn_def next_send_def)

lemma sent_simps [simp]:
  "cph_nonce (ss_sendr (sent x k plain s)) = cph_nonce (ss_sendr s) + 1"
  "has_send_key (sent x k plain s) j = has_send_key s j" "ss_conn (sent x k plain s) = None \<longleftrightarrow> ss_conn s = None"
  "ss_stat (sent x k plain s) = ss_stat s"
  by (auto simp: sent_def write_conn_def next_send_def has_send_key_def)

text \<open>The frames that carry a list of payloads from a given counter value on.\<close>

primrec frames_from :: "ext \<Rightarrow> bytes \<Rightarrow> 64 word \<Rightarrow> bytes list \<Rightarrow> bytes list" where
  "frames_from x k n [] = []"
| "frames_from x k n (p # ps) = sealed_frame x k n p # frames_from x k (n + 1) ps"

definition conn_live :: "session \<Rightarrow> bool" where
  "conn_live s \<longleftrightarrow> (\<exists>c. ss_conn s = Some c \<and> conn_open c)"

lemma conn_live_sent [simp]: "conn_live (sent x k plain s) = conn_live s"
  by (auto simp: conn_live_def sent_def write_conn_def next_send_def)

lemma sess_send_live:
  assumes "has_send_key (cl_heap c r) k" "conn_live (cl_heap c r)" "\<And>t. x_write x t"
  shows "fst (sess_send x r plain c) = Inr ()"
proof -
  obtain cn where "ss_conn (cl_heap c r) = Some cn" "conn_open cn" using assms(2) by (auto simp: conn_live_def)
  from send_succeeds [OF assms(1) this assms(3), of plain c] show ?thesis
    by (auto simp: sess_send_def)
qed

lemma outbox_ok_sess_send:
  assumes "outbox_ok x secret c" "sess_send x r plain c = (q, c')"
  shows "outbox_ok x secret c' \<and> outbox_queue x secret c' = outbox_queue x secret c"
  using sess_send_frame [OF assms(2)] assms(1) by (auto intro: outbox_ok_cong outbox_queue_cong)

lemma outbox_heap_frame:
  "cl_heap (snd (outbox_Delete x i c)) = cl_heap c" "cl_heap (snd (IncrementRetry x i c)) = cl_heap c"
  by (simp_all add: outbox_Delete_def IncrementRetry_def db_exec_eq)

lemma flush_entries_spec:
  assumes "outbox_ok x secret c" "\<And>t. x_db x t" "has_send_key (cl_heap c r) key" "ss_conn (cl_heap c r) \<noteq> None"
    and "flush_entries x r es c = (res, c')"
  shows "res = Inr () \<and> outbox_ok x secret c' \<and> (\<exists>n \<le> length es.
    (\<forall>j. outbox_queue x secret c' j = filter (\<lambda>e. fst e \<notin> ob_ID ` set (take n es)) (outbox_queue x secret c j)) \<and>
    conn_frames (cl_heap c' r) = conn_frames (cl_heap c r) @
      frames_from x key (cph_nonce (ss_sendr (cl_heap c r))) (map ob_SignalContent (take n es)) \<and>
    (conn_live (cl_heap c r) \<and> (\<forall>t. x_write x t) \<longrightarrow> n = length es))"
  using assms(1,3,4,5)
proof (induction es arbitrary: c)
  case Nil
  then show ?case by auto
next
  case (Cons e es)
  obtain q c1 where snd: "sess_send x r (ob_SignalContent e) c = (q, c1)" by fastforce
  note sp = sess_send_spec [OF snd] and ok1 = outbox_ok_sess_send [OF Cons.prems(1) snd]
  show ?case
  proof (cases q)
    case (Inl f)
    then obtain g where g: "f = Err g" using sp by (cases f) auto
    have eq: "flush_entries x r (e # es) c = ignoreS (IncrementRetry x (ob_ID e) c1)"
      using snd Inl g by simp
    have c': "res = Inr ()" "c' = snd (IncrementRetry x (ob_ID e) c1)"
      using Cons.prems(4) assms(2) unfolding eq by (auto simp: IncrementRetry_def db_exec_eq)
    have "conn_frames (cl_heap c' r) = conn_frames (cl_heap c r)"
      using sp Inl by (auto simp: c' outbox_heap_frame conn_frames_def)
    moreover have "\<not> (conn_live (cl_heap c r) \<and> (\<forall>t. x_write x t))"
      using sess_send_live [OF Cons.prems(2), of x "ob_SignalContent e"] snd Inl by auto
    ultimately show ?thesis
      using IncrementRetry_queue [OF conjunct1 [OF ok1], of "ob_ID e"] ok1 c'
      by (intro conjI exI [of _ 0]) auto
  next
    case (Inr u)
    then obtain s' where s': "cl_heap c1 r = s'" "s' = sent x key (ob_SignalContent e) (cl_heap c r)"
      using sp Cons.prems(2) by (auto simp: has_send_key_def)
    obtain d c2 where del: "outbox_Delete x (ob_ID e) c1 = (Inr d, c2)"
      using assms(2) by (auto simp: outbox_Delete_def db_exec_eq)
    note d = ob.del_removes [OF conjunct1 [OF ok1] del]
    have h2: "cl_heap c2 = cl_heap c1" using outbox_heap_frame(1) [of x "ob_ID e" c1] del by simp
    have "flush_entries x r es c2 = (res, c')"
      using Cons.prems(4) snd Inr del by simp
    from Cons.IH [OF _ _ _ this] d h2 s' Cons.prems(2,3)
    obtain n where n: "res = Inr ()" "outbox_ok x secret c'" "n \<le> length es"
      "\<forall>j. outbox_queue x secret c' j = filter (\<lambda>e. fst e \<notin> ob_ID ` set (take n es)) (outbox_queue x secret c2 j)"
      "conn_frames (cl_heap c' r) = conn_frames s' @
        frames_from x key (cph_nonce (ss_sendr s')) (map ob_SignalContent (take n es))"
      "conn_live s' \<and> (\<forall>t. x_write x t) \<longrightarrow> n = length es"
      by auto
    have "outbox_queue x secret c' j = filter (\<lambda>f. fst f \<notin> ob_ID ` set (take (Suc n) (e # es))) (outbox_queue x secret c j)" for j
      using n(4) d ok1 by (auto intro: filter_cong)
    then show ?thesis
      using n s' Cons.prems(3) by (intro conjI exI [of _ "Suc n"]) (auto simp: conn_frames_sent)
  qed
qed

lemma flushOutbox_spec:
  assumes "outbox_ok x (secret_of c) c" "\<And>t. x_db x t"
    and "sessions_Load k c = Some r" "sess_status r c = Accepted"
    and "has_send_key (cl_heap c r) key" "conn_live (cl_heap c r)"
    and "flushOutbox x k c = (res, c')"
  shows "res = Inr () \<and> outbox_ok x (secret_of c) c' \<and> (\<exists>es n.
    fst (outbox_Get x k (secret_of c) c) = Inr es \<and> n \<le> length es \<and>
    mset (map signal_entry es) = mset (outbox_queue x (secret_of c) c k) \<and> sorted (map ob_CreatedAt es) \<and>
    mset (outbox_queue x (secret_of c) c' k) = mset (map signal_entry (drop n es)) \<and>
    (\<forall>j. j \<noteq> k \<longrightarrow> outbox_queue x (secret_of c) c' j = outbox_queue x (secret_of c) c j) \<and>
    conn_frames (cl_heap c' r) = conn_frames (cl_heap c r) @
      frames_from x key (cph_nonce (ss_sendr (cl_heap c r))) (map ob_SignalContent (take n es)) \<and>
    ((\<forall>t. x_write x t) \<longrightarrow> n = length es))"
proof -
  let ?q = "outbox_queue x (secret_of c) c"
  define c1 where "c1 = c\<lparr>tick := tick c + 2\<rparr>"
  obtain es where es: "outbox_Get x k (secret_of c) c = (Inr es, c1)"
    using outbox_Get_eq [OF assms(1,2,2)] c1_def by blast
  then have "entries_got x (secret_of c) k c = (Inr (map signal_entry es), c1)" by (simp add: entries_got_def)
  from ob.get_sorted [OF assms(1) this]
  have got: "mset (map signal_entry es) = mset (?q k)" "sorted (map ob_CreatedAt es)"
    by (auto simp: signal_entry_def comp_def)
  have c1: "outbox_ok x (secret_of c) c1" "outbox_queue x (secret_of c) c1 = ?q"
    using outbox_ok_cong [OF assms(1), of c1] outbox_queue_cong [of c1 c] by (auto simp: c1_def)
  have h: "cl_heap c1 = cl_heap c" "ss_conn (cl_heap c1 r) \<noteq> None"
    using assms(6) by (auto simp: c1_def conn_live_def)
  have fl: "flush_entries x r es c1 = (res, c')"
    using assms(3,4,7) es by (cases "es = []") (simp_all add: flushOutbox_def sessions_Load_def c1_def)
  from flush_entries_spec [OF c1(1) assms(2) _ h(2) fl, of key] assms(5,6) h(1) c1(2)
  obtain n where n: "res = Inr ()" "outbox_ok x (secret_of c) c'" "n \<le> length es"
    "\<forall>j. outbox_queue x (secret_of c) c' j = filter (\<lambda>e. fst e \<notin> ob_ID ` set (take n es)) (?q j)"
    "conn_frames (cl_heap c' r) = conn_frames (cl_heap c r) @
      frames_from x key (cph_nonce (ss_sendr (cl_heap c r))) (map ob_SignalContent (take n es))"
    "(\<forall>t. x_write x t) \<longrightarrow> n = length es"
    by auto
  have "fst ` set (take n (map signal_entry es)) = ob_ID ` set (take n es)"
    by (simp add: take_map image_image signal_entry_def)
  with ob.removed_entries [OF assms(1) got(1), of c' n] n(4)
  have "mset (outbox_queue x (secret_of c) c' k) = mset (map signal_entry (drop n es))"
    "\<forall>j. j \<noteq> k \<longrightarrow> outbox_queue x (secret_of c) c' j = ?q j" by (simp_all add: drop_map)
  with es got n show ?thesis by (intro conjI exI [of _ es] exI [of _ n]) simp_all
qed

text \<open>
  C22: Flushing a connected, accepted peer's outbox delivers it in the order the store gives it, which is
  the order of the seconds the entries were queued in: some prefix of that list is sealed and written to
  that peer's session, exactly those entries are removed, the others stay, and no other peer's queue is
  touched; when every write succeeds the whole queue is delivered and emptied.
\<close>

theorem flush_delivers_in_order:
  assumes "outbox_ok x (secret_of c) c" "\<And>t. x_db x t"
    and "sessions_Load k c = Some r" "sess_status r c = Accepted"
    and "has_send_key (cl_heap c r) key" "conn_live (cl_heap c r)"
    and "flushOutbox x k c = (res, c')"
  shows "res = Inr () \<and> outbox_ok x (secret_of c) c' \<and> (\<exists>es n.
    fst (outbox_Get x k (secret_of c) c) = Inr es \<and> n \<le> length es \<and>
    mset (map signal_entry es) = mset (outbox_queue x (secret_of c) c k) \<and> sorted (map ob_CreatedAt es) \<and>
    mset (outbox_queue x (secret_of c) c' k) = mset (map signal_entry (drop n es)) \<and>
    (\<forall>j. j \<noteq> k \<longrightarrow> outbox_queue x (secret_of c) c' j = outbox_queue x (secret_of c) c j) \<and>
    conn_frames (cl_heap c' r) = conn_frames (cl_heap c r) @
      frames_from x key (cph_nonce (ss_sendr (cl_heap c r))) (map ob_SignalContent (take n es)) \<and>
    ((\<forall>t. x_write x t) \<longrightarrow> n = length es))"
  using assms by (rule flushOutbox_spec)

definition demo_client :: client where
  "demo_client = \<lparr>tick = 0, chats = [], chat_search = [], files = [], known_peers = [], outbox = [],
     profile = None, cache = (\<lambda>_. None), cl_Keys = keys_of_seed demo_ext 5, cl_Timeout = 1,
     cl_RateLimit = 100, cl_RateWindow = 1000, cl_MaxMessageSize = 1000, cl_sessions = [(9, 0)],
     cl_heap = (\<lambda>_. demo_session), cl_next = 1, cl_pendingFiles = (\<lambda>_. None)\<rparr>"

lemma demo_client_ok: "outbox_ok demo_ext secret demo_client" "cache_coherent demo_ext secret demo_client"
  using demo_ext_laws
  by (simp_all add: outbox_ok_def demo_client_def primary_key_def cache_coherent_def)

lemma demo_queued:
  "outbox_Put demo_ext k raw secret demo_client = (Inr 2, snd (outbox_Put demo_ext k raw secret demo_client))"
  by (simp add: outbox_Put_eq demo_client_def lookup_row_def Let_def)

theorem flush_delivers_in_order_witness:
  "outbox_queue demo_ext 5 (snd (flushOutbox demo_ext 9 (snd (outbox_Put demo_ext 9 [1, 2] 5 demo_client)))) 9 = []"
proof -
  define c where "c = snd (outbox_Put demo_ext 9 [1, 2] 5 demo_client)"
  have q: "outbox_ok demo_ext 5 c"
    using ob.put_appends [OF demo_client_ok(1) demo_queued [of 9 "[1, 2]" 5]] by (simp add: c_def)
  have s: "secret_of c = 5" "sessions_Load 9 c = Some 0" "sess_status 0 c = Accepted"
    "cl_heap c 0 = demo_session"
    by (simp_all add: c_def outbox_Put_eq demo_client_def lookup_row_def Let_def sessions_Load_def
        keys_of_seed_def demo_session_def)
  have "has_send_key (cl_heap c 0) (replicate 32 1)" "conn_live (cl_heap c 0)"
    by (simp_all add: s has_send_key_def conn_live_def demo_session_def aes_key_ok_def)
  from flush_delivers_in_order [of demo_ext c, unfolded s(1), OF q _ s(2,3) this prod.collapse [symmetric]]
  show ?thesis by (auto simp: c_def)
qed

subsection \<open>Queueing for an offline peer\<close>

lemma getName_frame: "snd (getName x c) = c\<lparr>tick := Suc (tick c)\<rparr>"
  by (auto simp: getName_def client_Info_def profile_Get_def db_query_eq liftR_def Let_def bindS_def
      split: prod.splits sum.splits option.splits)

lemma message_Put_succeeds:
  assumes "message_ok msg" "\<And>t. x_db x t"
  shows "\<exists>s'. message_Put x secret fromName msg s = (Inr (put_id x msg s), msg\<lparr>msg_ID := put_id x msg s\<rparr>, s')"
  using assms Encode_ok [OF assms(1)]
  by (auto simp: message_Put_def uuid_New_def put_id_def chats_PutWithID_eq Let_def)

definition as_own :: "client \<Rightarrow> message \<Rightarrow> message" where
  "as_own c msg = msg\<lparr>msg_FromPubKey := own_key c\<rparr>"

definition message_signal :: "client \<Rightarrow> message \<Rightarrow> signal" where
  "message_signal c msg = \<lparr>sig_Type = Message, sig_From = own_key c, sig_ID = uuid_Nil,
     sig_Content = message_wire (as_own c msg)\<rparr>"

lemma own_message_signal_spec:
  assumes "aead_laws x" "cache_coherent x (secret_of c) c" "\<And>t. x_db x t"
    and "message_ok msg" "msg_ID msg \<noteq> uuid_Nil" "length (message_wire (as_own c msg)) \<le> 4294967295"
  shows "\<exists>c'. own_message_signal x msg c = (Inr (signal_wire (message_signal c msg)), c') \<and>
    only_chats c c' \<and> cache_coherent x (secret_of c) c' \<and>
    stored x (secret_of c) c' =
      (stored x (secret_of c) c)(x_uuid_String x (msg_ID msg) := Some (message_wire (as_own c msg)))"
proof -
  let ?m = "as_own c msg"
  let ?c1 = "c\<lparr>tick := Suc (tick c)\<rparr>"
  have ok: "message_ok ?m" using assms(4) by (simp add: message_ok_def as_own_def)
  have gn: "getName x c = (fst (getName x c), ?c1)" using getName_frame by (metis prod.collapse)
  have pid: "put_id x ?m ?c1 = msg_ID msg" "?m\<lparr>msg_ID := msg_ID msg\<rparr> = ?m"
    using assms(5) by (simp_all add: put_id_def as_own_def)
  obtain c2 where put: "message_Put x (secret_of c) (fst (getName x c)) ?m ?c1 = (Inr (msg_ID msg), ?m, c2)"
    using message_Put_succeeds [OF ok assms(3), of "secret_of c" _ ?c1] pid by auto
  have coh: "cache_coherent x (secret_of c) ?c1" using assms(2) by simp
  note sp = message_Put_spec [OF assms(1) coh put]
  have "only_chats c c2"
    using sp only_chats_trans [OF only_cache_chats [OF only_cacheI(1)], of c "Suc (tick c)" c2] by simp
  moreover from this have "cl_Keys c2 = cl_Keys c" by (auto simp: only_chats_def)
  moreover have "signal_New Message (own_key c) uuid_Nil (message_wire ?m) = Inr (signal_wire (message_signal c msg))"
    using assms(6) by (simp add: signal_New_eq message_signal_def Message_def str_def)
  ultimately show ?thesis
    using gn put sp Encode_ok [OF ok]
    by (auto simp: own_message_signal_def as_own_def [symmetric] liftR_def split: prod.splits)
qed

lemma sendMessageToPeer_offline:
  assumes "outbox_ok x (secret_of c) c" "cache_coherent x (secret_of c) c" "\<And>t. x_db x t"
    and "\<And>t. lookup_row ob_id (outbox c) (x_uuid_String x (x_uuid_New x t)) = None"
    and "\<And>r. sessions_Load target c = Some r \<Longrightarrow> sess_status r c \<noteq> Accepted"
    and "message_ok msg" "msg_ID msg \<noteq> uuid_Nil" "length (message_wire msg) \<le> 4294967295"
  shows "\<exists>c' i. sendMessageToPeer x target msg c = (Inr (), c') \<and>
    (\<exists>d. outbox_queue x (secret_of c) c' target =
      outbox_queue x (secret_of c) c target @ [(i, d, signal_wire (message_signal c msg))]) \<and>
    outbox_ok x (secret_of c) c' \<and> cl_heap c' = cl_heap c \<and> cl_Keys c' = cl_Keys c \<and>
    cache_coherent x (secret_of c) c' \<and>
    stored x (secret_of c) c' (x_uuid_String x (msg_ID msg)) = Some (message_wire (as_own c msg))"
proof -
  have laws: "aead_laws x" using assms(1) by (simp add: outbox_ok_def)
  have len: "length (message_wire (as_own c msg)) \<le> 4294967295"
    using assms(8) by (simp add: message_wire_def as_own_def)
  obtain c1 where c1: "own_message_signal x msg c = (Inr (signal_wire (message_signal c msg)), c1)"
    "only_chats c c1" "cache_coherent x (secret_of c) c1"
    "stored x (secret_of c) c1 (x_uuid_String x (msg_ID msg)) = Some (message_wire (as_own c msg))"
    using own_message_signal_spec [OF laws assms(2,3,6,7) len] by auto
  then have f: "outbox c1 = outbox c" "tick c \<le> tick c1" "cl_sessions c1 = cl_sessions c"
    "cl_heap c1 = cl_heap c" "cl_Keys c1 = cl_Keys c"
    by (auto simp: only_chats_def)
  obtain i c2 where put: "outbox_Put x target (signal_wire (message_signal c msg)) (secret_of c) c1 = (Inr i, c2)"
    using assms(3,4) unfolding outbox_Put_eq Let_def f by simp
  have ok1: "outbox_ok x (secret_of c) c1" using assms(1) f(1) by (rule outbox_ok_cong)
  have q: "outbox_queue x (secret_of c) c2 target =
      outbox_queue x (secret_of c) c target @ [(i, queue_second x c1, signal_wire (message_signal c msg))]" "outbox_ok x (secret_of c) c2"
    using ob.put_appends [OF ok1 put] outbox_queue_cong [OF f(1)] by simp_all
  have send: "sendMessageToPeer x target msg c = (Inr (), c2)"
    using c1(1) assms(5) put f
    by (auto simp: sendMessageToPeer_def queueSignal_def sessions_Load_def split: option.split)
  have "cl_heap c2 = cl_heap c" "cl_Keys c2 = cl_Keys c"
    using put f by (auto simp: outbox_Put_eq Let_def split: if_splits)
  moreover have "cache_coherent x (secret_of c) c2" "stored x (secret_of c) c2 = stored x (secret_of c) c1"
    using put c1(3) coherent_cong [of c2 c1] stored_cong [of c2 c1]
    by (auto simp: outbox_Put_eq Let_def split: if_splits)
  ultimately show ?thesis using send q c1(4) by auto
qed

lemma message_signal_parse:
  assumes "message_ok msg" "length (message_wire msg) \<le> 4294967295"
  shows "signal_Parse (signal_wire (message_signal c msg)) = Inr (message_signal c msg)"
    "ToMessage (sig_Content (message_signal c msg)) = Inr (as_own c msg)"
proof -
  have "length (message_wire (as_own c msg)) \<le> 4294967295"
    using assms(2) by (simp add: message_wire_def as_own_def)
  then show "signal_Parse (signal_wire (message_signal c msg)) = Inr (message_signal c msg)"
    by (intro sig.roundtrip_exact) (simp add: signal_ok_def message_signal_def Message_def str_def)
  have "message_ok (as_own c msg)" using assms(1) by (simp add: message_ok_def as_own_def)
  then show "ToMessage (sig_Content (message_signal c msg)) = Inr (as_own c msg)"
    by (simp add: message_signal_def msg.roundtrip_exact)
qed

text \<open>
  A message for a peer without an accepted session is not lost: it is stored as our own message
  and the signal that carries it, unchanged, is appended to that peer's outbox queue.
\<close>

theorem offline_message_queued:
  assumes "outbox_ok x (secret_of c) c" "cache_coherent x (secret_of c) c" "\<And>t. x_db x t"
    and "\<And>t. lookup_row ob_id (outbox c) (x_uuid_String x (x_uuid_New x t)) = None"
    and "\<And>r. sessions_Load target c = Some r \<Longrightarrow> sess_status r c \<noteq> Accepted"
    and "message_ok msg" "msg_ID msg \<noteq> uuid_Nil" "length (message_wire msg) \<le> 4294967295"
  shows "\<exists>c' i d sig. sendMessageToPeer x target msg c = (Inr (), c') \<and>
    outbox_queue x (secret_of c) c' target = outbox_queue x (secret_of c) c target @ [(i, d, sig)] \<and>
    (\<exists>s. signal_Parse sig = Inr s \<and> sig_Type s = Message \<and> sig_From s = own_key c \<and>
       ToMessage (sig_Content s) = Inr (msg\<lparr>msg_FromPubKey := own_key c\<rparr>)) \<and>
    fst (message_Get x (secret_of c) (msg_ID msg) c') = Inr (msg\<lparr>msg_FromPubKey := own_key c\<rparr>)"
proof -
  let ?sig = "signal_wire (message_signal c msg)"
  obtain c' i d where c': "sendMessageToPeer x target msg c = (Inr (), c')"
    "outbox_queue x (secret_of c) c' target = outbox_queue x (secret_of c) c target @ [(i, d, ?sig)]"
    "cache_coherent x (secret_of c) c'"
    "stored x (secret_of c) c' (x_uuid_String x (msg_ID msg)) = Some (message_wire (as_own c msg))"
    using sendMessageToPeer_offline [OF assms] by blast
  note parse = message_signal_parse [OF assms(6,8), of c]
  have "fst (message_Get x (secret_of c) (msg_ID msg) c') = Inr (as_own c msg)"
    using message_Get_stored [OF c'(3,4) assms(3)] parse(2) by (simp add: message_signal_def as_own_def)
  with c'(1,2) parse show ?thesis
    by (intro exI [of _ c'] exI [of _ i] exI [of _ d] exI [of _ ?sig]) (simp add: as_own_def message_signal_def)
qed

theorem offline_message_queued_witness:
  "\<exists>c'. sendMessageToPeer demo_ext 4 sample_message demo_client = (Inr (), c') \<and>
     fst (message_Get demo_ext 5 9 c') = Inr (sample_message\<lparr>msg_FromPubKey := 6\<rparr>)"
proof -
  have k: "secret_of demo_client = 5" "own_key demo_client = 6"
    by (simp_all add: demo_client_def keys_of_seed_def) (simp add: demo_ext_def)
  have m: "msg_ID sample_message = 9" "length (message_wire sample_message) \<le> 4294967295"
    by (simp_all add: sample_message_def message_wire_def attachment_wire_def str_def)
  have s: "sessions_Load 4 demo_client = None" "outbox demo_client = []"
    by (simp_all add: sessions_Load_def demo_client_def)
  from offline_message_queued [of demo_ext demo_client 4 sample_message, unfolded k m, OF demo_client_ok _ _ _
      sample_message_ok _ m(2)] s show ?thesis
    by (auto simp: lookup_row_def)
qed

end
