(* ===== verification/Incoming.thy ===== *)
theory Incoming
  imports Client
begin

text \<open>
  What an incoming payload may do to the client: properties of \<open>handleDecrypted\<close>, \<open>handleSignal\<close> and
  the handlers behind it.  The locale \<open>footprint\<close> carries a reflexive and transitive relation of
  states through the control structures of the handlers; its instance \<open>kept\<close> is the part of the state
  that peer information signals leave alone.
\<close>

subsection \<open>Footprints\<close>

locale footprint =
  fixes R :: "'s \<Rightarrow> 's \<Rightarrow> bool"
  assumes same: "R s s"
    and chain: "R s t \<Longrightarrow> R t u \<Longrightarrow> R s u"
begin

lemma ret: "R s (snd (r, s))"
  by (simp add: same)

lemma lift: "R s (snd (liftR r s))"
  by (simp add: liftR_def same)

lemma bind:
  assumes "R s (snd m)" "\<And>v t. m = (Inr v, t) \<Longrightarrow> R t (snd (f v t))"
  shows "R s (snd (bindS m f))"
  using assms by (cases m; cases "fst m") (auto intro: chain)

lemma cond: "(b \<Longrightarrow> R s (snd p)) \<Longrightarrow> (\<not> b \<Longrightarrow> R s (snd q)) \<Longrightarrow> R s (snd (if b then p else q))"
  by simp

lemma wrap: "R s (snd m) \<Longrightarrow> R s (snd (wrapS msg m))"
  by simp

lemma ignore: "R s (snd m) \<Longrightarrow> R s (snd (ignoreS m))"
  by simp

lemma catch:
  assumes "R s (snd m)" "\<And>e t. m = (Inl (Err e), t) \<Longrightarrow> R t (snd (h e t))"
    and "\<And>v t. m = (Inr v, t) \<Longrightarrow> R t (snd (f v t))"
  shows "R s (snd (catchS m h f))"
proof (cases m)
  case (Pair q t)
  show ?thesis
  proof (cases q)
    case (Inl e)
    with Pair assms show ?thesis by (cases e) (auto intro: chain)
  qed (use Pair assms in \<open>auto intro: chain\<close>)
qed

lemma loop:
  assumes "\<And>a s. R s (snd (f a s))"
  shows "R s (snd (forS f as s))"
proof (induction as arbitrary: s)
  case (Cons a as)
  show ?case unfolding forS.simps by (rule bind [OF assms Cons])
qed (simp add: same)

end

text \<open>The switch of \<open>handleSignal\<close>, one signal type at a time.\<close>

lemma handleSignal_cases:
  "sig_Type s = Message \<Longrightarrow> handleSignal x s k c =
     (if sig_From s \<noteq> k then (Inr (), c) else handleMessage x s k c)"
  "sig_Type s = FileMeta \<Longrightarrow> handleSignal x s k c =
     (if sig_From s \<noteq> k then (Inr (), c)
      else catchS (liftR (decodeFileMeta (sig_Content s)) c) (\<lambda>_ c. (Inr (), c)) (\<lambda>meta c.
        (Inr (), c\<lparr>cl_pendingFiles := (cl_pendingFiles c)(sig_ID s :=
           Some \<lparr>pnd_meta = meta, pnd_received = 0, pnd_buf = []\<rparr>)\<rparr>)))"
  "sig_Type s = Delete \<Longrightarrow> handleSignal x s k c =
     (if sig_From s \<noteq> k then (Inr (), c) else ignoreS (verifyAndDelete x s k c))"
  "sig_Type s = Update \<Longrightarrow> handleSignal x s k c =
     (if sig_From s \<noteq> k then (Inr (), c) else ignoreS (verifyAndUpdate x s k c))"
  "sig_Type s = InfoRequest \<Longrightarrow> handleSignal x s k c = handleInfoRequest x k c"
  "sig_Type s = InfoResponse \<Longrightarrow> handleSignal x s k c = handleInfoResponse x k (sig_Content s) c"
  "sig_Type s = InfoChanged \<Longrightarrow> handleSignal x s k c = handleInfoChanged x k c"
  "sig_Type s = PeerAccepted \<Longrightarrow> handleSignal x s k c = handlePeerAccepted x k c"
  "sig_Type s \<notin> {Message, FileMeta, Delete, Update, InfoRequest, InfoResponse, InfoChanged, PeerAccepted} \<Longrightarrow>
     handleSignal x s k c = (Inr (), c)"
  by (simp_all add: handleSignal_def signal_type_defs str_def)

lemma peers_Get_key: "peers_Get x k c = (Inr p, c') \<Longrightarrow> kp_PubKey p = k"
  by (auto simp: peers_Get_eq scan_peer_def bindR_Inr_iff dest!: lookup_key split: if_splits option.splits)

text \<open>
  A footprint that the primitive steps of the peer information handlers keep, as far as they concern one
  peer: sends on its session, reads and writes of its record, files and our own profile.
\<close>

locale peer_footprint = footprint R for R :: "client \<Rightarrow> client \<Rightarrow> bool" +
  fixes x :: ext and k :: key
  assumes send_peer: "sessions_Load k c = Some r \<Longrightarrow> R c (snd (sess_send x r plain c))"
    and get_peer: "R c (snd (peers_Get x k c))" and add_peer: "kp_PubKey p = k \<Longrightarrow> R c (snd (peers_Add x p c))"
    and get_file: "R c (snd (files_Get x sec i c))" and put_file: "R c (snd (files_PutWithID x sec i m d c))"
    and del_file: "R c (snd (files_Delete x i c))"
    and own_info: "R c (snd (client_Info x c))" and new_id: "R c (snd (uuid_New x c))"
begin

lemma info_request: "R c (snd (handleInfoRequest x k c))"
proof -
  obtain i c1 where ci: "client_Info x c = (i, c1)" by fastforce
  have 1: "R c c1" using own_info [of c] ci by simp
  have 2: "R c1 (snd (if inf_ProfilePic i \<noteq> uuid_Nil
      then catchS (files_Get x (secret_of c1) (inf_ProfilePic i) c1) (\<lambda>_ c. (Inr [], c)) (\<lambda>data c. (Inr data, c))
      else (Inr [], c1)))"
    by (auto intro!: catch get_file same)
  have 3: "R c1 (snd (handleInfoRequest x k c))"
    unfolding handleInfoRequest_def ci Let_def prod.case
    by (rule bind [OF 2], rule bind [OF lift], rule catch [OF lift])
      (auto intro!: ret ignore send_peer same split: option.split)
  show ?thesis by (rule chain [OF 1 3])
qed

lemma info_changed: "R c (snd (handleInfoChanged x k c))"
proof -
  have "R c (snd (requestPeerInfo x r c))" if "sessions_Load k c = Some r" for r
    using that unfolding requestPeerInfo_def
    by (intro catch lift ignore ret) (auto simp: liftR_def intro: send_peer)
  then show ?thesis by (auto simp: handleInfoChanged_def intro: same split: option.split)
qed

lemma picture: "R c (snd (store_peer_pic x peer pic c))"
proof -
  obtain i e where e: "uuid_New x c = (i, e)" by fastforce
  have "R c e" using new_id [of c] e by simp
  moreover have "R e (snd (bindS (files_PutWithID x (secret_of e) i [] pic e) (\<lambda>_ c.
      bindS (ignoreS (files_Delete x (kp_ProfilePic peer) c)) (\<lambda>_ c. (Inr i, c)))))"
    by (intro bind ignore put_file del_file ret)
  ultimately show ?thesis using e by (auto simp: store_peer_pic_def intro: chain same)
qed

lemma info_response: "R c (snd (handleInfoResponse x k content c))"
proof -
  have upd: "R d (snd (let peer = (if ir_Name resp \<noteq> [] then peer\<lparr>kp_Name := ir_Name resp\<rparr> else peer);
      peer = (if newID \<noteq> uuid_Nil then peer\<lparr>kp_ProfilePic := newID\<rparr> else peer)
      in ignoreS (peers_Add x peer d)))" if "kp_PubKey peer = k" for resp peer newID d
    unfolding Let_def using that by (intro ignore add_peer) simp
  have rest: "R d (snd (catchS (peers_Get x k d) (\<lambda>_ c. (Inr (), c)) (\<lambda>peer c.
      catchS (store_peer_pic x peer (ir_ProfilePic resp) c) (\<lambda>_ c. (Inr (), c)) (\<lambda>newID c.
        let peer = (if ir_Name resp \<noteq> [] then peer\<lparr>kp_Name := ir_Name resp\<rparr> else peer);
            peer = (if newID \<noteq> uuid_Nil then peer\<lparr>kp_ProfilePic := newID\<rparr> else peer)
        in ignoreS (peers_Add x peer c)))))" for resp d
    by (rule catch [OF get_peer ret], rule catch [OF picture ret], rule upd) (rule peers_Get_key)
  show ?thesis
    unfolding handleInfoResponse_def
    by (rule catch [OF lift], rule ret, rule cond [OF ret], rule rest)
qed

lemma info_signal:
  assumes "sig_Type s \<in> {InfoRequest, InfoResponse, InfoChanged}"
  shows "R c (snd (handleSignal x s k c))"
  using assms
  by (elim insertE emptyE) (simp_all add: handleSignal_cases info_request info_response info_changed)

end

text \<open>A footprint that keeps these steps for every peer, and changes of status, keeps the handlers.\<close>

locale info_footprint = footprint R for R :: "client \<Rightarrow> client \<Rightarrow> bool" +
  fixes x :: ext
  assumes sends: "R c (snd (sess_send x r plain c))"
    and status: "R c (set_session r (setStatus st (cl_heap c r)) c)"
    and peer_get: "R c (snd (peers_Get x k c))" and peer_add: "R c (snd (peers_Add x p c))"
    and file_get: "R c (snd (files_Get x sec i c))" and file_put: "R c (snd (files_PutWithID x sec i m d c))"
    and file_del: "R c (snd (files_Delete x i c))"
    and info: "R c (snd (client_Info x c))" and fresh: "R c (snd (uuid_New x c))"

sublocale info_footprint \<subseteq> peer: peer_footprint R x k for k
  by unfold_locales (rule sends peer_get peer_add file_get file_put file_del info fresh)+

context info_footprint
begin

lemma request: "R c (snd (requestPeerInfo x r c))"
  unfolding requestPeerInfo_def by (intro catch lift ignore sends ret)

lemma peer_accepted: "R c (snd (handlePeerAccepted x k c))"
  unfolding handlePeerAccepted_def
  by (rule catch [OF peer_get], rule ret, rule bind [OF ignore [OF peer_add]])
    (auto intro: same status split: option.split)

lemma info_signal:
  assumes "sig_Type s \<in> {InfoRequest, InfoResponse, InfoChanged, PeerAccepted}"
  shows "R c (snd (handleSignal x s k c))"
proof (cases "sig_Type s = PeerAccepted")
  case True
  then show ?thesis by (simp add: handleSignal_cases peer_accepted)
qed (use assms in \<open>auto intro: peer.info_signal\<close>)

end

text \<open>
  What peer information must not touch: the messages, their index and cache, the outbox, the files
  being received, the identity and the session map.
\<close>

definition kept :: "client \<Rightarrow> client \<Rightarrow> bool" where
  "kept c c' \<longleftrightarrow> chats c' = chats c \<and> chat_search c' = chat_search c \<and> cache c' = cache c \<and>
     outbox c' = outbox c \<and> cl_pendingFiles c' = cl_pendingFiles c \<and> cl_Keys c' = cl_Keys c \<and>
     cl_sessions c' = cl_sessions c \<and> profile c' = profile c"

lemma kept_tick [simp]: "kept c (c\<lparr>tick := t\<rparr>)"
  by (simp add: kept_def)

lemma kept_set_session [simp]: "kept c (set_session r s c)"
  by (simp add: kept_def set_session_def)

lemma kept_sess_send: "kept c (snd (sess_send x r plain c))"
proof (cases "sess_send x r plain c")
  case (Pair q c')
  then show ?thesis by (simp add: kept_def sess_send_frame [OF Pair])
qed

lemma client_Info_frame: "snd (client_Info x c) = c\<lparr>tick := Suc (tick c)\<rparr>"
  by (auto simp: client_Info_def profile_Get_def db_query_eq liftR_def bindS_def
      split: prod.splits sum.splits option.splits)

lemma kept_store:
  "kept c (snd (peers_Get x k c))" "kept c (snd (peers_Add x p c))" "kept c (snd (files_Get x sec i c))"
  "kept c (snd (files_PutWithID x sec i m d c))" "kept c (snd (files_Delete x i c))"
  "kept c (snd (client_Info x c))" "kept c (snd (uuid_New x c))" "kept c (snd (Now x c))"
  by (simp_all add: kept_def peers_Get_eq peers_Add_def files_Get_eq files_PutWithID_eq files_Delete_def
      db_exec_eq client_Info_frame uuid_New_def Now_def Let_def)

interpretation kept: info_footprint kept x for x
  by unfold_locales (simp_all add: kept_sess_send kept_store, auto simp: kept_def)








subsection \<open>Whose messages a signal can change\<close>

lemma verifyAuthor_spec:
  assumes "cache_coherent x (secret_of c) c" "verifyAuthor x i k c = (q, c')"
  shows "only_cache c c' \<and> cache_coherent x (secret_of c) c' \<and>
    (\<forall>m. q = Inr m \<longrightarrow> msg_FromPubKey m = k \<and> msg_FromPubKey m \<noteq> NilKey \<and> (\<exists>plain m0.
       stored x (secret_of c) c (x_uuid_String x i) = Some plain \<and> ToMessage plain = Inr m0 \<and>
       m = m0\<lparr>msg_ID := i\<rparr>))"
proof (cases "message_Get x (secret_of c) i c")
  case (Pair g c1)
  note mg = message_Get_spec [OF assms(1) Pair]
  show ?thesis
  proof (cases g)
    case (Inl e)
    then show ?thesis using assms(2) Pair mg by (auto simp: verifyAuthor_def)
  next
    case (Inr m)
    then have "c' = c1" "q = (if msg_FromPubKey m = NilKey \<or> k \<noteq> msg_FromPubKey m
        then Fail ''sender pubkey does not match message author'' else Inr m)"
      using assms(2) Pair by (auto simp: verifyAuthor_def)
    then show ?thesis using mg Inr by auto
  qed
qed

lemma only_cache_Keys: "only_cache c (c' :: client) \<Longrightarrow> cl_Keys c' = cl_Keys c"
  by (auto simp: only_cache_def)

lemma verifyAndDelete_stored:
  assumes "cache_coherent x (secret_of c) c"
    and "stored x (secret_of c) c j = Some v" "ToMessage v = Inr m" "msg_FromPubKey m \<noteq> k"
  shows "stored x (secret_of c) (snd (verifyAndDelete x s k c)) j = Some v"
proof (cases "verifyAuthor x (sig_ID s) k c")
  case (Pair q c1)
  note va = verifyAuthor_spec [OF assms(1) Pair]
  have st: "stored x (secret_of c) c1 = stored x (secret_of c) c" "cl_Keys c1 = cl_Keys c"
    using va by (auto intro!: stored_cong only_cache_simps only_cache_Keys)
  show ?thesis
  proof (cases q)
    case (Inl e)
    then show ?thesis using Pair st assms(2) by (simp add: verifyAndDelete_def)
  next
    case (Inr n)
    then have "x_uuid_String x (sig_ID s) \<noteq> j" using va assms(2-4) by auto
    moreover obtain d c2 where del: "message_Delete x (secret_of c) (sig_ID s) c1 = (d, c2)" by fastforce
    ultimately have "stored x (secret_of c) c2 j = Some v"
      using message_Delete_spec [OF _ del] va st assms(2) stored_cong [of c2 c1 x "secret_of c"]
      by (cases d) auto
    then show ?thesis using Pair Inr del st by (simp add: verifyAndDelete_def)
  qed
qed

lemma verifyAndUpdate_stored:
  assumes "aead_laws x" "cache_coherent x (secret_of c) c"
    and "stored x (secret_of c) c j = Some v" "ToMessage v = Inr m" "msg_FromPubKey m \<noteq> k"
  shows "stored x (secret_of c) (snd (verifyAndUpdate x s k c)) j = Some v"
proof (cases "verifyAuthor x (sig_ID s) k c")
  case (Pair q c1)
  note va = verifyAuthor_spec [OF assms(2) Pair]
  have st: "stored x (secret_of c) c1 = stored x (secret_of c) c" "cl_Keys c1 = cl_Keys c"
    using va by (auto intro!: stored_cong only_cache_simps only_cache_Keys)
  show ?thesis
  proof (cases q)
    case (Inl e)
    then show ?thesis using Pair st assms(3) by (simp add: verifyAndUpdate_def)
  next
    case (Inr n)
    then have j: "x_uuid_String x (sig_ID s) \<noteq> j" using va assms(3-5) by auto
    obtain name c2 where gn: "getName x c1 = (name, c2)" by fastforce
    then have c2: "c2 = c1\<lparr>tick := Suc (tick c1)\<rparr>" using getName_frame [of x c1] by simp
    let ?n = "n\<lparr>msg_Content := sig_Content s\<rparr>"
    obtain u c3 where up: "message_Update x (secret_of c) (sig_ID s) name ?n c2 = (u, c3)" by fastforce
    obtain g c4 where get: "message_Get x (secret_of c) (sig_ID s) c2 = (g, c4)" by fastforce
    have "cache_coherent x (secret_of c) c2" using va c2 by simp
    from message_Update_spec [OF assms(1) this up get] have "stored x (secret_of c) c3 j = Some v"
      using j st c2 assms(3) stored_cong [of c3 c2 x "secret_of c"] by (cases u) auto
    then show ?thesis using Pair Inr gn up st c2 by (simp add: verifyAndUpdate_def)
  qed
qed

text \<open>
  C12: no signal but a message can change or remove a message someone else wrote: after handling a
  delete, an update, file metadata or any peer information from a peer, every stored message whose
  author is not that peer is still stored, byte for byte.
\<close>

theorem only_authors_change_messages:
  assumes "aead_laws x" "cache_coherent x (secret_of c) c" "sig_Type s \<noteq> Message"
    and "stored x (secret_of c) c j = Some v" "ToMessage v = Inr m" "msg_FromPubKey m \<noteq> k"
  shows "stored x (secret_of c) (snd (handleSignal x s k c)) j = Some v"
proof -
  have info: ?thesis if "sig_Type s \<in> {InfoRequest, InfoResponse, InfoChanged, PeerAccepted}"
    using kept.info_signal [OF that, of c x k] assms(4) stored_cong [of "snd (handleSignal x s k c)" c]
    by (simp add: kept_def)
  have meta: ?thesis if "sig_Type s = FileMeta"
    using assms(4) stored_cong [of "snd (handleSignal x s k c)" c]
    by (auto simp: handleSignal_cases(2) [OF that] catchS_def liftR_def split: sum.splits fault.splits)
  consider "sig_Type s = FileMeta" | "sig_Type s = Delete" | "sig_Type s = Update"
    | "sig_Type s \<in> {InfoRequest, InfoResponse, InfoChanged, PeerAccepted}"
    | "sig_Type s \<notin> {Message, FileMeta, Delete, Update, InfoRequest, InfoResponse, InfoChanged, PeerAccepted}"
    using assms(3) by blast
  then show ?thesis
  proof cases
    case 1
    then show ?thesis by (rule meta)
  next
    case 2
    then show ?thesis
      using verifyAndDelete_stored [OF assms(2,4,5,6), of s] assms(4) by (simp add: handleSignal_cases)
  next
    case 3
    then show ?thesis
      using verifyAndUpdate_stored [OF assms(1,2,4,5,6), of s] assms(4) by (simp add: handleSignal_cases)
  next
    case 4
    then show ?thesis by (rule info)
  next
    case 5
    then show ?thesis using assms(4) by (simp add: handleSignal_cases(9) [OF 5])
  qed
qed

definition demo_with_message :: client where
  "demo_with_message = snd (snd (message_Put demo_ext 5 [] sample_message demo_client))"

lemma demo_with_message_ok:
  "secret_of demo_with_message = 5" "cache_coherent demo_ext 5 demo_with_message"
  "stored demo_ext 5 demo_with_message (uuid_bytes 9) = Some (message_wire sample_message)"
  "sessions_Load 9 demo_with_message = Some 0" "sess_status 0 demo_with_message = Accepted"
  "own_key demo_with_message = 6"
proof -
  have id: "put_id demo_ext sample_message demo_client = 9" "sample_message\<lparr>msg_ID := 9\<rparr> = sample_message"
    by (simp_all add: put_id_def sample_message_def)
  have put: "message_Put demo_ext 5 [] sample_message demo_client = (Inr 9, sample_message, demo_with_message)"
    using message_Put_succeeds [OF sample_message_ok, of demo_ext 5 "[]" demo_client] id
    by (auto simp: demo_with_message_def)
  note sp = message_Put_spec [OF demo_ext_laws(1) demo_client_ok(2) put]
  then show "cache_coherent demo_ext 5 demo_with_message"
    "stored demo_ext 5 demo_with_message (uuid_bytes 9) = Some (message_wire sample_message)"
    using Encode_ok [OF sample_message_ok] by auto
  obtain t cc cs se where eq: "demo_with_message =
      demo_client\<lparr>tick := t, cache := cc, chats := cs, chat_search := se\<rparr>"
    using sp by (auto simp: only_chats_def)
  show "secret_of demo_with_message = 5" "sessions_Load 9 demo_with_message = Some 0"
    "sess_status 0 demo_with_message = Accepted"
    unfolding eq by (simp_all add: demo_client_def keys_of_seed_def sessions_Load_def demo_session_def)
  show "own_key demo_with_message = 6"
    unfolding eq by (simp add: demo_client_def keys_of_seed_def) (simp add: demo_ext_def)
qed

theorem only_authors_change_messages_witness:
  "stored demo_ext 5 (snd (handleSignal demo_ext
      \<lparr>sig_Type = Delete, sig_From = 9, sig_ID = 9, sig_Content = []\<rparr> 9 demo_with_message)) (uuid_bytes 9) =
    Some (message_wire sample_message)"
proof -
  have t: "sig_Type \<lparr>sig_Type = Delete, sig_From = 9, sig_ID = 9, sig_Content = []\<rparr> \<noteq> Message"
    by (simp add: signal_type_defs str_def)
  have a: "msg_FromPubKey sample_message \<noteq> 9" by (simp add: sample_message_def)
  from only_authors_change_messages [of demo_ext demo_with_message, unfolded demo_with_message_ok(1),
      OF demo_ext_laws(1) demo_with_message_ok(2) t demo_with_message_ok(3)
        msg.roundtrip_exact [OF sample_message_ok] a]
  show ?thesis .
qed

lemma handleMessage_stores:
  assumes "aead_laws x" "cache_coherent x (secret_of c) c" "\<And>t. x_db x t"
    and "ToMessage (sig_Content s) = Inr m" "msg_ID m \<noteq> uuid_Nil"
  shows "\<exists>c'. handleMessage x s k c = (Inr (), c') \<and> cache_coherent x (secret_of c) c' \<and>
    stored x (secret_of c) c' = (stored x (secret_of c) c)(x_uuid_String x (msg_ID m) := Some (message_wire (m\<lparr>msg_FromPubKey := k\<rparr>)))"
proof -
  let ?m = "m\<lparr>msg_FromPubKey := k\<rparr>"
  have ok: "message_ok ?m" using msg.sound [OF assms(4)] by (simp add: message_ok_def)
  obtain n c1 where dn: "displayNameForPubKey x k c = (n, c1)" by fastforce
  then have c1: "c1 = c\<lparr>tick := Suc (tick c)\<rparr>"
    by (auto simp: displayNameForPubKey_def peers_Get_eq)
  have pid: "put_id x ?m c1 = msg_ID m" using assms(5) by (simp add: put_id_def)
  obtain c2 where put: "message_Put x (secret_of c) n ?m c1 = (Inr (msg_ID m), ?m, c2)"
    using message_Put_succeeds [OF ok assms(3), of "secret_of c" n c1] pid by auto
  have "cache_coherent x (secret_of c) c1" using assms(2) by (simp add: c1)
  note sp = message_Put_spec [OF assms(1) this put]
  have "handleMessage x s k c = (Inr (), c2\<lparr>tick := Suc (tick c2)\<rparr>)"
    using dn c1 put assms(4) getName_frame [of x c2] by (simp add: handleMessage_def liftR_def)
  with sp Encode_ok [OF ok] show ?thesis by (auto simp: c1)
qed

text \<open>
  C37: a message signal is not so restrained: its id is the sender's choice and \<open>Put\<close> replaces
  whatever is stored under it, so a peer can overwrite any message whose id it knows, including one
  written by us or by somebody else, and becomes its author.
\<close>

theorem message_signal_overwrites:
  assumes "aead_laws x" "cache_coherent x (secret_of c) c" "\<And>t. x_db x t"
    and "sig_Type s = Message" "sig_From s = k" "ToMessage (sig_Content s) = Inr m" "msg_ID m \<noteq> uuid_Nil"
  shows "stored x (secret_of c) (snd (handleSignal x s k c)) (x_uuid_String x (msg_ID m)) =
    Some (message_wire (m\<lparr>msg_FromPubKey := k\<rparr>))"
  using handleMessage_stores [OF assms(1-3,6,7), of k] assms(4,5) by (auto simp: handleSignal_cases)

theorem message_signal_overwrites_witness:
  "stored demo_ext 5 demo_with_message (uuid_bytes 9) = Some (message_wire sample_message) \<and>
   stored demo_ext 5 (snd (handleSignal demo_ext \<lparr>sig_Type = Message, sig_From = 2, sig_ID = 0,
     sig_Content = message_wire (sample_message\<lparr>msg_Content := str ''forged''\<rparr>)\<rparr> 2 demo_with_message))
     (uuid_bytes 9) =
   Some (message_wire (sample_message\<lparr>msg_Content := str ''forged'', msg_FromPubKey := 2\<rparr>))"
proof -
  let ?m = "sample_message\<lparr>msg_Content := str ''forged''\<rparr>"
  have "message_ok ?m" using sample_message_ok by (simp add: message_ok_def str_def)
  then have d: "ToMessage (message_wire ?m) = Inr ?m" by (rule msg.roundtrip_exact)
  have i: "msg_ID ?m = 9" by (simp add: sample_message_def)
  from message_signal_overwrites [of demo_ext demo_with_message "\<lparr>sig_Type = Message, sig_From = 2, sig_ID = 0,
     sig_Content = message_wire ?m\<rparr>" 2 ?m, unfolded demo_with_message_ok(1) i,
     OF demo_ext_laws(1) demo_with_message_ok(2)] d demo_with_message_ok(3) show ?thesis
    by simp
qed

lemma accepted_by_signal:
  assumes "sessions_Load k c = Some r" "sess_status r c = Pending" "\<And>t. x_db x t" "uuid_laws x"
    and "signal_Parse plain = Inr s" "sig_Type s = PeerAccepted"
    and "lookup_row pr_pub_key (known_peers c) (Key_String k) = Some row" "scan_peer x row = Inr p"
  shows "\<exists>c'. handleDecrypted x plain r k c = (Inr (), c') \<and> sess_status r c' = Accepted \<and>
    (\<exists>p'. fst (peers_Get x k c') = Inr p' \<and> kp_Status p' = Accepted)"
proof -
  obtain rest where plain: "plain = Marker # rest"
    using sig.sound [OF assms(5)] by (auto simp: signal_wire_def)
  have "Pending \<noteq> Accepted" by (simp add: Pending_def Accepted_def str_def)
  then have h: "handleDecrypted x plain r k c = handlePeerAccepted x k c"
    using assms(2,5,6) by (simp add: handleDecrypted_def plain liftR_def handleSignal_cases)
  have key: "kp_PubKey p = k"
    using assms(8) lookup_key [OF assms(7)] by (auto simp: scan_peer_def bindR_Inr_iff)
  define c1 where "c1 = known_peers_update (replace_row pr_pub_key (peer_row x (p\<lparr>kp_Status := Accepted\<rparr>)))
    (c\<lparr>tick := Suc (Suc (tick c))\<rparr>)"
  have "handlePeerAccepted x k c = (Inr (), set_session r (setStatus Accepted (cl_heap c1 r)) c1)"
    using assms(1,3,7,8)
    by (simp add: handlePeerAccepted_def peers_Get_eq peers_Add_def db_exec_eq c1_def sessions_Load_def)
  moreover have "fst (peers_Get x k (set_session r (setStatus Accepted (cl_heap c1 r)) c1)) =
      Inr (p\<lparr>kp_Status := Accepted, kp_Online := False, kp_LastSeen := zero_time\<rparr>)"
    using assms(3,4) key
    by (simp add: peers_Get_eq set_session_def c1_def peers.look_put scan_peer_row)
  ultimately show ?thesis
    using h by (auto simp: set_session_def setStatus_def)
qed

text \<open>
  C36: a connecting peer can accept itself: a peer whose session is pending sends \<open>peer_accepted\<close>, a
  signal that is let through before acceptance and is not checked against who asked for the
  connection, and then its session and its database entry are accepted, without any
  decision of the user.
\<close>

theorem pending_peer_accepts_itself:
  assumes "sessions_Load k c = Some r" "sess_status r c = Pending" "\<And>t. x_db x t" "uuid_laws x"
    and "signal_Parse plain = Inr s" "sig_Type s = PeerAccepted"
    and "lookup_row pr_pub_key (known_peers c) (Key_String k) = Some row" "scan_peer x row = Inr p"
  shows "\<exists>c'. handleDecrypted x plain r k c = (Inr (), c') \<and> sess_status r c' = Accepted \<and>
    (\<exists>p'. fst (peers_Get x k c') = Inr p' \<and> kp_Status p' = Accepted)"
  using assms by (rule accepted_by_signal)

definition demo_pending :: client where
  "demo_pending = demo_client\<lparr>known_peers := [peer_row demo_ext (sample_peer\<lparr>kp_PubKey := 9\<rparr>)],
     cl_heap := (\<lambda>_. demo_session\<lparr>ss_stat := Pending\<rparr>)\<rparr>"

abbreviation demo_acceptance :: signal where
  "demo_acceptance \<equiv> \<lparr>sig_Type = PeerAccepted, sig_From = 9, sig_ID = 0, sig_Content = []\<rparr>"

lemma demo_pending_facts:
  "signal_Parse (signal_wire demo_acceptance) = Inr demo_acceptance"
  "lookup_row pr_pub_key (known_peers demo_pending) (Key_String 9) = Some (peer_row demo_ext (sample_peer\<lparr>kp_PubKey := 9\<rparr>))"
  "sessions_Load 9 demo_pending = Some 0" "sess_status 0 demo_pending = Pending"
proof -
  show "signal_Parse (signal_wire demo_acceptance) = Inr demo_acceptance"
    by (rule sig.roundtrip_exact) (simp add: signal_ok_def PeerAccepted_def str_def)
qed (simp_all add: lookup_row_def demo_pending_def demo_client_def sessions_Load_def)

theorem pending_peer_accepts_itself_witness:
  "\<exists>c'. handleDecrypted demo_ext (signal_wire demo_acceptance) 0 9 demo_pending = (Inr (), c') \<and> sess_status 0 c' = Accepted"
  using pending_peer_accepts_itself [OF demo_pending_facts(3,4) _ demo_ext_laws(4) demo_pending_facts(1) _ demo_pending_facts(2)
      scan_peer_row [OF demo_ext_laws(4)]] by auto


subsection \<open>Receiving a file\<close>

text \<open>A run of the read loop over the chunks of one file.\<close>

definition receive_chunks :: "ext \<Rightarrow> uuid \<Rightarrow> nat \<Rightarrow> key \<Rightarrow> bytes list \<Rightarrow> client \<Rightarrow> unit result \<times> client" where
  "receive_chunks x i r k ds c = forS (\<lambda>d. handleDecrypted x (file_chunk i d) r k) ds c"

definition receiving :: "uuid \<Rightarrow> fileMeta \<Rightarrow> bytes \<Rightarrow> client \<Rightarrow> bool" where
  "receiving i meta got c \<longleftrightarrow> cl_pendingFiles c i =
     Some \<lparr>pnd_meta = meta, pnd_received = int (length got), pnd_buf = got\<rparr>"

lemma handle_chunk:
  assumes "receiving i meta got c" "i \<noteq> uuid_Nil" "length (got @ d) < 2 ^ 63"
  shows "handleDecrypted x (file_chunk i d) r k c =
    (let pf = \<lparr>pnd_meta = meta, pnd_received = int (length (got @ d)), pnd_buf = got @ d\<rparr>;
         c = c\<lparr>cl_pendingFiles := (cl_pendingFiles c)(i := Some pf)\<rparr>
     in if int (length (got @ d)) \<ge> fm_Size meta then finalizeFile x i pf c else (Inr (), c))"
proof -
  have "int64 (int (length got) + int (length d)) = int (length got) + int (length d)"
    using assms(3) by (intro int64_id) simp_all
  then show ?thesis
    using assms(1,2) by (simp add: handleDecrypted_def file_chunk_def handleFileChunk_def receiving_def Let_def)
qed

lemma finalizeFile_ok:
  assumes "aead_laws x" "\<And>t. x_db x t" "pnd_buf pf \<noteq> []" "i \<noteq> uuid_Nil"
  shows "\<exists>c'. finalizeFile x i pf c = (Inr (), c') \<and> cl_pendingFiles c' = (cl_pendingFiles c)(i := None) \<and>
    fst (files_Get x (secret_of c) i c') = Inr (pnd_buf pf) \<and> cl_Keys c' = cl_Keys c"
  using assms
  by (simp add: finalizeFile_def files_PutWithID_eq files_Get_eq files.look_put Let_def)
    (simp add: file_row_def)

text \<open>The chunks of a file, with any step in between that leaves transfers and keys alone.\<close>

lemma receive_chunks_complete:
  assumes "aead_laws x" "\<And>t. x_db x t" "i \<noteq> uuid_Nil"
    and "\<And>c. cl_pendingFiles (h c) = cl_pendingFiles c" "\<And>c. cl_Keys (h c) = cl_Keys c"
    and "receiving i meta got c" "\<forall>d \<in> set ds. d \<noteq> []" "ds \<noteq> []"
    and "fm_Size meta = int (length (got @ concat ds))" "fm_Size meta < 2 ^ 63"
  shows "\<exists>c'. forS (\<lambda>d c. handleDecrypted x (file_chunk i d) r k (h c)) ds c = (Inr (), c') \<and>
    cl_pendingFiles c' i = None \<and> fst (files_Get x (secret_of c) i c') = Inr (got @ concat ds)"
  using assms(6-10)
proof (induction ds arbitrary: got c)
  case (Cons d ds)
  let ?pf = "\<lparr>pnd_meta = meta, pnd_received = int (length (got @ d)), pnd_buf = got @ d\<rparr>"
  let ?c = "(h c)\<lparr>cl_pendingFiles := (cl_pendingFiles (h c))(i := Some ?pf)\<rparr>"
  have "receiving i meta got (h c)" using Cons.prems(1) assms(4) by (simp add: receiving_def)
  moreover have "length (got @ d) < 2 ^ 63" using Cons.prems(4,5) by simp
  ultimately have step: "handleDecrypted x (file_chunk i d) r k (h c) =
      (let pf = ?pf; c = (h c)\<lparr>cl_pendingFiles := (cl_pendingFiles (h c))(i := Some pf)\<rparr>
       in if int (length (got @ d)) \<ge> fm_Size meta then finalizeFile x i pf c else (Inr (), c))"
    using handle_chunk [of i meta got "h c" d x r k] assms(3) by (simp add: Let_def)
  show ?case
  proof (cases "ds = []")
    case True
    then have "handleDecrypted x (file_chunk i d) r k (h c) = finalizeFile x i ?pf ?c"
      using step Cons.prems(4) by (simp add: Let_def)
    with finalizeFile_ok [OF assms(1,2), of ?pf i ?c] True Cons.prems(2) assms(3,5) show ?thesis by auto
  next
    case False
    then have "concat ds \<noteq> []" using Cons.prems(2) by (cases ds) auto
    then have "0 < length (concat ds)" by (rule length_greater_0_conv [THEN iffD2])
    then have "\<not> fm_Size meta \<le> int (length (got @ d))" using Cons.prems(4) by simp
    then have go: "handleDecrypted x (file_chunk i d) r k (h c) = (Inr (), ?c)"
      using step by (simp add: Let_def)
    have "receiving i meta (got @ d) ?c" by (simp add: receiving_def)
    from Cons.IH [OF this _ False] Cons.prems(2,4,5) go assms(5) show ?thesis by auto
  qed
qed simp

text \<open>
  A file arrives intact: after its metadata, the chunks the sender cuts it into, processed in
  order, are assembled, sealed and stored under the file's id, reading the file gives back exactly
  the bytes sent, and the transfer is finished.
\<close>

theorem file_transfer_roundtrip:
  assumes "aead_laws x" "\<And>t. x_db x t"
    and "sig_Type s = FileMeta" "sig_From s = k" "sig_ID s \<noteq> uuid_Nil"
    and "decodeFileMeta (sig_Content s) = Inr meta" "fm_Size meta = int (length (concat ds))"
    and "\<forall>d \<in> set ds. d \<noteq> []" "ds \<noteq> []"
  shows "\<exists>c1 c2. handleSignal x s k c = (Inr (), c1) \<and>
    receive_chunks x (sig_ID s) r k ds c1 = (Inr (), c2) \<and> cl_pendingFiles c2 (sig_ID s) = None \<and>
    fst (files_Get x (secret_of c) (sig_ID s) c2) = Inr (concat ds)"
proof -
  let ?c1 = "c\<lparr>cl_pendingFiles := (cl_pendingFiles c)(sig_ID s :=
    Some \<lparr>pnd_meta = meta, pnd_received = 0, pnd_buf = []\<rparr>)\<rparr>"
  have "handleSignal x s k c = (Inr (), ?c1)"
    using assms(3,4,6) by (simp add: handleSignal_cases liftR_def)
  moreover have "receiving (sig_ID s) meta [] ?c1" by (simp add: receiving_def)
  moreover have "fm_Size meta < 2 ^ 63" using decodeFileMeta_sound [OF assms(6)] by (auto simp: fileMeta_ok_def)
  ultimately show ?thesis
    using receive_chunks_complete [of x "sig_ID s" "\<lambda>c. c", OF assms(1,2,5) refl refl _ assms(8,9), of meta "[]" ?c1 r k] assms(7)
    by (simp add: receive_chunks_def)
qed

definition demo_file :: fileMeta where
  "demo_file = \<lparr>fm_Name = str ''f'', fm_Size = 3, fm_MIME = []\<rparr>"

theorem file_transfer_roundtrip_witness:
  "\<exists>c1 c2. handleSignal demo_ext \<lparr>sig_Type = FileMeta, sig_From = 9, sig_ID = 8,
       sig_Content = fileMeta_wire demo_file\<rparr> 9 demo_client = (Inr (), c1) \<and>
     receive_chunks demo_ext 8 0 9 [[1, 2], [3]] c1 = (Inr (), c2) \<and>
     fst (files_Get demo_ext 5 8 c2) = Inr [1, 2, 3]"
proof -
  have "decodeFileMeta (fileMeta_wire demo_file) = Inr demo_file"
    by (rule fm.roundtrip_exact) (simp add: fileMeta_ok_def demo_file_def str_def)
  moreover have "fm_Size demo_file = 3" "secret_of demo_client = 5"
    by (simp_all add: demo_file_def demo_client_def keys_of_seed_def)
  ultimately show ?thesis
    using file_transfer_roundtrip [OF demo_ext_laws(1), of "\<lparr>sig_Type = FileMeta, sig_From = 9, sig_ID = 8,
       sig_Content = fileMeta_wire demo_file\<rparr>" 9 demo_file "[[1, 2], [3]]" demo_client 0] by auto
qed

text \<open>
  File chunks are tied to nobody: what a chunk does depends neither on the session it came
  through nor on its peer nor on whether that peer was ever accepted, so any connected peer that knows
  a transfer's id can add bytes to somebody else's file.
\<close>

theorem file_chunks_unauthenticated:
  "handleDecrypted x (file_chunk i d) r k c = handleDecrypted x (file_chunk i d) r' k' c"
  by (simp add: handleDecrypted_def file_chunk_def)

end
