(* ===== verification/Net.thy ===== *)
theory Net
  imports External Config
begin

text \<open>
  Addresses, from Go's \<open>net\<close> package as the client uses it: \<open>SplitHostPort\<close> and \<open>JoinHostPort\<close> on
  \<open>host:port\<close> texts, and which addresses are loopback addresses; and \<open>validateAddr\<close> and
  \<open>parsePeerIP\<close>, which the client builds on them.
\<close>

abbreviation colon :: byte where "colon \<equiv> 58"
abbreviation lbracket :: byte where "lbracket \<equiv> 91"
abbreviation rbracket :: byte where "rbracket \<equiv> 93"

text \<open>The first and the last position of a byte.\<close>

primrec IndexByte :: "byte \<Rightarrow> gostring \<Rightarrow> nat option" where
  "IndexByte b [] = None"
| "IndexByte b (a # s) = (if a = b then Some 0 else map_option Suc (IndexByte b s))"

definition LastIndexByte :: "byte \<Rightarrow> gostring \<Rightarrow> nat option" where
  "LastIndexByte b s = map_option (\<lambda>i. length s - Suc i) (IndexByte b (rev s))"

text \<open>The callers only ask whether \<open>SplitHostPort\<close> fails, so its errors are one value.\<close>

definition SplitHostPort :: "gostring \<Rightarrow> (gostring \<times> gostring) option" where
  "SplitHostPort hostport =
     (case LastIndexByte colon hostport of
        None \<Rightarrow> None
      | Some i \<Rightarrow>
          (case (if hd hostport = lbracket
                 then (case IndexByte rbracket hostport of
                         None \<Rightarrow> None
                       | Some e \<Rightarrow> if e + 1 = i then Some (take (e - 1) (drop 1 hostport), 1, e + 1) else None)
                 else (if colon \<in> set (take i hostport) then None else Some (take i hostport, 0, 0))) of
             None \<Rightarrow> None
           | Some (host, j, k) \<Rightarrow>
               if lbracket \<in> set (drop j hostport) \<or> rbracket \<in> set (drop k hostport) then None
               else Some (host, drop (i + 1) hostport)))"

definition JoinHostPort :: "gostring \<Rightarrow> gostring \<Rightarrow> gostring" where
  "JoinHostPort host port =
     (if colon \<in> set host then [lbracket] @ host @ [rbracket, colon] @ port
      else host @ [colon] @ port)"

text \<open>\<open>strconv.Itoa\<close> of a natural number.\<close>

fun Itoa :: "nat \<Rightarrow> gostring" where
  "Itoa n = (if n < 10 then [of_nat (n + 48)] else Itoa (n div 10) @ [of_nat (n mod 10 + 48)])"

declare Itoa.simps [simp del]

definition IsLoopback :: "ip \<Rightarrow> bool" where
  "IsLoopback a = (case a of NilIP \<Rightarrow> False | IPv4 w \<Rightarrow> drop_bit 24 w = 127 | IPv6 w \<Rightarrow> w = 1)"

definition parsePeerIP :: "ext \<Rightarrow> gostring \<Rightarrow> ip" where
  "parsePeerIP x addr =
     x_ParseIP x (case SplitHostPort addr of None \<Rightarrow> addr | Some (host, _) \<Rightarrow> host)"

definition validateAddr :: "gostring \<Rightarrow> gostring result" where
  "validateAddr addr =
     (if addr = [] \<or> addr = [colon] then Fail ''invalid address''
      else let (host, port) = (case SplitHostPort addr of
                 None \<Rightarrow> (addr, Itoa DefaultPort)
               | Some (h, p) \<Rightarrow> (h, p));
               port = (if port = [] then Itoa DefaultPort else port)
           in Inr (JoinHostPort host port))"

subsection \<open>Round trip\<close>

lemma IndexByte_None [simp]: "IndexByte b s = None \<longleftrightarrow> b \<notin> set s"
  by (induction s) auto

lemma IndexByte_append: "b \<notin> set s \<Longrightarrow> IndexByte b (s @ b # t) = Some (length s)"
  by (induction s) auto

lemma LastIndexByte_append: "b \<notin> set t \<Longrightarrow> LastIndexByte b (s @ b # t) = Some (length s)"
  using IndexByte_append [of b "rev t" "rev s"] by (simp add: LastIndexByte_def)

lemma Itoa_DefaultPort: "Itoa DefaultPort = str ''8080''"
  by (simp add: Itoa.simps str_def)

definition plain_part :: "gostring \<Rightarrow> bool" where
  "plain_part s \<longleftrightarrow> lbracket \<notin> set s \<and> rbracket \<notin> set s"

lemma split_join:
  assumes "plain_part host" "plain_part port" "colon \<notin> set port"
  shows "SplitHostPort (JoinHostPort host port) = Some (host, port)"
proof (cases "colon \<in> set host")
  case True
  let ?s = "[lbracket] @ host @ [rbracket, colon] @ port"
  have "LastIndexByte colon ?s = Some (length host + 2)"
    using LastIndexByte_append [OF assms(3), of "[lbracket] @ host @ [rbracket]"] by simp
  moreover have "IndexByte rbracket ?s = Some (length host + 1)"
    using IndexByte_append [of rbracket "[lbracket] @ host" "colon # port"] assms(1)
    by (simp add: plain_part_def)
  moreover have "drop (3 + length host) ?s = port" by (simp add: numeral_3_eq_3)
  ultimately show ?thesis
    using True assms by (simp add: JoinHostPort_def SplitHostPort_def plain_part_def)
next
  case False
  have "hd (host @ colon # port) \<noteq> lbracket"
    using assms(1) by (cases host) (auto simp: plain_part_def)
  then show ?thesis
    using False assms LastIndexByte_append [OF assms(3), of host]
    by (simp add: JoinHostPort_def SplitHostPort_def plain_part_def)
qed

text \<open>
  The address a client dials: an address that already has a port is left as it is, one without gets
  the default port, and in both cases the result splits back into the host and the port.
\<close>

theorem validateAddr_dialable:
  assumes "plain_part host" "plain_part port" "colon \<notin> set port" "port \<noteq> []" "host \<noteq> []"
  shows "validateAddr (JoinHostPort host port) = Inr (JoinHostPort host port) \<and>
    (SplitHostPort host = None \<longrightarrow> (\<exists>a. validateAddr host = Inr a \<and> SplitHostPort a = Some (host, str ''8080'')))"
proof -
  have n: "JoinHostPort host port \<noteq> []" "JoinHostPort host port \<noteq> [colon]"
    using assms(4) by (auto simp: JoinHostPort_def append_eq_Cons_conv)
  have p: "plain_part (str ''8080'')" "colon \<notin> set (str ''8080'')" by (simp_all add: plain_part_def str_def)
  have c: "host \<noteq> [colon]" if "SplitHostPort host = None"
    using that by (auto simp: SplitHostPort_def LastIndexByte_def)
  have "validateAddr host = Inr (JoinHostPort host (str ''8080''))" if "SplitHostPort host = None"
    using that assms(5) c [OF that] by (simp add: validateAddr_def Itoa_DefaultPort Let_def str_def)
  moreover have "validateAddr (JoinHostPort host port) = Inr (JoinHostPort host port)"
    using n assms(4) split_join [OF assms(1-3)] by (simp add: validateAddr_def Let_def)
  ultimately show ?thesis using split_join [OF assms(1) p] by blast
qed

theorem validateAddr_dialable_witness:
  "(\<exists>a. validateAddr (str ''::1'') = Inr a \<and> SplitHostPort a = Some (str ''::1'', str ''8080'')) \<and>
   validateAddr (str ''[::1]:90'') = Inr (str ''[::1]:90'')"
proof -
  have "JoinHostPort (str ''::1'') (str ''90'') = str ''[::1]:90''" "SplitHostPort (str ''::1'') = None"
    by (simp_all add: JoinHostPort_def SplitHostPort_def LastIndexByte_def str_def)
  then show ?thesis
    using validateAddr_dialable [of "str ''::1''" "str ''90''"] by (simp add: plain_part_def str_def)
qed

text \<open>
  A bracketed IPv6 address without a port is bracketed a second time, and the result is no address
  any more.
\<close>

theorem validateAddr_double_brackets:
  "validateAddr (str ''[::1]'') = Inr (str ''[[::1]]:8080'') \<and> SplitHostPort (str ''[[::1]]:8080'') = None"
  by (simp add: validateAddr_def SplitHostPort_def LastIndexByte_def JoinHostPort_def Itoa_DefaultPort
      str_def Let_def)

end
