(* ===== verification/Connections.thy ===== *)
theory Connections
  imports Incoming Net
begin

text \<open>
  Connections, from \<open>client/handlers.go\<close> and \<open>client/peer.go\<close>: who may open a session, how a session
  is opened from either side, the loop that reads it and what the end of that loop leaves behind.

  What the network does is a parameter: whether the upgrade or the dial gives a connection, what the
  handshake reads (an observation), and the frames the read loop gets before \<open>SetReadDeadline\<close> or
  \<open>ReadMessage\<close> fails.  A handler's replies are the list of the responses it writes.
\<close>

subsection \<open>Replies\<close>

record sessionInfo =
  si_PubKey :: key
  si_Status :: PeerStatus
  si_Name :: gostring

text \<open>
  \<open>http.Error\<close> with a literal or with the text of an error, a JSON document by what it encodes, and
  raw bytes.
\<close>

datatype reply =
    HttpError nat string
  | HttpErrorOf nat go_error
  | JsonStatus string
  | JsonPeers "KnownPeer list"
  | JsonPeer KnownPeer
  | JsonSessions "sessionInfo list"
  | JsonSummaries "ChatSummary list"
  | JsonMessages "(message \<times> gostring) list"
  | JsonMessage "message \<times> gostring"
  | JsonOutbox "OutboxSignal list"
  | OctetStream bytes
  | Multipart gostring "bytes option"

subsection \<open>Admission\<close>

definition isValidPubKey :: "gostring \<Rightarrow> bool" where
  "isValidPubKey s =
     (if length s \<noteq> PubKeyLen then False
      else case hex_DecodeString s of None \<Rightarrow> False | Some b \<Rightarrow> length b = 32)"

definition TrimPrefix :: "gostring \<Rightarrow> gostring \<Rightarrow> gostring" where
  "TrimPrefix s p = (if has_prefix p s then drop (length p) s else s)"

definition transport :: gostring where
  "transport = str ''/transport/''"

definition os_IsNotExist :: "go_error \<Rightarrow> bool" where
  "os_IsNotExist e \<longleftrightarrow> e = ErrNotExist"

text \<open>
  \<open>handleWS\<close> down to the upgrade: the key and the status under which the connection is admitted, or the
  response that refuses it.  An unknown peer is saved as pending.
\<close>

definition admit ::
  "ext \<Rightarrow> gostring \<Rightarrow> gostring \<Rightarrow> client \<Rightarrow> (reply + (key \<times> PeerStatus)) result \<times> client" where
  "admit x path remoteAddr c =
     (let k = TrimPrefix path transport;
          refuse = (\<lambda>code msg c. (Inr (Inl (HttpError code msg)), c))
      in if \<not> isValidPubKey k then refuse 400 ''invalid public key'' c
         else catchS (liftR (FromHex k) c) (\<lambda>_ c. refuse 400 ''invalid public key'' c) (\<lambda>pubKey c.
           if pubKey = own_key c then refuse 403 ''cannot connect to self'' c
           else case SplitHostPort remoteAddr of
             None \<Rightarrow> refuse 400 ''invalid remote address'' c
           | Some (peerIP, _) \<Rightarrow>
               bindS (catchS (peers_Get x pubKey c)
                 (\<lambda>e c. if \<not> os_IsNotExist e then (Inr None, c)
                    else catchS (peers_Add x \<lparr>kp_PeerIP = x_ParseIP x peerIP, kp_PubKey = pubKey,
                             kp_Name = [], kp_Nickname = [], kp_Status = Pending, kp_Online = False,
                             kp_LastSeen = zero_time, kp_ProfilePic = uuid_Nil\<rparr> c)
                           (\<lambda>_ c. (Inr None, c)) (\<lambda>_ c. (Inr (Some Pending), c)))
                 (\<lambda>knownPeer c. (Inr (Some (kp_Status knownPeer)), c)))
               (\<lambda>found c. case found of
                  None \<Rightarrow> refuse 500 ''internal error'' c
                | Some status \<Rightarrow>
                    if status = Rejected then refuse 403 ''forbidden'' c
                    else if sessions_Load pubKey c \<noteq> None then refuse 409 ''session already active'' c
                    else (Inr (Inr (pubKey, status)), c))))"

subsection \<open>Opening and closing sessions\<close>

text \<open>\<open>p.LastSeen = time.Now().UTC()\<close> for a known peer.\<close>

definition touch_peer :: "ext \<Rightarrow> key \<Rightarrow> client \<Rightarrow> unit result \<times> client" where
  "touch_peer x pubKey c =
     catchS (peers_Get x pubKey c) (\<lambda>_ c. (Inr (), c)) (\<lambda>p c.
       let (now, c) = Now x c in ignoreS (peers_Add x (p\<lparr>kp_LastSeen := now\<rparr>) c))"

text \<open>\<open>p.Name = sess.peerName()\<close> for a known peer.\<close>

definition name_peer :: "ext \<Rightarrow> key \<Rightarrow> nat \<Rightarrow> client \<Rightarrow> unit result \<times> client" where
  "name_peer x pubKey r c =
     catchS (peers_Get x pubKey c) (\<lambda>_ c. (Inr (), c)) (\<lambda>p c.
       ignoreS (peers_Add x (p\<lparr>kp_Name := peerName (cl_heap c r)\<rparr>) c))"

definition close_session :: "nat \<Rightarrow> client \<Rightarrow> unit result \<times> client" where
  "close_session r c = (let (q, s) = closeConn (cl_heap c r) in ignoreS (q, set_session r s c))"

definition closeExistingSession :: "ext \<Rightarrow> key \<Rightarrow> client \<Rightarrow> unit result \<times> client" where
  "closeExistingSession x pubKey c =
     (case sessions_Load pubKey c of
        None \<Rightarrow> (Inr (), c)
      | Some r \<Rightarrow> bindS (touch_peer x pubKey (sessions_Delete pubKey c)) (\<lambda>_ c. close_session r c))"

definition new_ref :: "session \<Rightarrow> client \<Rightarrow> nat \<times> client" where
  "new_ref s c = (cl_next c, c\<lparr>cl_heap := (cl_heap c)(cl_next c := s), cl_next := Suc (cl_next c)\<rparr>)"

text \<open>
  A new session on a connection, its status set before the handshake, and the handshake; the session
  is in the heap when it succeeds, and the connection is dropped when it fails.
\<close>

definition shake ::
  "ext \<Rightarrow> bool \<Rightarrow> conn \<Rightarrow> PeerStatus \<Rightarrow> client \<Rightarrow> nat result \<times> client" where
  "shake x initiator cn status c =
     (let (name, c) = getName x c;
          (s, c) = newSession x cn name (cl_Keys c) (cl_Timeout c) (cl_RateLimit c) (cl_RateWindow c) c
      in case handshake x initiator (setStatus status s) c of
           (Inl e, s, c) \<Rightarrow> (Inl e, c)
         | (Inr _, s, c) \<Rightarrow> (let (r, c) = new_ref s c in (Inr r, c)))"

text \<open>\<open>startSession\<close> up to the read loop.\<close>

definition open_session ::
  "ext \<Rightarrow> conn \<Rightarrow> key \<Rightarrow> PeerStatus \<Rightarrow> client \<Rightarrow> nat result \<times> client" where
  "open_session x cn pubKey status c =
     bindS (shake x False cn status c) (\<lambda>r c.
       let c = sessions_Store pubKey r c in
       bindS (name_peer x pubKey r c) (\<lambda>_ c.
       bindS (flushOutbox x pubKey c) (\<lambda>_ c.
       bindS (if status = Pending then requestPeerInfo x r c else (Inr (), c)) (\<lambda>_ c. (Inr r, c)))))"

subsection \<open>The read loop\<close>

text \<open>The loop over the frames read, and the read error that ends it.\<close>

fun read_frames :: "ext \<Rightarrow> nat \<Rightarrow> key \<Rightarrow> bytes list \<Rightarrow> client \<Rightarrow> unit result \<times> client" where
  "read_frames x r pubKey [] c = (Inl (Err (Wrap ''read'' (Errorf ''read''))), c)"
| "read_frames x r pubKey (data # frames) c =
     (let (plain, s) = session_decrypt x (cl_heap c r) data
      in catchS (plain, set_session r s c)
           (\<lambda>_ c. read_frames x r pubKey frames c)
           (\<lambda>plain c. bindS (handleDecrypted x plain r pubKey c)
              (\<lambda>_ c. read_frames x r pubKey frames c)))"

text \<open>The deferred function, which also runs when the loop panics.\<close>

definition teardown :: "ext \<Rightarrow> nat \<Rightarrow> key \<Rightarrow> client \<Rightarrow> unit result \<times> client" where
  "teardown x r pubKey c =
     bindS (touch_peer x pubKey (sessions_Delete pubKey c)) (\<lambda>_ c. close_session r c)"

definition readLoop :: "ext \<Rightarrow> nat \<Rightarrow> bytes list \<Rightarrow> client \<Rightarrow> unit result \<times> client" where
  "readLoop x r frames c =
     (let pubKey = peerPubKey (cl_heap c r); (res, c) = read_frames x r pubKey frames c
      in bindS (teardown x r pubKey c) (\<lambda>_ c. (res, c)))"

definition startSession ::
  "ext \<Rightarrow> conn \<Rightarrow> key \<Rightarrow> PeerStatus \<Rightarrow> bytes list \<Rightarrow> client \<Rightarrow> unit result \<times> client" where
  "startSession x cn pubKey status frames c =
     catchS (open_session x cn pubKey status c) (\<lambda>_ c. (Inr (), c))
       (\<lambda>r c. ignoreS (readLoop x r frames c))"

definition handleWS ::
  "ext \<Rightarrow> gostring \<Rightarrow> gostring \<Rightarrow> conn option \<Rightarrow> bytes list \<Rightarrow> client \<Rightarrow> reply list result \<times> client" where
  "handleWS x path remoteAddr upgraded frames c =
     bindS (admit x path remoteAddr c) (\<lambda>a c.
       case a of
         Inl rep \<Rightarrow> (Inr [rep], c)
       | Inr (pubKey, status) \<Rightarrow>
           (case upgraded of
              None \<Rightarrow> (Inr [], c)
            | Some cn \<Rightarrow>
                bindS (closeExistingSession x pubKey c) (\<lambda>_ c.
                bindS (startSession x cn pubKey status frames c) (\<lambda>_ c. (Inr [], c)))))"

subsection \<open>Dialling\<close>

definition storeSession :: "ext \<Rightarrow> nat \<Rightarrow> client \<Rightarrow> unit result \<times> client" where
  "storeSession x r c =
     (let pubKey = peerPubKey (cl_heap c r) in
      if sessions_Load pubKey c \<noteq> None then (Inl (Err ErrSessionExists), c)
      else bindS (catchS (peers_Get x pubKey c)
          (\<lambda>_ c. (Inr (), set_session r (setStatus Pending (cl_heap c r)) c))
          (\<lambda>peer c.
             let c = set_session r (setStatus (kp_Status peer) (cl_heap c r)) c
             in ignoreS (peers_Add x (peer\<lparr>kp_Name := peerName (cl_heap c r)\<rparr>) c)))
        (\<lambda>_ c. flushOutbox x pubKey (sessions_Store pubKey r c)))"

text \<open>What dialling gives: a connection, an HTTP response with a status, or nothing.\<close>

datatype dial = Connected conn | Refused nat | Unreachable

definition drop_conn :: "nat \<Rightarrow> client \<Rightarrow> client" where
  "drop_conn r c = set_session r ((cl_heap c r)\<lparr>ss_conn :=
     map_option (\<lambda>cn. cn\<lparr>conn_open := False\<rparr>) (ss_conn (cl_heap c r))\<rparr>) c"

text \<open>\<open>dialAndHandshake\<close> after the handshake: the peer is saved if it is new, and the session registered.\<close>

definition register_dialled :: "ext \<Rightarrow> gostring \<Rightarrow> nat \<Rightarrow> client \<Rightarrow> nat result \<times> client" where
  "register_dialled x addr r c =
     (let pubKey = peerPubKey (cl_heap c r) in
      bindS (catchS (peers_Get x pubKey c) (\<lambda>_ c. (Inr True, c)) (\<lambda>_ c. (Inr False, c))) (\<lambda>isNew c.
      bindS (if isNew
             then ignoreS (peers_Add x \<lparr>kp_PeerIP = parsePeerIP x addr, kp_PubKey = pubKey,
                    kp_Name = peerName (cl_heap c r), kp_Nickname = [], kp_Status = Accepted,
                    kp_Online = False, kp_LastSeen = zero_time, kp_ProfilePic = uuid_Nil\<rparr> c)
             else (Inr (), c)) (\<lambda>_ c.
      catchS (storeSession x r c)
        (\<lambda>e c. (Inl (Err (Wrap ''store session'' e)), drop_conn r c))
        (\<lambda>_ c. if isNew
           then bindS (requestPeerInfo x r (set_session r (setStatus Pending (cl_heap c r)) c))
                  (\<lambda>_ c. (Inr r, c))
           else (Inr r, c)))))"

definition dialAndHandshake :: "ext \<Rightarrow> gostring \<Rightarrow> dial \<Rightarrow> client \<Rightarrow> nat result \<times> client" where
  "dialAndHandshake x addr dialled c =
     (case dialled of
        Refused code \<Rightarrow>
          (if code = 409 then Fail ''session already active for this peer''
           else Inl (Err (Wrap ''dial'' (Errorf ''bad handshake''))), c)
      | Unreachable \<Rightarrow> (Inl (Err (Wrap ''dial'' (Errorf ''dial''))), c)
      | Connected cn \<Rightarrow>
          bindS (wrapS ''handshake'' (shake x True cn [] c)) (\<lambda>r c. register_dialled x addr r c))"

text \<open>
  \<open>connectSession\<close> returns once the session stands; the session named by the result is read by a
  goroutine of its own, a run of \<open>readLoop\<close>.
\<close>

definition connectSession :: "ext \<Rightarrow> gostring \<Rightarrow> dial \<Rightarrow> client \<Rightarrow> nat result \<times> client" where
  "connectSession x addr dialled c = dialAndHandshake x addr dialled c"

text \<open>The lines typed before the channel or the context ends, each sent as a message.\<close>

definition peerWriteLoop :: "ext \<Rightarrow> nat \<Rightarrow> gostring list \<Rightarrow> client \<Rightarrow> unit result \<times> client" where
  "peerWriteLoop x r lines c =
     forS (\<lambda>line c. let (msg, c) = NewMessage x (peerName (cl_heap c r)) line [] c
                    in ignoreS (sendMessage x r msg c)) lines c"

subsection \<open>Who is admitted\<close>

text \<open>The record an unknown peer is saved as.\<close>

definition pending_peer :: "ext \<Rightarrow> key \<Rightarrow> gostring \<Rightarrow> KnownPeer" where
  "pending_peer x k host = \<lparr>kp_PeerIP = x_ParseIP x host, kp_PubKey = k, kp_Name = [], kp_Nickname = [],
     kp_Status = Pending, kp_Online = False, kp_LastSeen = zero_time, kp_ProfilePic = uuid_Nil\<rparr>"

text \<open>The status the database gives a connecting peer, and the peers afterwards.\<close>

definition peer_standing ::
  "ext \<Rightarrow> key \<Rightarrow> gostring \<Rightarrow> client \<Rightarrow> PeerStatus \<Rightarrow> peerRow list \<Rightarrow> bool" where
  "peer_standing x k host c st rows \<longleftrightarrow>
     (case lookup_row pr_pub_key (known_peers c) (Key_String k) of
        None \<Rightarrow> st = Pending \<and> rows = replace_row pr_pub_key (peer_row x (pending_peer x k host)) (known_peers c)
      | Some row \<Rightarrow> rows = known_peers c \<and> (\<exists>p. scan_peer x row = Inr p \<and> st = kp_Status p))"

lemma admit_found:
  assumes "isValidPubKey (TrimPrefix path transport)" "FromHex (TrimPrefix path transport) = Inr k"
    and "k \<noteq> own_key c" "SplitHostPort remote = Some (host, port)"
  shows "admit x path remote c = bindS
    (catchS (peers_Get x k c)
      (\<lambda>e c. if \<not> os_IsNotExist e then (Inr None, c)
         else catchS (peers_Add x (pending_peer x k host) c) (\<lambda>_ c. (Inr None, c)) (\<lambda>_ c. (Inr (Some Pending), c)))
      (\<lambda>knownPeer c. (Inr (Some (kp_Status knownPeer)), c)))
    (\<lambda>found c. case found of
        None \<Rightarrow> (Inr (Inl (HttpError 500 ''internal error'')), c)
      | Some status \<Rightarrow>
          if status = Rejected then (Inr (Inl (HttpError 403 ''forbidden'')), c)
          else if sessions_Load k c \<noteq> None then (Inr (Inl (HttpError 409 ''session already active'')), c)
          else (Inr (Inr (k, status)), c))"
  using assms unfolding pending_peer_def by (simp add: admit_def liftR_def Let_def)

lemma admit_cases:
  obtains (refused) code msg where "admit x path remote c = (Inr (Inl (HttpError code msg)), c)"
    "isValidPubKey (TrimPrefix path transport) \<longrightarrow> FromHex (TrimPrefix path transport) = Inr (own_key c) \<or>
       SplitHostPort remote = None"
  | (found) k host port where "isValidPubKey (TrimPrefix path transport)"
    "FromHex (TrimPrefix path transport) = Inr k" "k \<noteq> own_key c" "SplitHostPort remote = Some (host, port)"
proof (cases "isValidPubKey (TrimPrefix path transport)")
  case False
  then show ?thesis by (intro refused) (simp_all add: admit_def Let_def)
next
  case True
  then obtain b where b: "hex_DecodeString (TrimPrefix path transport) = Some b" "length b = 32"
    "length (TrimPrefix path transport) = 64"
    by (auto simp: isValidPubKey_def split: if_splits option.splits)
  then have k: "FromHex (TrimPrefix path transport) = Inr (key_of b)" by (auto simp: FromHex_def)
  show ?thesis
  proof (cases "key_of b = own_key c \<or> SplitHostPort remote = None")
    case True
    with k \<open>isValidPubKey _\<close> show ?thesis
      by (cases "key_of b = own_key c") (auto intro!: refused simp: admit_def liftR_def Let_def)
  qed (use True k found in auto)
qed

lemma scan_peer_no_panic [simp]: "scan_peer x row \<noteq> Inl (Panic p)"
  by (auto simp: scan_peer_def uuid_Scan_def FromHex_def bindR_def split: if_splits option.splits sum.splits)

lemma admit_spec:
  assumes "admit x path remote c = (a, c')"
  shows "kept c c' \<and> cl_heap c' = cl_heap c \<and> files c' = files c \<and> (\<exists>d. a = Inr d) \<and>
    (\<forall>k st. a = Inr (Inr (k, st)) \<longrightarrow>
       FromHex (TrimPrefix path transport) = Inr k \<and> k \<noteq> own_key c \<and> st \<noteq> Rejected \<and> sessions_Load k c = None \<and>
       (\<exists>host port. SplitHostPort remote = Some (host, port) \<and> peer_standing x k host c st (known_peers c')))"
proof (rule admit_cases [of x path remote c])
  fix code msg
  assume "admit x path remote c = (Inr (Inl (HttpError code msg)), c)"
  then show ?thesis using assms by (auto intro: kept.same)
next
  fix k host port
  assume found: "isValidPubKey (TrimPrefix path transport)"
    "FromHex (TrimPrefix path transport) = Inr k" "k \<noteq> own_key c" "SplitHostPort remote = Some (host, port)"
  note eq = admit_found [OF found, of x]
  show ?thesis
  proof (cases "x_db x (tick c)")
    case False
    then show ?thesis using assms unfolding eq by (auto simp: peers_Get_eq os_IsNotExist_def)
  next
    case db: True
    show ?thesis
    proof (cases "lookup_row pr_pub_key (known_peers c) (Key_String k)")
      case None
      then show ?thesis using assms db found unfolding eq
        by (auto simp: peers_Get_eq os_IsNotExist_def peers_Add_def db_exec_eq kept_def sessions_Load_def
            peer_standing_def split: if_splits)
    next
      case (Some row)
      then show ?thesis
      proof (cases "scan_peer x row")
        case (Inl e)
        then show ?thesis using assms db Some unfolding eq
          by (cases e) (auto simp: peers_Get_eq os_IsNotExist_def)
      next
        case (Inr p)
        then show ?thesis using assms db Some found unfolding eq
          by (auto simp: peers_Get_eq sessions_Load_def peer_standing_def split: if_splits)
      qed
    qed
  qed
qed

text \<open>
  C13: Who gets a session: a connection is admitted only under a valid key other than our own, for a peer
  that is not rejected and has no session, with the status the database holds; a peer the database
  does not know is saved as pending.  A refused connection leaves the sessions, the messages, the
  outbox and the profile as they were.
\<close>

theorem handleWS_admission:
  assumes "admit x path remote c = (a, c')"
  shows "kept c c' \<and> cl_heap c' = cl_heap c \<and> files c' = files c \<and> (\<exists>d. a = Inr d) \<and>
    (\<forall>k st. a = Inr (Inr (k, st)) \<longrightarrow>
       FromHex (TrimPrefix path transport) = Inr k \<and> k \<noteq> own_key c \<and> st \<noteq> Rejected \<and> sessions_Load k c = None \<and>
       (\<exists>host port. SplitHostPort remote = Some (host, port) \<and> peer_standing x k host c st (known_peers c')))"
  using assms by (rule admit_spec)

lemma isValidPubKey_String [simp]: "isValidPubKey (Key_String k)"
  by (simp add: isValidPubKey_def Key_String_def hex_roundtrip)

lemma TrimPrefix_transport [simp]: "TrimPrefix (transport @ s) transport = s"
  by (simp add: TrimPrefix_def has_prefix_def)

theorem handleWS_admission_witness:
  "\<exists>c'. admit demo_ext (transport @ Key_String 2) (str ''127.0.0.1:50'') demo_client =
     (Inr (Inr (2, Pending)), c') \<and> kept demo_client c' \<and>
     peer_standing demo_ext 2 (str ''127.0.0.1'') demo_client Pending (known_peers c')"
proof -
  have h: "SplitHostPort (str ''127.0.0.1:50'') = Some (str ''127.0.0.1'', str ''50'')"
    by (simp add: SplitHostPort_def LastIndexByte_def str_def)
  have own: "own_key demo_client = 6" by (simp add: demo_client_def keys_of_seed_def) (simp add: demo_ext_def)
  have "\<exists>c'. admit demo_ext (transport @ Key_String 2) (str ''127.0.0.1:50'') demo_client =
      (Inr (Inr (2, Pending)), c')"
    using h own admit_found [of "transport @ Key_String 2" 2 demo_client "str ''127.0.0.1:50''" "str ''127.0.0.1''"
        "str ''50''" demo_ext]
    by (simp add: peers_Get_eq os_IsNotExist_def peers_Add_def db_exec_eq
        sessions_Load_def demo_client_def lookup_row_def Pending_def Rejected_def str_def)
  then obtain c' where c': "admit demo_ext (transport @ Key_String 2) (str ''127.0.0.1:50'') demo_client =
      (Inr (Inr (2, Pending)), c')" by blast
  from handleWS_admission [OF c'] h c' show ?thesis by auto
qed

end
