(* ===== verification/Delivery.thy ===== *)
theory Delivery
  imports Connections
begin

text \<open>
  From frames to handled payloads: what the read loop does with what a peer sends, and what it leaves
  when it ends.  Two footprints carry the proofs: the store operations leave everything but the store
  alone, and no handler touches what receiving depends on.
\<close>

subsection \<open>Operations on the store\<close>

text \<open>
  A footprint that the statements of the stores keep is kept by the operations on messages and files
  built on them.
\<close>

locale store_footprint = footprint R for R :: "'z store_scheme \<Rightarrow> 'z store_scheme \<Rightarrow> bool" +
  assumes chat_put: "R s (snd (chats_PutWithID x i v sec s))" and chat_get: "R s (snd (chats_Get x i sec s))"
    and chat_update: "R s (snd (chats_Update x i v sec s))" and chat_delete: "R s (snd (chats_Delete x i s))"
    and cache_load: "R s (snd (CacheLoad x i s))" and cache_store: "R s (CacheStore x i v s)"
    and index: "R s (snd (IndexSearch x i fn tn ct s))"
    and file_put: "R s (snd (files_PutWithID x sec i m d s))" and file_get: "R s (snd (files_Get x sec i s))"
    and file_del: "R s (snd (files_Delete x i s))"
    and peer_get: "R s (snd (peers_Get x k s))" and peer_add: "R s (snd (peers_Add x p s))"
    and ticked: "R s (s\<lparr>tick := Suc (tick s)\<rparr>)"
begin

lemma index_cache: "R s (indexAndCache x i n m p s)"
  unfolding indexAndCache_def by (rule chain [OF index cache_store])

lemma load: "R s (snd (loadPlain x sec i s))"
proof -
  obtain v s1 where l: "CacheLoad x i s = (v, s1)" by fastforce
  have 1: "R s s1" using cache_load [of s x i] l by simp
  have 2: "R s1 (snd (bindS (wrapS ''message: store get'' (chats_Get x i sec s1))
      (\<lambda>plain s. (Inr plain, CacheStore x i plain s))))"
    by (rule bind [OF wrap [OF chat_get]]) (simp add: cache_store)
  show ?thesis unfolding loadPlain_def l using 1 chain [OF 1 2] by (auto split: option.split)
qed

lemma message_get: "R s (snd (message_Get x sec i s))"
  unfolding message_Get_def by (rule bind [OF load], rule bind [OF wrap [OF lift]], rule ret)

lemma search: "R s (snd (message_Search x sec q n s))"
proof -
  have load: "R s (snd (search_load x sec ids s))" for ids s
  proof (induction ids arbitrary: s)
    case (Cons i ids)
    show ?case
      unfolding search_load.simps
      by (auto intro: Cons catch [OF message_get] bind [OF Cons ret] split: option.split)
  qed (simp add: same)
  have "R s (snd (chats_Search x q n s))"
    using chain [OF ticked ticked, of s] by (simp add: chats_Search_def db_query_eq ticked)
  then show ?thesis
    unfolding message_Search_def by (intro cond [OF ret] bind wrap load)
qed

lemma delete_atts: "R s (delete_attachments x as s)"
  by (induction as arbitrary: s) (auto intro: same chain [OF file_del])

lemma message_delete: "R s (snd (message_Delete x sec i s))"
proof -
  have 1: "R s (snd (catchS (loadPlain x sec i s) (\<lambda>_ s. (Inr (), s)) (\<lambda>plain s.
      catchS (liftR (ToMessage plain) s) (\<lambda>_ s. (Inr (), s))
        (\<lambda>msg s. (Inr (), delete_attachments x (msg_Attachments msg) s)))))"
    by (rule catch [OF load ret], rule catch [OF lift ret]) (simp add: delete_atts)
  show ?thesis
    unfolding message_Delete_def
    by (rule bind [OF 1], rule bind [OF wrap [OF chat_delete]], rule ret)
qed

lemma message_update: "R s (snd (message_Update x sec i n m s))"
proof -
  have 1: "R s (snd (catchS (message_Get x sec i s) (\<lambda>_ s. (Inr m, s))
      (\<lambda>existing s. (Inr (m\<lparr>msg_CreatedAt := msg_CreatedAt existing\<rparr>), s))))"
    by (rule catch [OF message_get ret]) (rule ret)
  have 2: "R s (snd (bindS (wrapS ''message: encode'' (liftR (Encode m) s)) (\<lambda>plain s.
      bindS (wrapS ''message: store update'' (chats_Update x i plain sec s)) (\<lambda>_ s.
        (Inr (), indexAndCache x i n m plain s)))))" for m s
    by (rule bind [OF wrap [OF lift]], rule bind [OF wrap [OF chat_update]]) (simp add: index_cache)
  have 3: "R s (snd (let (now, s) = Now x s; m = m\<lparr>msg_UpdatedAt := now\<rparr> in
      bindS (wrapS ''message: encode'' (liftR (Encode m) s)) (\<lambda>plain s.
      bindS (wrapS ''message: store update'' (chats_Update x i plain sec s)) (\<lambda>_ s.
        (Inr (), indexAndCache x i n m plain s)))))" for m s
    unfolding Now_def Let_def prod.case by (rule chain [OF ticked 2])
  show ?thesis unfolding message_Update_def by (rule bind [OF 1 3])
qed

lemma message_put: "R s (snd (snd (message_Put x sec n m s)))"
proof (cases "wrapR ''message: encode'' (Encode m)")
  case (Inl e)
  then show ?thesis by (simp add: message_Put_def same)
next
  case (Inr plain)
  obtain i s1 where i: "(if msg_ID m = uuid_Nil then uuid_New x s else (msg_ID m, s)) = (i, s1)" by fastforce
  then have 1: "R s s1" by (auto simp: uuid_New_def intro: same ticked split: if_splits)
  obtain q s2 where p: "chats_PutWithID x i plain sec s1 = (q, s2)" by fastforce
  have 2: "R s s2" using chain [OF 1 chat_put [of s1 x i plain sec]] p by simp
  show ?thesis
    using Inr i p 2 chain [OF 2 index_cache]
    by (auto simp: message_Put_def Let_def wrapR_def split: sum.splits fault.splits)
qed

lemma store_atts: "R s (snd (snd (StoreAttachments x sec m as s)))"
proof (induction as arbitrary: s)
  case (Cons a as)
  obtain i s1 where i: "(if att_ID a = uuid_Nil then uuid_New x s else (att_ID a, s)) = (i, s1)" by fastforce
  then have 1: "R s s1" by (auto simp: uuid_New_def intro: same ticked split: if_splits)
  obtain q s2 where p: "files_PutWithID x sec i m (att_Data a) s1 = (q, s2)" by fastforce
  have 2: "R s s2" using chain [OF 1 file_put [of s1 x sec i m "att_Data a"]] p by simp
  show ?case
    using i p 2 Cons [of s] chain [OF 2 Cons]
    by (auto simp: wrapR_def Let_def split: prod.splits sum.splits fault.splits)
qed (simp add: same)

end

text \<open>The store operations leave everything but the store alone.\<close>

definition store_only :: "'z store_scheme \<Rightarrow> 'z store_scheme \<Rightarrow> bool" where
  "store_only s s' \<longleftrightarrow> store.more s' = store.more s"

interpretation so: store_footprint store_only
  by unfold_locales
    (auto simp: store_only_def chats_PutWithID_eq chats_Get_eq chats_Update_def cache_Delete_def
      chats_Delete_eq CacheLoad_def CacheStore_def IndexSearch_def files_PutWithID_eq files_Get_eq
      files_Delete_def peers_Get_eq peers_Add_def liftR_def db_exec_eq db_query_eq
      bindS_def Let_def split: prod.splits sum.splits option.splits)

lemma store_only_observe: "store_only s (snd (Now x s))" "store_only s (snd (uuid_New x s))"
  by (simp_all add: Now_def uuid_New_def store_only_def)

lemmas store_only_ops [simp] = so.peer_get so.peer_add so.file_get so.file_put so.file_del so.message_get
  so.message_delete so.message_update so.message_put so.store_atts store_only_observe

lemma store_only_names [simp]:
  "store_only c (snd (client_Info x c))" "store_only c (snd (getName x c))"
  "store_only c (snd (displayNameForPubKey x k c))"
  by (simp_all add: client_Info_frame getName_frame displayNameForPubKey_def store_only_def peers_Get_eq)

lemma store_only_client:
  assumes "store_only c (c' :: client)"
  shows "cl_heap c' = cl_heap c" "cl_Keys c' = cl_Keys c" "cl_sessions c' = cl_sessions c"
    "cl_next c' = cl_next c" "cl_pendingFiles c' = cl_pendingFiles c"
  using assms by (cases c; cases c'; simp add: store_only_def)+

subsection \<open>What no handler touches\<close>

text \<open>
  The receiving half of every session, the peer it was opened with, whether it has a connection, the
  session map and our keys.
\<close>

definition steady_session :: "session \<Rightarrow> session \<Rightarrow> bool" where
  "steady_session s s' \<longleftrightarrow> ss_recv s' = ss_recv s \<and> ss_peer s' = ss_peer s \<and> (ss_conn s' = None \<longleftrightarrow> ss_conn s = None)"

definition steady :: "client \<Rightarrow> client \<Rightarrow> bool" where
  "steady c c' \<longleftrightarrow> cl_Keys c' = cl_Keys c \<and> cl_sessions c' = cl_sessions c \<and> cl_next c' = cl_next c \<and>
     (\<forall>j. steady_session (cl_heap c j) (cl_heap c' j))"

lemma steady_store: "store_only c c' \<Longrightarrow> steady c c'"
  by (simp add: steady_def steady_session_def store_only_client)

lemma steady_set_session: "steady_session (cl_heap c r) s \<Longrightarrow> steady c (set_session r s c)"
  by (simp add: steady_def steady_session_def set_session_def)

lemma steady_sess_send: "steady c (snd (sess_send x r plain c))"
proof -
  obtain q s' c1 where s: "send x (cl_heap c r) plain c = (q, s', c1)"
    by (metis prod_cases3)
  note sp = send_spec [OF s]
  then obtain t where t: "c1 = c\<lparr>tick := t\<rparr>" by blast
  have "ss_conn s' = None \<longleftrightarrow> ss_conn (cl_heap c r) = None"
  proof (cases q)
    case (Inr u)
    then obtain k where "s' = sent x k plain (cl_heap c r)" using sp by auto
    then show ?thesis by simp
  qed (use sp in simp)
  with sp show ?thesis
    unfolding sess_send_def s by (simp add: steady_def steady_session_def set_session_def t)
qed

interpretation steady: info_footprint steady x for x
proof
  show "steady c c" for c by (simp add: steady_def steady_session_def)
  show "steady c e" if "steady c d" "steady d e" for c d e
    using that by (simp add: steady_def steady_session_def)
  show "steady c (set_session r (setStatus st (cl_heap c r)) c)" for c r st
    by (rule steady_set_session) (simp add: steady_session_def setStatus_def)
qed (simp_all add: steady_sess_send steady_store)

lemma steady_verifyAuthor: "steady c (snd (verifyAuthor x i k c))"
  unfolding verifyAuthor_def
  by (rule steady.bind [OF steady.wrap [OF steady_store [OF so.message_get]]]) (rule steady.ret)

lemma steady_author_signals:
  "steady c (snd (verifyAndDelete x s k c))" "steady c (snd (verifyAndUpdate x s k c))"
proof -
  show "steady c (snd (verifyAndDelete x s k c))"
    unfolding verifyAndDelete_def
    by (rule steady.bind [OF steady_verifyAuthor], rule steady.wrap [OF steady_store]) simp
  have "steady d (snd (let msg = msg\<lparr>msg_Content := sig_Content s\<rparr>; (name, c) = getName x d
       in wrapS ''verify update'' (message_Update x (secret_of c) (sig_ID s) name msg c)))" for msg d
  proof -
    obtain n e where e: "getName x d = (n, e)" by fastforce
    have "store_only d e" using store_only_names(2) [of d x] e by simp
    then show ?thesis unfolding e Let_def prod.case by (simp add: steady_store so.chain [OF _ so.message_update])
  qed
  then show "steady c (snd (verifyAndUpdate x s k c))"
    unfolding verifyAndUpdate_def by (rule steady.bind [OF steady_verifyAuthor])
qed

lemma steady_handleMessage: "steady c (snd (handleMessage x s k c))"
proof -
  have "steady d (snd (let msg = msg\<lparr>msg_FromPubKey := k\<rparr>;
           (fromName, c) = displayNameForPubKey x k d;
           (put, msg, c) = message_Put x (secret_of c) fromName msg c
       in bindS (ignoreS (put, c)) (\<lambda>_ c. (Inr (), snd (getName x c)))))" for msg d
  proof -
    obtain n e where e: "displayNameForPubKey x k d = (n, e)" by fastforce
    obtain p m f where p: "message_Put x (secret_of e) n (msg\<lparr>msg_FromPubKey := k\<rparr>) e = (p, m, f)"
      by (metis prod_cases3)
    have "store_only d e" "store_only e f"
      using store_only_names(3) [of d x k] so.message_put [of e x "secret_of e" n "msg\<lparr>msg_FromPubKey := k\<rparr>"] e p
      by simp_all
    then have "steady d f" by (rule steady_store [OF so.chain])
    moreover have "steady f (snd (bindS (ignoreS (p, f)) (\<lambda>_ c. (Inr (), snd (getName x c)))))"
      by (rule steady.bind [OF steady.ignore [OF steady.ret]]) (simp add: steady_store)
    ultimately show ?thesis unfolding e p Let_def prod.case by (rule steady.chain)
  qed
  then show ?thesis
    unfolding handleMessage_def by (rule steady.catch [OF steady.lift steady.ret])
qed

lemma steady_handleSignal: "steady c (snd (handleSignal x s k c))"
proof -
  have fm: "steady c (snd (catchS (liftR (decodeFileMeta (sig_Content s)) c) (\<lambda>_ c. (Inr (), c)) (\<lambda>meta c.
      (Inr (), c\<lparr>cl_pendingFiles := (cl_pendingFiles c)(sig_ID s :=
        Some \<lparr>pnd_meta = meta, pnd_received = 0, pnd_buf = []\<rparr>)\<rparr>))))"
    by (rule steady.catch [OF steady.lift steady.ret]) (simp add: steady_def steady_session_def)
  show ?thesis
    unfolding handleSignal_def
    by (intro steady.cond steady.ret steady_handleMessage fm steady.ignore steady_author_signals
        steady.peer.info_request steady.peer.info_response steady.peer.info_changed steady.peer_accepted)
qed

lemma steady_handleFileChunk: "steady c (snd (handleFileChunk x plain c))"
proof -
  have pend: "steady c (c\<lparr>cl_pendingFiles := m\<rparr>)" for c m by (simp add: steady_def steady_session_def)
  have fin: "steady d (snd (finalizeFile x i pf d))" for d i pf
  proof -
    let ?as = "[\<lparr>att_ID = i, att_Name = fm_Name (pnd_meta pf), att_MIMEType = fm_MIME (pnd_meta pf),
      att_Size = fm_Size (pnd_meta pf), att_Data = pnd_buf pf\<rparr>]"
    obtain q as e where e: "StoreAttachments x (secret_of d) [] ?as d = (q, as, e)" by (metis prod_cases3)
    have "steady d e" using steady_store [OF so.store_atts [of d x "secret_of d" "[]" ?as]] e by simp
    then show ?thesis
      unfolding finalizeFile_def Let_def e prod.case snd_ignoreS snd_conv by (rule steady.chain [OF _ pend])
  qed
  have put: "steady c (snd (if b then finalizeFile x i pf (c\<lparr>cl_pendingFiles := m\<rparr>)
      else (Inr (), c\<lparr>cl_pendingFiles := m\<rparr>)))" for b i pf m
    using steady.chain [OF pend fin] pend by simp
  show ?thesis
    unfolding handleFileChunk_def Let_def
    by (rule steady.cond [OF steady.ret]) (simp only: put steady.ret split: option.split, simp)
qed

lemma steady_handleDecrypted: "steady c (snd (handleDecrypted x plain r k c))"
proof (cases plain)
  case (Cons b rest)
  have lim: "steady d (set_session r ((cl_heap d' r)\<lparr>ss_msgLimiter := l\<rparr>) d')" if "d' = d\<lparr>tick := t\<rparr>" for d d' t l
    by (simp add: that steady_def steady_session_def set_session_def)
  have go: "steady d (snd (let (now, c) = Now x d; (allowed, l) = Allow now (ss_msgLimiter (cl_heap c r));
        c = set_session r ((cl_heap c r)\<lparr>ss_msgLimiter := l\<rparr>) c
      in bindS (allowed, c) (\<lambda>ok c. if ok then handleSignal x s k c else (Inr (), c))))" for d s
  proof -
    define e where "e = d\<lparr>tick := Suc (tick d)\<rparr>"
    obtain ok l where ok: "Allow (x_now x (tick d)) (ss_msgLimiter (cl_heap e r)) = (ok, l)" by fastforce
    show ?thesis
      unfolding Now_def Let_def prod.case e_def [symmetric] ok
      by (rule steady.chain [OF lim [OF e_def]], rule steady.bind [OF steady.ret])
        (rule steady.cond [OF steady_handleSignal steady.ret])
  qed
  show ?thesis
  proof (cases "b = Marker")
    case True
    show ?thesis
      unfolding handleDecrypted_def Cons list.case if_P [OF True]
      by (rule steady.catch [OF steady.lift steady.ret]) (intro steady.cond steady_handleSignal steady.ret go)
  qed (simp add: handleDecrypted_def Cons steady_handleFileChunk)
qed (simp add: handleDecrypted_def steady.same)

subsection \<open>The read loop\<close>

text \<open>Handling one opened payload: the receive counter has moved on, then the dispatcher runs.\<close>

definition deliver :: "ext \<Rightarrow> nat \<Rightarrow> key \<Rightarrow> bytes \<Rightarrow> client \<Rightarrow> unit result \<times> client" where
  "deliver x r k plain c = handleDecrypted x plain r k (set_session r (next_recv (cl_heap c r)) c)"

text \<open>The payloads that a list of frames opens to, those refused left out.\<close>

definition opened :: "ext \<Rightarrow> session \<Rightarrow> bytes list \<Rightarrow> bytes list" where
  "opened x s frames = concat (map (\<lambda>p. case p of Inl _ \<Rightarrow> [] | Inr v \<Rightarrow> [v]) (fst (run (session_decrypt x) s frames)))"

abbreviation read_error :: "unit result" where
  "read_error \<equiv> Inl (Err (Wrap ''read'' (Errorf ''read'')))"

lemma session_decrypt_cases:
  obtains (no) e where "session_decrypt x s f = (Inl (Err e), s)"
  | (yes) p where "session_decrypt x s f = (Inr p, next_recv s)"
proof -
  have "(\<exists>e. session_decrypt x s f = (Inl (Err e), s)) \<or> (\<exists>p. session_decrypt x s f = (Inr p, next_recv s))"
    by (auto simp: session_decrypt_def aesGCM_def next_recv_def Let_def split: option.splits)
  then show ?thesis using that by blast
qed

lemma decrypt_recv_only:
  "ss_recv s' = ss_recv s \<Longrightarrow> fst (session_decrypt x s' f) = fst (session_decrypt x s f) \<and>
    ss_recv (snd (session_decrypt x s' f)) = ss_recv (snd (session_decrypt x s f))"
  by (auto simp: session_decrypt_def aesGCM_def Let_def split: option.splits if_splits)

lemma opened_recv_only: "ss_recv s' = ss_recv s \<Longrightarrow> opened x s' fs = opened x s fs"
proof -
  have "ss_recv s' = ss_recv s \<Longrightarrow> fst (run (session_decrypt x) s' fs) = fst (run (session_decrypt x) s fs)"
  proof (induction fs arbitrary: s s')
    case (Cons f fs)
    have 1: "fst (session_decrypt x s' f) = fst (session_decrypt x s f)"
      "ss_recv (snd (session_decrypt x s' f)) = ss_recv (snd (session_decrypt x s f))"
      using decrypt_recv_only [OF Cons.prems] by simp_all
    from Cons.IH [OF 1(2)] 1(1) show ?case by (auto split: prod.splits)
  qed simp
  then show "ss_recv s' = ss_recv s \<Longrightarrow> opened x s' fs = opened x s fs" by (simp add: opened_def)
qed

lemma set_session_same [simp]: "set_session r (cl_heap c r) c = c"
  by (simp add: set_session_def)

lemma steady_deliver_recv: "ss_recv (cl_heap (snd (deliver x r k p c)) r) = ss_recv (next_recv (cl_heap c r))"
  using steady_handleDecrypted [of "set_session r (next_recv (cl_heap c r)) c" x p r k]
  by (simp add: deliver_def steady_def steady_session_def set_session_def)

lemma read_frames_opened:
  "read_frames x r k frames c =
    bindS (forS (deliver x r k) (opened x (cl_heap c r) frames) c) (\<lambda>_ c. (read_error, c))"
proof (induction frames arbitrary: c)
  case Nil
  then show ?case by (simp add: opened_def)
next
  case (Cons f fs)
  show ?case
  proof (rule session_decrypt_cases [of x "cl_heap c r" f])
    fix e assume no: "session_decrypt x (cl_heap c r) f = (Inl (Err e), cl_heap c r)"
    then have "opened x (cl_heap c r) (f # fs) = opened x (cl_heap c r) fs"
      by (simp add: opened_def split: prod.split)
    with no Cons show ?thesis by simp
  next
    fix p assume yes: "session_decrypt x (cl_heap c r) f = (Inr p, next_recv (cl_heap c r))"
    then have op: "opened x (cl_heap c r) (f # fs) = p # opened x (next_recv (cl_heap c r)) fs"
      by (simp add: opened_def split: prod.split)
    obtain q c' where d: "deliver x r k p c = (q, c')" by fastforce
    have "ss_recv (cl_heap c' r) = ss_recv (next_recv (cl_heap c r))"
      using steady_deliver_recv [of x r k p c] d by simp
    then have "opened x (cl_heap c' r) fs = opened x (next_recv (cl_heap c r)) fs" by (rule opened_recv_only)
    then show ?thesis using yes op d Cons [of c'] by (cases q) (simp_all add: deliver_def)
  qed
qed

lemma opened_sealed:
  assumes "run (session_decrypt x) b fs = (map Inr ps, b')"
  shows "opened x b fs = ps"
  using assms by (simp add: opened_def comp_def)

text \<open>
  C17: The read loop delivers: the frames a peer seals on a session that is in step with ours are opened
  and handled one by one, exactly once and in the order sent, whatever the handlers do in between and
  with whatever refused frames in front; a handler's panic ends the loop where it happens.
\<close>

theorem read_loop_in_order:
  assumes "in_step x a (cl_heap c r)" "\<And>f. f \<in> set junk \<Longrightarrow> \<exists>e. fst (session_decrypt x (cl_heap c r) f) = Inl e"
  shows "\<exists>fs a'. run (session_encrypt x) a ps = (map Inr fs, a') \<and>
    read_frames x r k (junk @ fs) c = bindS (forS (deliver x r k) ps c) (\<lambda>_ c. (read_error, c))"
proof -
  obtain fs a' b' where fs: "run (session_encrypt x) a ps = (map Inr fs, a')"
    "run (session_decrypt x) (cl_heap c r) fs = (map Inr ps, b')"
    using ch.in_order [OF assms(1)] by blast
  have skip: "read_frames x r k (junk @ fs) c = read_frames x r k fs c"
    using assms(2)
  proof (induction junk)
    case (Cons f junk)
    from Cons.prems [of f] obtain e where "fst (session_decrypt x (cl_heap c r) f) = Inl e" by auto
    then obtain e' where "session_decrypt x (cl_heap c r) f = (Inl (Err e'), cl_heap c r)"
      by (rule_tac session_decrypt_cases [of x "cl_heap c r" f]) auto
    with Cons show ?case by simp
  qed simp
  have "read_frames x r k fs c = bindS (forS (deliver x r k) ps c) (\<lambda>_ c. (read_error, c))"
    using read_frames_opened [of x r k fs c] opened_sealed [OF fs(2)] by simp
  with skip fs(1) show ?thesis by metis
qed

theorem read_loop_in_order_witness:
  "\<exists>fs a'. run (session_encrypt demo_ext) demo_session [[1], [2]] = (map Inr fs, a') \<and>
     read_frames demo_ext 0 9 ([[7]] @ fs) demo_client =
       bindS (forS (deliver demo_ext 0 9) [[1], [2]] demo_client) (\<lambda>_ c. (read_error, c))"
  by (rule read_loop_in_order) (simp_all add: demo_in_step demo_client_def session_decrypt_def)

subsection \<open>The end of a session\<close>

text \<open>What the read loop itself keeps: the session map and which sessions have a connection.\<close>

definition held :: "client \<Rightarrow> client \<Rightarrow> bool" where
  "held c c' \<longleftrightarrow> cl_sessions c' = cl_sessions c \<and> (\<forall>j. ss_conn (cl_heap c' j) = None \<longleftrightarrow> ss_conn (cl_heap c j) = None)"

interpretation held: footprint held
  by unfold_locales (simp_all add: held_def)

lemma held_steady: "steady c c' \<Longrightarrow> held c c'"
  by (simp add: held_def steady_def steady_session_def)

lemma held_next_recv: "held c (set_session r (next_recv (cl_heap c r)) c)"
  by (simp add: held_def set_session_def next_recv_def)

lemma held_read_frames: "held c (snd (read_frames x r k frames c))"
proof (induction frames arbitrary: c)
  case (Cons f fs)
  show ?case
  proof (rule session_decrypt_cases [of x "cl_heap c r" f])
    fix p assume "session_decrypt x (cl_heap c r) f = (Inr p, next_recv (cl_heap c r))"
    then show ?thesis
      using held.chain [OF held_next_recv held.bind [OF held_steady [OF steady_handleDecrypted] Cons]] by simp
  qed (use Cons in simp)
qed (simp add: held.same)

lemma read_frames_ends: "\<exists>e. fst (read_frames x r k frames c) = Inl e"
proof (induction frames arbitrary: c)
  case (Cons f fs)
  show ?case
  proof (rule session_decrypt_cases [of x "cl_heap c r" f])
    fix p assume d: "session_decrypt x (cl_heap c r) f = (Inr p, next_recv (cl_heap c r))"
    obtain q c' where "handleDecrypted x p r k (set_session r (next_recv (cl_heap c r)) c) = (q, c')" by fastforce
    with d Cons show ?thesis by (cases q) auto
  qed (use Cons in simp)
qed simp

lemma touch_peer_ok: "\<exists>c'. touch_peer x k c = (Inr (), c') \<and> store_only c c'"
  by (auto simp: touch_peer_def peers_Get_eq peers_Add_def db_exec_eq Now_def store_only_def wrapR_def
      split: option.splits sum.splits fault.splits)

definition dead :: "session \<Rightarrow> bool" where
  "dead s \<longleftrightarrow> cph_key (ss_sendr s) = None \<and> cph_key (ss_recv s) = None \<and> \<not> conn_live s"

lemma close_session_ok:
  assumes "ss_conn (cl_heap c r) \<noteq> None"
  shows "\<exists>s. close_session r c = (Inr (), set_session r s c) \<and> dead s"
  using assms
  by (intro exI [of _ "snd (closeConn (cl_heap c r))"])
    (auto simp: close_session_def closeConn_def dead_def conn_live_def Let_def)

lemma map_of_other_keys: "map_of (filter (\<lambda>e. fst e \<noteq> k) ps) j = (if j = k then None else map_of ps j)"
  by (induction ps) auto

lemma sessions_Load_Delete: "sessions_Load j (sessions_Delete k c) = (if j = k then None else sessions_Load j c)"
  by (simp add: sessions_Load_def sessions_Delete_def map_of_other_keys)

lemma readLoop_spec:
  assumes "readLoop x r frames c = (res, c')" "ss_conn (cl_heap c r) \<noteq> None"
  shows "(\<exists>e. res = Inl e) \<and> dead (cl_heap c' r) \<and>
    (\<forall>j. sessions_Load j c' = (if j = peerPubKey (cl_heap c r) then None else sessions_Load j c))"
proof -
  let ?k = "peerPubKey (cl_heap c r)"
  obtain q c1 where rf: "read_frames x r ?k frames c = (q, c1)" by fastforce
  have h: "held c c1" "\<exists>e. q = Inl e"
    using held_read_frames [of c x r ?k frames] read_frames_ends [of x r ?k frames c] rf by simp_all
  obtain c2 where c2: "touch_peer x ?k (sessions_Delete ?k c1) = (Inr (), c2)" "store_only (sessions_Delete ?k c1) c2"
    using touch_peer_ok by blast
  note f = store_only_client [OF c2(2)]
  have "ss_conn (cl_heap c2 r) \<noteq> None"
    using h(1) assms(2) unfolding f by (simp add: held_def sessions_Delete_def)
  then obtain s where s: "close_session r c2 = (Inr (), set_session r s c2)" "dead s"
    using close_session_ok by blast
  have c': "res = q" "c' = set_session r s c2"
    using assms(1) rf c2(1) s(1) by (auto simp: readLoop_def teardown_def)
  have "sessions_Load j c' = sessions_Load j (sessions_Delete ?k c1)" for j
    by (simp add: c' sessions_Load_def set_session_def f)
  moreover have "sessions_Load j c1 = sessions_Load j c" for j
    using h(1) by (simp add: sessions_Load_def held_def)
  ultimately show ?thesis using h(2) s(2) by (auto simp: c' set_session_def sessions_Load_Delete)
qed

text \<open>
  C18: Reading always ends in a clean state: when the connection fails or a handler panics, the loop
  returns, the session is closed with its keys erased, the peer it was opened with has no session any
  more, and every other entry of the session map is as it was.
\<close>

theorem readLoop_teardown:
  assumes "readLoop x r frames c = (res, c')" "ss_conn (cl_heap c r) \<noteq> None"
  shows "(\<exists>e. res = Inl e) \<and> dead (cl_heap c' r) \<and>
    (\<forall>j. sessions_Load j c' = (if j = peerPubKey (cl_heap c r) then None else sessions_Load j c))"
  using assms by (rule readLoop_spec)

theorem readLoop_teardown_witness:
  "sessions_Load 9 (snd (readLoop demo_ext 0 [[1, 2]] demo_client)) = None"
proof -
  have "ss_conn (cl_heap demo_client 0) \<noteq> None" "peerPubKey (cl_heap demo_client 0) = 9"
    by (simp_all add: demo_client_def demo_session_def peerPubKey_def)
  with readLoop_teardown [of demo_ext 0 "[[1, 2]]" demo_client, OF prod.collapse [symmetric]] show ?thesis
    by simp
qed

text \<open>
  The entry that is removed is the one of the key the peer proved in the handshake, the entry that was
  made is the one of the key in the URL.  When the two differ, the end of the session leaves a dead
  session in the map under the URL's key, and from then on every connection of that peer is refused.
\<close>

theorem stale_session_locks_out:
  assumes "sessions_Load k c = Some r" "ss_conn (cl_heap c r) \<noteq> None" "peerPubKey (cl_heap c r) \<noteq> k"
    and "readLoop x r frames c = (res, c')"
  shows "sessions_Load k c' = Some r \<and> dead (cl_heap c' r) \<and>
    (\<forall>remote upgraded fs. \<exists>rep c''.
       handleWS x (transport @ Key_String k) remote upgraded fs c' = (Inr [rep], c''))"
proof -
  note t = readLoop_spec [OF assms(4,2)]
  then have l: "sessions_Load k c' = Some r" using assms(1,3) by auto
  have "\<exists>rep c''. handleWS x (transport @ Key_String k) remote upgraded fs c' = (Inr [rep], c'')"
    for remote upgraded fs
  proof -
    obtain a c'' where a: "admit x (transport @ Key_String k) remote c' = (a, c'')" by fastforce
    note sp = admit_spec [OF a]
    then obtain d where d: "a = Inr d" by blast
    then obtain rep where "d = Inl rep" using sp l by (cases d) auto
    with a d show ?thesis by (auto simp: handleWS_def)
  qed
  with t l show ?thesis by blast
qed

theorem stale_session_locks_out_witness:
  "\<exists>rep c''. handleWS demo_ext (transport @ Key_String 4) (str ''127.0.0.1:50'') None []
      (snd (readLoop demo_ext 0 [] (demo_client\<lparr>cl_sessions := [(4, 0)]\<rparr>))) = (Inr [rep], c'')"
proof -
  let ?c = "demo_client\<lparr>cl_sessions := [(4, 0)]\<rparr>"
  have "sessions_Load 4 ?c = Some 0" "ss_conn (cl_heap ?c 0) \<noteq> None" "peerPubKey (cl_heap ?c 0) \<noteq> 4"
    by (simp_all add: sessions_Load_def demo_client_def demo_session_def peerPubKey_def)
  from stale_session_locks_out [OF this prod.collapse [symmetric]] show ?thesis by blast
qed

end
