(* ===== verification/Opening.thy ===== *)
theory Opening
  imports Delivery
begin

text \<open>
  Opening a session, accepted or dialled: what the session is when it stands, under which key it is
  kept and with which status.
\<close>

subsection \<open>After the handshake\<close>

lemma doSend_frame:
  assumes "doSend x s e sg w = (q, s', w')"
  shows "(\<exists>t. w' = w\<lparr>tick := t\<rparr> \<and> tick w \<le> t) \<and> ss_stat s' = ss_stat s \<and> (q = Inr () \<longrightarrow> conn_live s')"
proof -
  have same: "\<exists>t. w = w\<lparr>tick := t\<rparr> \<and> tick w \<le> t" by (rule exI [of _ "tick w"]) simp
  have next_: "\<exists>t. w\<lparr>tick := Suc (tick w)\<rparr> = w\<lparr>tick := t\<rparr> \<and> tick w \<le> t" by (rule exI [of _ "Suc (tick w)"]) simp
  from assms same next_ show ?thesis
    by (auto simp: doSend_def WriteMessage_def conn_live_def Let_def split: sum.splits option.splits if_splits)
qed

lemma doRecv_frame:
  assumes "doRecv x s w = (q, w')"
  shows "\<exists>t. w' = w\<lparr>tick := t\<rparr> \<and> tick w \<le> t"
proof -
  have same: "\<exists>t. w = w\<lparr>tick := t\<rparr> \<and> tick w \<le> t" by (rule exI [of _ "tick w"]) simp
  have next_: "\<exists>t. w\<lparr>tick := Suc (tick w)\<rparr> = w\<lparr>tick := t\<rparr> \<and> tick w \<le> t" by (rule exI [of _ "Suc (tick w)"]) simp
  from assms same next_ show ?thesis
    by (auto simp: doRecv_def ReadMessage_def Let_def split: option.splits)
qed

lemma exchange_frame:
  assumes "exchange x initiator e sg s w = (q, s', w')"
  shows "(\<exists>t. w' = w\<lparr>tick := t\<rparr> \<and> tick w \<le> t) \<and> ss_stat s' = ss_stat s \<and> ((\<exists>p. q = Inr p) \<longrightarrow> conn_live s')"
proof (cases initiator)
  case True
  obtain q1 s1 w1 where 1: "doSend x s e sg w = (q1, s1, w1)" using prod_cases3 by blast
  obtain q2 w2 where 2: "doRecv x s1 w1 = (q2, w2)" by fastforce
  from assms True 1 2 doSend_frame [OF 1] doRecv_frame [OF 2] show ?thesis
    by (auto simp: exchange_def split: sum.splits)
next
  case False
  obtain q1 w1 where 1: "doRecv x s w = (q1, w1)" by fastforce
  obtain q2 s2 w2 where 2: "doSend x s e sg w1 = (q2, s2, w2)" using prod_cases3 by blast
  from assms False 1 2 doRecv_frame [OF 1] doSend_frame [OF 2] show ?thesis
    by (auto simp: exchange_def split: sum.splits)
qed

lemma handshake_session:
  assumes "handshake x initiator s w = (q, s', w')"
  shows "(\<exists>t. w' = w\<lparr>tick := t\<rparr> \<and> tick w \<le> t) \<and> (q = Inr () \<longrightarrow> ss_stat s' = ss_stat s \<and> conn_live s' \<and>
    (\<exists>k. has_send_key s' k) \<and> cph_nonce (ss_sendr s') = 0)"
proof -
  let ?e = "x_dh_public x (x_random x (tick w))"
  let ?w = "w\<lparr>tick := Suc (tick w)\<rparr>"
  obtain p s1 w1 where ex: "exchange x initiator ?e (Sign x (ss_ourKeys s) (key_bytes ?e)) s ?w = (p, s1, w1)"
    using prod_cases3 by blast
  note f = exchange_frame [OF ex]
  then obtain t where t: "w1 = w\<lparr>tick := t\<rparr>" "Suc (tick w) \<le> t" by auto
  have w': "w' = w1" and s': "q = Inr () \<longrightarrow> (\<exists>shared peer. p = Inr peer \<and> s' = deriveKeys x shared initiator peer s1)"
    using assms ex by (auto simp: handshake_def Let_def split: sum.splits option.splits)
  have "ss_stat (deriveKeys x sh i pe s1) = ss_stat s1" "conn_live (deriveKeys x sh i pe s1) = conn_live s1"
    "\<exists>k. has_send_key (deriveKeys x sh i pe s1) k" "cph_nonce (ss_sendr (deriveKeys x sh i pe s1)) = 0" for sh i pe
    by (simp_all add: deriveKeys_def conn_live_def has_send_key_def aes_key_ok_def sha256_bytes_def Let_def)
  with f s' t show ?thesis by (auto simp: w')
qed

text \<open>A session that \<open>shake\<close> returns is new, keyed, on a live connection and has the given status.\<close>

lemma shake_spec:
  assumes "shake x initiator cn st c = (q, c')"
  shows "(\<forall>e. q = Inl e \<longrightarrow> (\<exists>t. c' = c\<lparr>tick := t\<rparr> \<and> tick c \<le> t)) \<and>
    (\<forall>r. q = Inr r \<longrightarrow> r = cl_next c \<and> (\<exists>t s k. c' = c\<lparr>tick := t, cl_heap := (cl_heap c)(r := s), cl_next := Suc r\<rparr> \<and>
       tick c \<le> t \<and> ss_stat s = st \<and> conn_live s \<and> has_send_key s k \<and> cph_nonce (ss_sendr s) = 0 \<and>
       peerPubKey s \<noteq> own_key c))"
proof -
  let ?c1 = "c\<lparr>tick := Suc (tick c)\<rparr>"
  obtain n where gn: "getName x c = (n, ?c1)" using getName_frame by (metis prod.collapse)
  obtain s c2 where ns: "newSession x cn n (cl_Keys ?c1) (cl_Timeout ?c1) (cl_RateLimit ?c1)
      (cl_RateWindow ?c1) ?c1 = (s, c2)" by fastforce
  have c2: "c2 = c\<lparr>tick := Suc (Suc (tick c))\<rparr>" using ns by (auto simp: newSession_def Now_def)
  obtain q1 s1 c3 where hs: "handshake x initiator (setStatus st s) c2 = (q1, s1, c3)" using prod_cases3 by blast
  note h = handshake_session [OF hs]
  have static: "ss_ourStatic (setStatus st s) = own_key c" using ns by (auto simp: newSession_def setStatus_def Now_def)
  have peer: "q1 = Inr () \<Longrightarrow> peerPubKey s1 \<noteq> own_key c"
    using handshake_result [OF hs] static by (simp add: Let_def)
  from h obtain t where t: "c3 = c\<lparr>tick := t\<rparr>" "tick c \<le> t" by (auto simp: c2)
  have eq: "shake x initiator cn st c = (case q1 of Inl e \<Rightarrow> (Inl e, c3)
      | Inr _ \<Rightarrow> (Inr (cl_next c3), c3\<lparr>cl_heap := (cl_heap c3)(cl_next c3 := s1), cl_next := Suc (cl_next c3)\<rparr>))"
    unfolding shake_def gn prod.case Let_def ns hs new_ref_def by (cases q1) auto
  show ?thesis
  proof (cases q1)
    case (Inl e)
    then show ?thesis using assms t unfolding eq by auto
  next
    case (Inr u)
    then obtain k where "has_send_key s1 k" "conn_live s1" "cph_nonce (ss_sendr s1) = 0" "ss_stat s1 = st"
      using h by (auto simp: setStatus_def)
    moreover have "peerPubKey s1 \<noteq> own_key c" using peer Inr by simp
    moreover have "q = Inr (cl_next c)" "c' = c\<lparr>tick := t, cl_heap := (cl_heap c)(cl_next c := s1), cl_next := Suc (cl_next c)\<rparr>"
      using assms Inr t(1) unfolding eq by auto
    ultimately show ?thesis using t(2) by blast
  qed
qed

subsection \<open>Sending changes nobody's standing\<close>

text \<open>What sending and the outbox leave alone: who is known, who is connected, and as what.\<close>

definition quiet :: "client \<Rightarrow> client \<Rightarrow> bool" where
  "quiet c c' \<longleftrightarrow> known_peers c' = known_peers c \<and> cl_sessions c' = cl_sessions c \<and> cl_next c' = cl_next c \<and>
     cl_Keys c' = cl_Keys c \<and>
     (\<forall>j. ss_stat (cl_heap c' j) = ss_stat (cl_heap c j) \<and> ss_peer (cl_heap c' j) = ss_peer (cl_heap c j))"

interpretation quiet: footprint quiet
  by unfold_locales (simp_all add: quiet_def)

lemma quiet_sess_send: "quiet c (snd (sess_send x r plain c))"
proof -
  have "quiet c (snd p)" if "sess_send x r plain c = p" for p
    using sess_send_frame [of x r plain c "fst p" "snd p"] sess_send_spec [of x r plain c "fst p" "snd p"] that
    by (auto simp: quiet_def)
  then show ?thesis by simp
qed

lemma quiet_outbox:
  "quiet c (snd (IncrementRetry x i c))" "quiet c (snd (outbox_Delete x i c))"
  "quiet c (snd (outbox_Get x k sec c))"
  by (auto simp: quiet_def IncrementRetry_def outbox_Delete_def outbox_Get_def db_exec_eq db_query_eq liftR_def
      bindS_def split: prod.splits sum.splits)

lemma quiet_flush_entries: "quiet c (snd (flush_entries x r es c))"
proof (induction es arbitrary: c)
  case (Cons e es)
  show ?case
    unfolding flush_entries.simps
    by (rule quiet.catch [OF quiet_sess_send], rule quiet.ignore [OF quiet_outbox(1)],
        rule quiet.bind [OF quiet.ignore [OF quiet_outbox(2)]], rule Cons)
qed (simp add: quiet.same)

lemma quiet_flushOutbox: "quiet c (snd (flushOutbox x k c))"
  unfolding flushOutbox_def
  by (rule quiet.catch [OF quiet_outbox(3)], rule quiet.ret)
    (auto intro: quiet.same quiet_flush_entries split: option.split)

lemma quiet_requestPeerInfo: "quiet c (snd (requestPeerInfo x r c))"
  unfolding requestPeerInfo_def by (intro quiet.catch quiet.lift quiet.ignore quiet_sess_send quiet.ret)

text \<open>None of the steps of opening a session panics.\<close>

lemma send_no_panic: "fst (sess_send x r plain c) \<noteq> Inl (Panic p)"
  using sess_send_spec [of x r plain c "fst (sess_send x r plain c)" "snd (sess_send x r plain c)"]
  by (auto simp: is_panic_def)

lemma signal_New_no_panic: "t \<in> {InfoRequest, InfoChanged, PeerAccepted} \<Longrightarrow> \<exists>b. signal_New t k uuid_Nil [] = Inr b"
  by (auto simp: signal_New_eq signal_type_defs str_def)

lemma ignore_send [simp]: "fst (ignoreS (sess_send x r plain c)) = Inr ()"
proof (cases "sess_send x r plain c")
  case (Pair q c')
  with send_no_panic [of x r plain c] show ?thesis by (cases q) (auto, metis fault.exhaust ignoreS_simps(1) fst_conv)
qed

lemma requestPeerInfo_ok [simp]: "fst (requestPeerInfo x r c) = Inr ()"
  using signal_New_no_panic [of InfoRequest "own_key c"] by (auto simp: requestPeerInfo_def liftR_def)

lemma name_peer_ok:
  "\<exists>t ps. name_peer x k r c = (Inr (), c\<lparr>tick := t, known_peers := ps\<rparr>) \<and> tick c \<le> t"
proof (cases "peers_Get x k c")
  case (Pair q c1)
  have c1: "c1 = c\<lparr>tick := Suc (tick c), known_peers := known_peers c\<rparr>" using Pair by (auto simp: peers_Get_eq)
  show ?thesis
  proof (cases q)
    case (Inl e)
    then obtain g where "e = Err g" using Pair
      by (cases e) (auto simp: peers_Get_eq wrapR_Panic_iff split: if_splits option.splits)
    then show ?thesis using Pair Inl 
      by (intro exI [of _ "Suc (tick c)"] exI [of _ "known_peers c"]) (simp add: name_peer_def c1)
  next
    case (Inr p)
    let ?ps = "if x_db x (Suc (tick c)) then replace_row pr_pub_key
      (peer_row x (p\<lparr>kp_Name := peerName (cl_heap c r)\<rparr>)) (known_peers c) else known_peers c"
    have "name_peer x k r c = (Inr (), c\<lparr>tick := Suc (Suc (tick c)), known_peers := ?ps\<rparr>)"
      using Pair Inr by (simp add: name_peer_def c1 peers_Add_def db_exec_eq)
    moreover have "tick c \<le> Suc (Suc (tick c))" by arith
    ultimately show ?thesis by blast
  qed
qed

lemma sessions_Load_Store: "sessions_Load j (sessions_Store k r c) = (if j = k then Some r else sessions_Load j c)"
  by (auto simp: sessions_Load_def sessions_Store_def map_add_def map_of_other_keys split: option.split)

lemma sessions_Store_frame [simp]:
  "outbox (sessions_Store k r c) = outbox c" "tick (sessions_Store k r c) = tick c"
  "cl_heap (sessions_Store k r c) = cl_heap c" "cl_Keys (sessions_Store k r c) = cl_Keys c"
  "known_peers (sessions_Store k r c) = known_peers c" "cl_next (sessions_Store k r c) = cl_next c"
  by (simp_all add: sessions_Store_def)

text \<open>
  C35: The key of the URL is never compared with the key of the handshake: whoever completes a handshake,
  with whatever identity of its own, on a connection that names an accepted peer is registered as
  that peer, with that peer's status, and receives everything queued for it, oldest second first, sealed
  for the session it controls; the queue is emptied.
\<close>

theorem url_key_not_checked:
  assumes "outbox_ok x (secret_of c) c" "\<And>t. x_db x t" "\<And>t. x_write x t"
    and "shake x False cn Accepted c = (Inr r, c1)" "peerPubKey (cl_heap c1 r) \<noteq> k"
  shows "\<exists>c' key q. open_session x cn k Accepted c = (Inr r, c') \<and> sessions_Load k c' = Some r \<and>
    sess_status r c' = Accepted \<and> peerPubKey (cl_heap c' r) = peerPubKey (cl_heap c1 r) \<and>
    has_send_key (cl_heap c1 r) key \<and> outbox_queue x (secret_of c) c' k = [] \<and>
    mset q = mset (outbox_queue x (secret_of c) c k) \<and> sorted (map entry_date q) \<and>
    conn_frames (cl_heap c' r) = conn_frames (cl_heap c1 r) @ frames_from x key 0 (map entry_payload q)"
proof -
  obtain t s key where sh: "c1 = c\<lparr>tick := t, cl_heap := (cl_heap c)(r := s), cl_next := Suc r\<rparr>" "tick c \<le> t"
    "ss_stat s = Accepted" "conn_live s" "has_send_key s key" "cph_nonce (ss_sendr s) = 0"
    using shake_spec [OF assms(4)] by auto
  obtain t2 ps where np: "name_peer x k r (sessions_Store k r c1) =
      (Inr (), (sessions_Store k r c1)\<lparr>tick := t2, known_peers := ps\<rparr>)" "t \<le> t2"
    using name_peer_ok [of x k r "sessions_Store k r c1"] by (auto simp: sh(1))
  define c2 where "c2 = (sessions_Store k r c1)\<lparr>tick := t2, known_peers := ps\<rparr>"
  have f: "outbox c2 = outbox c" "tick c \<le> tick c2" "cl_heap c2 = cl_heap c1" "secret_of c2 = secret_of c"
    "sessions_Load k c2 = Some r" "cl_heap c1 r = s"
    using np(2) sh(1,2) sessions_Load_Store [of k k r c1] by (auto simp: c2_def sessions_Load_def)
  have ok: "outbox_ok x (secret_of c) c2" using assms(1) f(1) by (rule outbox_ok_cong)
  obtain q c3 where fl: "flushOutbox x k c2 = (q, c3)" by fastforce
  have q: "outbox_queue x (secret_of c) c2 = outbox_queue x (secret_of c) c" using f(1) by (rule outbox_queue_cong)
  from flushOutbox_spec [of x c2 k r key q c3, unfolded f(4), OF ok assms(2) f(5) _ _ _ fl] assms(3) sh(3-6)
  obtain es where es: "q = Inr ()" "outbox_queue x (secret_of c) c3 k = []"
    "mset (map signal_entry es) = mset (outbox_queue x (secret_of c) c k)" "sorted (map ob_CreatedAt es)"
    "conn_frames (cl_heap c3 r) = conn_frames s @ frames_from x key 0 (map ob_SignalContent es)"
    by (auto simp: f q)
  have entries: "map entry_date (map signal_entry es) = map ob_CreatedAt es"
    "map entry_payload (map signal_entry es) = map ob_SignalContent es" by (simp_all add: signal_entry_def)
  have quiet: "quiet c2 c3" using quiet_flushOutbox [of c2 x k] fl by simp
  have opened: "open_session x cn k Accepted c = (Inr r, c3)"
    using assms(4) np(1) fl es(1)
    by (simp add: open_session_def Let_def c2_def [symmetric] Accepted_def Pending_def str_def)
  show ?thesis
    by (rule exI [of _ c3], rule exI [of _ key], rule exI [of _ "map signal_entry es"])
      (use opened quiet es(2-5) f sh(3,5) in \<open>auto simp: entries quiet_def sessions_Load_def peerPubKey_def simp del: map_map\<close>)
qed

text \<open>A client whose next handshake, on the network of the examples, is with \<open>alice\<close>.\<close>

definition bobs_client :: client where
  "bobs_client = demo_client\<lparr>tick := 4, cl_Keys := keys_of_seed demo_ext 8, cl_sessions := []\<rparr>"

definition live_conn :: conn where
  "live_conn = \<lparr>conn_open = True, conn_sent = []\<rparr>"

lemma bobs_shake:
  assumes "tick c = (if initiator then 7 else 8)" "cl_Keys c = keys_of_seed demo_ext 8" "profile c = None"
  shows "\<exists>c1. shake demo_net initiator live_conn st c = (Inr (cl_next c), c1) \<and> peerPubKey (cl_heap c1 (cl_next c)) = 6"
proof -
  let ?c1 = "c\<lparr>tick := tick c + 1\<rparr>" and ?c2 = "c\<lparr>tick := tick c + 2\<rparr>"
  have gn: "getName demo_net c = ([], ?c1)"
    using assms(3) by (simp add: getName_def client_Info_def profile_Get_def db_query_eq demo_net_def)
  obtain s where ns: "newSession demo_net live_conn [] (cl_Keys ?c1) (cl_Timeout ?c1) (cl_RateLimit ?c1)
      (cl_RateWindow ?c1) ?c1 = (s, ?c2)"
    and s: "ss_conn s = Some live_conn" "ss_ourName s = []" "ss_ourStatic s = 9" "ss_ourKeys s = keys_of_seed demo_ext 8"
    by (simp add: newSession_def Now_def assms(2)) (simp add: keys_of_seed_def demo_ext_def)
  let ?s = "setStatus st s"
  have hon: "honest demo_net ?s"
    using s demo_net_laws(2) by (simp add: honest_def setStatus_def live_conn_def keys_of_seed_def)
      (simp add: demo_net_def demo_ext_def)
  have diff: "ss_ourStatic ?s \<noteq> ss_ourStatic alice" by (simp add: s setStatus_def alice_def demo_session_def)
  have rd: "x_read demo_net (tick ?c2 + (if initiator then 2 else 1)) = Some (hello demo_net alice 0)"
    unfolding demo_hello by (simp add: demo_net_def assms(1))
  have sh: "x_dh_shared demo_net (x_random demo_net (tick ?c2)) (x_dh_public demo_net (x_random demo_net 0)) =
      Some (key_bytes (of_nat (tick c + 3)))"
    by (simp add: demo_net_def) (simp add: demo_ext_def add.commute)
  have hs: "handshake demo_net initiator ?s ?c2 = (Inr (), deriveKeys demo_net (key_bytes (of_nat (tick c + 3))) initiator
      (hello_data demo_net alice 0) (write_conn (hello demo_net ?s (tick ?c2)) ?s), ?c2\<lparr>tick := tick ?c2 + 3\<rparr>)"
    by (rule handshake_honest [OF hon demo_honest(1) diff _ rd sh]) (simp add: demo_net_def)
  show ?thesis
    unfolding shake_def gn prod.case Let_def ns hs new_ref_def
    by (simp add: peerPubKey_def deriveKeys_def hello_data_def) (simp add: alice_def demo_session_def Let_def)
qed

theorem url_key_not_checked_witness:
  "\<exists>c' r. open_session demo_net live_conn 4 Accepted (snd (outbox_Put demo_net 4 [1, 2] 8 bobs_client)) =
      (Inr r, c') \<and> sessions_Load 4 c' = Some r \<and> sess_status r c' = Accepted \<and>
      peerPubKey (cl_heap c' r) = 6 \<and> outbox_queue demo_net 8 c' 4 = []"
proof -
  define c where "c = snd (outbox_Put demo_net 4 [1, 2] 8 bobs_client)"
  have obs: "x_db demo_net t" "x_write demo_net t" "x_uuid_New demo_net t = of_nat (Suc t)"
    "x_now demo_net t = int t * 1000000000" for t
    by (simp_all add: demo_net_def)
  have ok0: "outbox_ok demo_net 8 bobs_client"
    using demo_net_laws by (simp add: outbox_ok_def bobs_client_def demo_client_def primary_key_def obs)
  have put: "outbox_Put demo_net 4 [1, 2] 8 bobs_client = (Inr 6, c)"
    by (simp add: c_def outbox_Put_eq bobs_client_def demo_client_def lookup_row_def obs Let_def)
  have ok: "outbox_ok demo_net 8 c" using ob.put_appends [OF ok0 put] by simp
  have f: "tick c = 8" "cl_Keys c = keys_of_seed demo_ext 8" "profile c = None" "secret_of c = 8"
    by (simp_all add: c_def outbox_Put_eq bobs_client_def demo_client_def lookup_row_def obs Let_def keys_of_seed_def)
  obtain c1 where "shake demo_net False live_conn Accepted c = (Inr (cl_next c), c1)"
    "peerPubKey (cl_heap c1 (cl_next c)) = 6"
    using bobs_shake [of c False, OF _ f(2,3)] f(1) by auto
  with url_key_not_checked [of demo_net c, unfolded f(4), OF ok obs(1,2), of live_conn "cl_next c" c1 4]
  show ?thesis unfolding c_def [symmetric] by auto
qed

subsection \<open>Dialling\<close>

lemma peers_Get_no_panic [simp]: "fst (peers_Get x k c) \<noteq> Inl (Panic p)"
  by (auto simp: peers_Get_eq wrapR_Panic_iff split: option.split)

lemma bindR_Panic_iff:
  "bindR r f = Inl (Panic p) \<longleftrightarrow> r = Inl (Panic p) \<or> (\<exists>v. r = Inr v \<and> f v = Inl (Panic p))"
  by (cases r) (auto simp: bindR_def)

lemma scan_no_panic:
  "uuid_Scan x t \<noteq> Inl (Panic p)" "FromHex t \<noteq> Inl (Panic p)" "decryptRaw x sec d \<noteq> Inl (Panic p)"
  by (auto simp: uuid_Scan_def FromHex_def decryptRaw_def guardR_def split: option.splits)

lemma scan_outbox_no_panic: "scan_outbox_content x sec row \<noteq> Inl (Panic p)"
  by (auto simp: scan_outbox_content_def scan_outbox_def bindR_Panic_iff wrapR_Panic_iff scan_no_panic)

lemma flushOutbox_ok [simp]: "fst (flushOutbox x k c) = Inr ()"
proof -
  have fe: "fst (flush_entries x r es c) = Inr ()" for r es c
  proof (induction es arbitrary: c)
    case (Cons e es)
    obtain q c1 where q: "sess_send x r (ob_SignalContent e) c = (q, c1)" by fastforce
    have i: "fst (ignoreS (IncrementRetry x j d)) = Inr ()" "\<exists>d'. ignoreS (outbox_Delete x j d) = (Inr (), d')" for j d
      by (auto simp: IncrementRetry_def outbox_Delete_def db_exec_eq)
    show ?case
    proof (cases q)
      case (Inl f)
      with q send_no_panic [of x r "ob_SignalContent e" c] obtain g where "f = Err g" by (cases f) auto
      with q Inl i(1) show ?thesis by simp
    next
      case (Inr u)
      obtain d where "ignoreS (outbox_Delete x (ob_ID e) c1) = (Inr (), d)" using i(2) by blast
      with q Inr Cons show ?thesis by simp
    qed
  qed simp
  obtain q c1 where q: "outbox_Get x k (secret_of c) c = (q, c1)" by fastforce
  have "mapR (scan_outbox_content x sec) rows \<noteq> Inl (Panic p)" for sec rows p
    by (induction rows) (auto simp: bindR_Panic_iff scan_outbox_no_panic)
  then have "q \<noteq> Inl (Panic p)" for p using q
    by (auto simp: outbox_Get_def db_query_eq liftR_def wrapR_Panic_iff bindS_def split: prod.splits sum.splits if_splits)
  then show ?thesis
    using q fe by (cases q; cases "projl q") (auto simp: flushOutbox_def split: option.split)
qed

text \<open>What storing a session does, when there is none for its peer and when there is one.\<close>

lemma storeSession_exists:
  "sessions_Load (peerPubKey (cl_heap c r)) c \<noteq> None \<Longrightarrow> storeSession x r c = (Inl (Err ErrSessionExists), c)"
  by (simp add: storeSession_def)

lemma storeSession_new:
  assumes "sessions_Load (peerPubKey (cl_heap c r)) c = None"
  shows "\<exists>c'. storeSession x r c = (Inr (), c') \<and> cl_Keys c' = cl_Keys c \<and> cl_next c' = cl_next c \<and>
    ss_peer (cl_heap c' r) = ss_peer (cl_heap c r) \<and>
    sess_status r c' = (case fst (peers_Get x (peerPubKey (cl_heap c r)) c) of Inr p \<Rightarrow> kp_Status p | Inl _ \<Rightarrow> Pending) \<and>
    (\<forall>j. sessions_Load j c' = (if j = peerPubKey (cl_heap c r) then Some r else sessions_Load j c))"
proof -
  let ?k = "peerPubKey (cl_heap c r)"
  let ?st = "case fst (peers_Get x ?k c) of Inr p \<Rightarrow> kp_Status p | Inl _ \<Rightarrow> Pending"
  let ?m = "catchS (peers_Get x ?k c)
      (\<lambda>_ c. (Inr (), set_session r (setStatus Pending (cl_heap c r)) c))
      (\<lambda>peer c. let c = set_session r (setStatus (kp_Status peer) (cl_heap c r)) c
         in ignoreS (peers_Add x (peer\<lparr>kp_Name := peerName (cl_heap c r)\<rparr>) c))"
  obtain q c1 where q: "peers_Get x ?k c = (q, c1)" by fastforce
  have c1: "c1 = c\<lparr>tick := Suc (tick c)\<rparr>" using q by (auto simp: peers_Get_eq)
  have "\<exists>c2. ?m = (Inr (), c2) \<and> cl_Keys c2 = cl_Keys c \<and> cl_next c2 = cl_next c \<and> cl_sessions c2 = cl_sessions c \<and>
      cl_heap c2 = (cl_heap c)(r := setStatus ?st (cl_heap c r))"
  proof (cases q)
    case (Inl e)
    then obtain g where "e = Err g" using peers_Get_no_panic [of x ?k c] q by (cases e) auto
    then show ?thesis using q Inl by (simp add: c1 set_session_def)
  qed (use q in \<open>simp add: c1 set_session_def peers_Add_def db_exec_eq Let_def\<close>)
  then obtain c2 where c2: "?m = (Inr (), c2)" "cl_Keys c2 = cl_Keys c" "cl_next c2 = cl_next c"
    "cl_sessions c2 = cl_sessions c" "cl_heap c2 = (cl_heap c)(r := setStatus ?st (cl_heap c r))" by blast
  obtain c3 where c3: "flushOutbox x ?k (sessions_Store ?k r c2) = (Inr (), c3)"
    using flushOutbox_ok [of x ?k "sessions_Store ?k r c2"] by (metis prod.collapse)
  have "quiet (sessions_Store ?k r c2) c3" using quiet_flushOutbox [of "sessions_Store ?k r c2" x ?k] c3 by simp
  then have "cl_Keys c3 = cl_Keys c \<and> cl_next c3 = cl_next c \<and> ss_peer (cl_heap c3 r) = ss_peer (cl_heap c r) \<and>
      sess_status r c3 = ?st \<and> (\<forall>j. sessions_Load j c3 = sessions_Load j (sessions_Store ?k r c2))"
    using c2 by (auto simp: quiet_def setStatus_def sessions_Load_def)
  moreover have "storeSession x r c = (Inr (), c3)"
    using assms c2(1) c3 by (simp add: storeSession_def Let_def)
  moreover have "sessions_Load j c2 = sessions_Load j c" for j using c2(4) by (simp add: sessions_Load_def)
  ultimately show ?thesis by (simp add: sessions_Load_Store)
qed

text \<open>The steps of a dial after the handshake, on the session \<open>r\<close>: first the peer is saved if it is new.\<close>

lemma register_dialled_store:
  "\<exists>c2. cl_heap c2 = cl_heap c \<and> cl_sessions c2 = cl_sessions c \<and> cl_Keys c2 = cl_Keys c \<and> cl_next c2 = cl_next c \<and>
    (\<forall>p. fst (peers_Get x (peerPubKey (cl_heap c r)) c) = Inr p \<longrightarrow> known_peers c2 = known_peers c \<and> tick c2 = Suc (tick c)) \<and>
    register_dialled x addr r c =
      catchS (storeSession x r c2) (\<lambda>e c. (Inl (Err (Wrap ''store session'' e)), drop_conn r c))
        (\<lambda>_ d. case fst (peers_Get x (peerPubKey (cl_heap c r)) c) of
           Inl _ \<Rightarrow> bindS (requestPeerInfo x r (set_session r (setStatus Pending (cl_heap d r)) d)) (\<lambda>_ c. (Inr r, c))
         | Inr _ \<Rightarrow> (Inr r, d))"
proof -
  let ?k = "peerPubKey (cl_heap c r)"
  obtain q d where q: "peers_Get x ?k c = (q, d)" by fastforce
  have d: "d = c\<lparr>tick := Suc (tick c)\<rparr>" using q by (auto simp: peers_Get_eq)
  let ?p = "\<lparr>kp_PeerIP = parsePeerIP x addr, kp_PubKey = ?k, kp_Name = peerName (cl_heap c r), kp_Nickname = [],
    kp_Status = Accepted, kp_Online = False, kp_LastSeen = zero_time, kp_ProfilePic = uuid_Nil\<rparr>"
  show ?thesis
  proof (cases q)
    case (Inl e)
    then obtain g where g: "e = Err g" using peers_Get_no_panic [of x ?k c] q by (cases e) auto
    have "ignoreS (peers_Add x ?p d) = (Inr (), snd (peers_Add x ?p d))" by (simp add: peers_Add_def db_exec_eq)
    with q Inl g show ?thesis
      by (intro exI [of _ "snd (peers_Add x ?p d)"])
        (simp add: register_dialled_def d Let_def, simp add: peers_Add_def db_exec_eq)
  next
    case (Inr p)
    with q show ?thesis by (intro exI [of _ d]) (simp add: register_dialled_def d Let_def)
  qed
qed

text \<open>Then, if there was no session for the peer, the session is registered, and a new peer asked for its name.\<close>

lemma register_dialled_end:
  assumes "sessions_Load (peerPubKey (cl_heap c r)) c = None"
  shows "\<exists>d. catchS (storeSession x r c) h (\<lambda>_ d. case q of
       Inl _ \<Rightarrow> bindS (requestPeerInfo x r (set_session r (setStatus Pending (cl_heap d r)) d)) (\<lambda>_ c. (Inr r, c))
     | Inr _ \<Rightarrow> (Inr r, d)) = (Inr r, d) \<and>
    cl_Keys d = cl_Keys c \<and> ss_peer (cl_heap d r) = ss_peer (cl_heap c r) \<and>
    (\<forall>j. sessions_Load j d = (if j = peerPubKey (cl_heap c r) then Some r else sessions_Load j c)) \<and>
    sess_status r d = (case q of Inl _ \<Rightarrow> Pending | Inr _ \<Rightarrow> sess_status r (snd (storeSession x r c)))"
proof -
  obtain e where e: "storeSession x r c = (Inr (), e)" "cl_Keys e = cl_Keys c"
    "ss_peer (cl_heap e r) = ss_peer (cl_heap c r)"
    "\<forall>j. sessions_Load j e = (if j = peerPubKey (cl_heap c r) then Some r else sessions_Load j c)"
    using storeSession_new [OF assms, of x] by auto
  let ?p = "set_session r (setStatus Pending (cl_heap e r)) e"
  show ?thesis
  proof (cases q)
    case (Inl g)
    obtain f where f: "requestPeerInfo x r ?p = (Inr (), f)"
      using requestPeerInfo_ok [of x r ?p] by (metis prod.collapse)
    have "quiet ?p f" using quiet_requestPeerInfo [of ?p x r] f by simp
    then have "cl_Keys f = cl_Keys c" "ss_peer (cl_heap f r) = ss_peer (cl_heap c r)" "sess_status r f = Pending"
      "\<forall>j. sessions_Load j f = sessions_Load j e"
      using e(2,3) by (auto simp: quiet_def set_session_def setStatus_def sessions_Load_def)
    with Inl e f show ?thesis by auto
  qed (use e in auto)
qed

lemma dial_Connected:
  assumes "shake x True cn [] c = (Inr r, c1)"
  shows "\<exists>c2 c3. cl_heap c2 = cl_heap c1 \<and> cl_sessions c2 = cl_sessions c1 \<and> cl_Keys c2 = cl_Keys c1 \<and>
    cl_next c2 = cl_next c1 \<and>
    dialAndHandshake x addr (Connected cn) c =
      (if sessions_Load (peerPubKey (cl_heap c1 r)) c1 \<noteq> None
       then (Inl (Err (Wrap ''store session'' ErrSessionExists)), drop_conn r c2) else (Inr r, c3)) \<and>
    (sessions_Load (peerPubKey (cl_heap c1 r)) c1 = None \<longrightarrow>
      cl_Keys c3 = cl_Keys c1 \<and> ss_peer (cl_heap c3 r) = ss_peer (cl_heap c1 r) \<and>
      (\<forall>j. sessions_Load j c3 = (if j = peerPubKey (cl_heap c1 r) then Some r else sessions_Load j c1)) \<and>
      sess_status r c3 = (case fst (peers_Get x (peerPubKey (cl_heap c1 r)) c1) of
        Inl _ \<Rightarrow> Pending | Inr _ \<Rightarrow> sess_status r (snd (storeSession x r c2))) \<and>
      (\<forall>p. fst (peers_Get x (peerPubKey (cl_heap c1 r)) c1) = Inr p \<longrightarrow> known_peers c2 = known_peers c1 \<and>
        tick c2 = Suc (tick c1)))"
proof -
  let ?k = "peerPubKey (cl_heap c1 r)" and ?q = "fst (peers_Get x (peerPubKey (cl_heap c1 r)) c1)"
  obtain c2 where c2: "cl_heap c2 = cl_heap c1" "cl_sessions c2 = cl_sessions c1" "cl_Keys c2 = cl_Keys c1"
    "cl_next c2 = cl_next c1" "\<forall>p. ?q = Inr p \<longrightarrow> known_peers c2 = known_peers c1 \<and> tick c2 = Suc (tick c1)"
    and eq: "register_dialled x addr r c1 =
      catchS (storeSession x r c2) (\<lambda>e c. (Inl (Err (Wrap ''store session'' e)), drop_conn r c))
        (\<lambda>_ d. case ?q of
           Inl _ \<Rightarrow> bindS (requestPeerInfo x r (set_session r (setStatus Pending (cl_heap d r)) d)) (\<lambda>_ c. (Inr r, c))
         | Inr _ \<Rightarrow> (Inr r, d))"
    using register_dialled_store [of c1 x r addr] by blast
  have l: "sessions_Load j c2 = sessions_Load j c1" for j by (simp add: sessions_Load_def c2)
  have dial: "dialAndHandshake x addr (Connected cn) c = register_dialled x addr r c1"
    by (simp add: dialAndHandshake_def assms)
  show ?thesis
  proof (cases "sessions_Load ?k c1 = None")
    case False
    then show ?thesis using c2 dial eq storeSession_exists [of c2 r x] l by (intro exI [of _ c2]) simp
  next
    case True
    then have "sessions_Load (peerPubKey (cl_heap c2 r)) c2 = None" using l c2(1) by simp
    from register_dialled_end [OF this, of x "\<lambda>e c. (Inl (Err (Wrap ''store session'' e)), drop_conn r c)" ?q]
    obtain c3 where "register_dialled x addr r c1 = (Inr r, c3)" "cl_Keys c3 = cl_Keys c1"
      "ss_peer (cl_heap c3 r) = ss_peer (cl_heap c1 r)"
      "\<forall>j. sessions_Load j c3 = (if j = ?k then Some r else sessions_Load j c1)"
      "sess_status r c3 = (case ?q of Inl _ \<Rightarrow> Pending | Inr _ \<Rightarrow> sess_status r (snd (storeSession x r c2)))"
      unfolding eq [symmetric] c2(1,3) l by blast
    with True c2 dial show ?thesis by (intro exI [of _ c2] exI [of _ c3]) simp
  qed
qed

text \<open>The status a dialled session starts with, by what the database says of the peer.\<close>

definition dialled_status :: "ext \<Rightarrow> key \<Rightarrow> client \<Rightarrow> PeerStatus" where
  "dialled_status x k c =
     (case lookup_row pr_pub_key (known_peers c) (Key_String k) of
        None \<Rightarrow> Pending
      | Some row \<Rightarrow> (case scan_peer x row of Inl _ \<Rightarrow> Pending | Inr p \<Rightarrow> kp_Status p))"

lemma dialled_fresh:
  assumes "shake x True cn [] c = (Inr r, c1)" "\<And>t. x_db x t"
    and "sessions_Load (peerPubKey (cl_heap c1 r)) c1 = None"
  shows "\<exists>c'. dialAndHandshake x addr (Connected cn) c = (Inr r, c') \<and>
    peerPubKey (cl_heap c' r) = peerPubKey (cl_heap c1 r) \<and>
    (\<forall>j. sessions_Load j c' = (if j = peerPubKey (cl_heap c1 r) then Some r else sessions_Load j c)) \<and>
    sess_status r c' = dialled_status x (peerPubKey (cl_heap c1 r)) c"
proof -
  let ?k = "peerPubKey (cl_heap c1 r)"
  have c1: "cl_sessions c1 = cl_sessions c" "known_peers c1 = known_peers c" using shake_spec [OF assms(1)] by auto
  have l: "sessions_Load j c1 = sessions_Load j c" for j by (simp add: sessions_Load_def c1)
  have st: "fst (peers_Get x ?k d) = (case lookup_row pr_pub_key (known_peers c) (Key_String ?k) of
      None \<Rightarrow> Inl (Err ErrNotExist) | Some row \<Rightarrow> wrapR ''store: get known peer'' (scan_peer x row))"
    if "known_peers d = known_peers c" for d
    using assms(2) that by (simp add: peers_Get_eq)
  obtain c2 c3 where d: "cl_heap c2 = cl_heap c1" "cl_sessions c2 = cl_sessions c1"
    "dialAndHandshake x addr (Connected cn) c = (Inr r, c3)" "ss_peer (cl_heap c3 r) = ss_peer (cl_heap c1 r)"
    "\<forall>j. sessions_Load j c3 = (if j = ?k then Some r else sessions_Load j c1)"
    "sess_status r c3 = (case fst (peers_Get x ?k c1) of
        Inl _ \<Rightarrow> Pending | Inr _ \<Rightarrow> sess_status r (snd (storeSession x r c2)))"
    "\<forall>p. fst (peers_Get x ?k c1) = Inr p \<longrightarrow> known_peers c2 = known_peers c1"
    using dial_Connected [OF assms(1), of addr] assms(3) by auto
  have "sess_status r c3 = dialled_status x ?k c"
  proof (cases "fst (peers_Get x ?k c1)")
    case (Inl e)
    then show ?thesis using d(6) st [OF c1(2)]
      by (auto simp: dialled_status_def wrapR_Inl split: option.splits sum.splits)
  next
    case (Inr p)
    then have "known_peers c2 = known_peers c" using d(7) c1(2) by auto
    moreover have "sessions_Load (peerPubKey (cl_heap c2 r)) c2 = None"
      using assms(3) d(1,2) by (simp add: sessions_Load_def)
    ultimately show ?thesis using storeSession_new [of c2 r x] st [of c2] st [OF c1(2)] Inr d(1,6)
      by (auto simp: dialled_status_def split: option.splits sum.splits)
  qed
  with d(3-5) l show ?thesis by (intro exI [of _ c3]) (simp add: peerPubKey_def)
qed

lemma dial_failed_sessions:
  assumes "dialAndHandshake x addr dialled c = (Inl e, c')"
  shows "cl_sessions c' = cl_sessions c"
proof (cases dialled)
  case (Connected cn)
  obtain p c1 where sh: "shake x True cn [] c = (p, c1)" by fastforce
  note sp = shake_spec [OF sh]
  show ?thesis
  proof (cases p)
    case (Inl e)
    then show ?thesis using assms Connected sh sp by (auto simp: dialAndHandshake_def)
  next
    case (Inr r)
    then have "cl_sessions c1 = cl_sessions c" using sp by auto
    with dial_Connected [of x cn c r c1 addr] sh Inr assms Connected show ?thesis
      by (auto simp: drop_conn_def set_session_def split: if_splits)
  qed
qed (use assms in \<open>auto simp: dialAndHandshake_def split: if_splits\<close>)

lemma dialled_shake:
  assumes "dialAndHandshake x addr dialled c = (Inr r, c')"
  obtains cn c1 where "dialled = Connected cn" "shake x True cn [] c = (Inr r, c1)"
    "sessions_Load (peerPubKey (cl_heap c1 r)) c1 = None"
proof -
  obtain cn where cn: "dialled = Connected cn"
    using assms by (cases dialled) (auto simp: dialAndHandshake_def split: if_splits)
  obtain p c1 where sh: "shake x True cn [] c = (p, c1)" by fastforce
  then obtain r1 where p: "p = Inr r1" using assms cn by (cases p) (auto simp: dialAndHandshake_def)
  show ?thesis
    using dial_Connected [of x cn c r1 c1 addr] sh p assms cn by (auto intro: that split: if_splits)
qed

text \<open>
  C20: A dialled session is registered under the key its peer proved in the handshake, only when there was
  no session for that key, next to the sessions there were; it starts with the status the database
  gives that peer, and pending for a peer met for the first time.  A dial that fails, for whatever
  reason, leaves the session map as it was.
\<close>

theorem dialled_session_registered:
  assumes "dialAndHandshake x addr dialled c = (q, c')" "\<And>t. x_db x t"
  shows "(\<forall>r. q = Inr r \<longrightarrow> (let k = peerPubKey (cl_heap c' r) in
      sessions_Load k c = None \<and> sess_status r c' = dialled_status x k c \<and>
      (\<forall>j. sessions_Load j c' = (if j = k then Some r else sessions_Load j c)))) \<and>
    (\<forall>e. q = Inl e \<longrightarrow> cl_sessions c' = cl_sessions c)"
proof (intro conjI allI impI)
  fix r
  assume "q = Inr r"
  with assms(1) obtain cn c1 where d: "dialled = Connected cn" "shake x True cn [] c = (Inr r, c1)"
    "sessions_Load (peerPubKey (cl_heap c1 r)) c1 = None"
    by (auto elim: dialled_shake)
  have "sessions_Load (peerPubKey (cl_heap c1 r)) c = None"
    using d(3) shake_spec [OF d(2)] by (auto simp: sessions_Load_def)
  with dialled_fresh [OF d(2) assms(2) d(3), of addr] assms(1) d(1)
  show "let k = peerPubKey (cl_heap c' r) in sessions_Load k c = None \<and> sess_status r c' = dialled_status x k c \<and>
      (\<forall>j. sessions_Load j c' = (if j = k then Some r else sessions_Load j c))"
    by (auto simp: Let_def)
qed (use assms(1) dial_failed_sessions in auto)

lemma bobs_dial:
  "\<exists>c'. dialAndHandshake demo_net (str ''h:1'') (Connected live_conn) (bobs_client\<lparr>tick := 7\<rparr>) = (Inr 1, c') \<and>
     peerPubKey (cl_heap c' 1) = 6"
proof -
  let ?c = "bobs_client\<lparr>tick := 7\<rparr>"
  have f: "tick ?c = 7" "cl_Keys ?c = keys_of_seed demo_ext 8" "profile ?c = None" "cl_next ?c = 1"
    "sessions_Load k ?c = None" for k
    by (simp_all add: bobs_client_def demo_client_def sessions_Load_def)
  obtain c1 where c1: "shake demo_net True live_conn [] ?c = (Inr 1, c1)" "peerPubKey (cl_heap c1 1) = 6"
    using bobs_shake [of ?c True "[]", OF _ f(2,3)] unfolding f(1,4) by auto
  have "sessions_Load 6 c1 = None" using shake_spec [OF c1(1)] f(5) by (auto simp: sessions_Load_def)
  then obtain c' where d: "dialAndHandshake demo_net (str ''h:1'') (Connected live_conn) ?c = (Inr 1, c')"
    "ss_peer (cl_heap c' 1) = ss_peer (cl_heap c1 1)"
    using dial_Connected [OF c1(1), of "str ''h:1''"] c1(2) by auto
  then show ?thesis using c1(2) by (auto simp: peerPubKey_def)
qed

theorem dialled_session_registered_witness:
  "\<exists>c'. dialAndHandshake demo_net (str ''h:1'') (Connected live_conn) (bobs_client\<lparr>tick := 7\<rparr>) = (Inr 1, c') \<and>
     sessions_Load 6 c' = Some 1 \<and> sess_status 1 c' = Pending"
proof -
  obtain c' where d: "dialAndHandshake demo_net (str ''h:1'') (Connected live_conn) (bobs_client\<lparr>tick := 7\<rparr>) = (Inr 1, c')"
    "peerPubKey (cl_heap c' 1) = 6"
    using bobs_dial by blast
  have "x_db demo_net t" for t by (simp add: demo_net_def)
  moreover have "known_peers (bobs_client\<lparr>tick := 7\<rparr>) = []" by (simp add: bobs_client_def demo_client_def)
  ultimately show ?thesis
    using dialled_session_registered [OF d(1)] d by (auto simp: dialled_status_def lookup_row_def Let_def)
qed

end
