(* ===== verification/Api.thy ===== *)
theory Api
  imports Opening
begin

text \<open>
  The HTTP interface of the local user, from \<open>client/api.go\<close> and \<open>client/routes.go\<close>: every handler, the
  check that lets only the local machine in, and the table of routes.

  A request is what the handlers read of it: the remote address, the path values, the query, the one
  field of its JSON body (\<open>None\<close> when the body does not decode), its multipart form (\<open>None\<close> when it does
  not parse), and what dialling gives while it is served.  Line feeds and quotation marks in the error
  texts are left out.
\<close>

subsection \<open>Requests\<close>

text \<open>A file of a form: opening it fails, reading it fails, or its bytes.\<close>

record fileHeader =
  fh_Filename :: gostring
  fh_Size :: int
  fh_ContentType :: gostring
  fh_Open :: "bytes option option"

record form =
  fo_content :: gostring
  fo_name :: gostring
  fo_files :: "fileHeader list"
  fo_file :: "bytes option option"

record request =
  rq_RemoteAddr :: gostring
  rq_pubKey :: gostring
  rq_id :: gostring
  rq_q :: gostring
  rq_json :: "gostring option"
  rq_form :: "form option"
  rq_dial :: dial

type_synonym handler = "ext \<Rightarrow> request \<Rightarrow> client \<Rightarrow> reply list result \<times> client"

abbreviation respond :: "reply \<Rightarrow> client \<Rightarrow> reply list result \<times> client" where
  "respond rep c \<equiv> (Inr [rep], c)"

text \<open>The path value as a key or as an id, or the answer that it is none.\<close>

definition with_pubKey :: "request \<Rightarrow> (key \<Rightarrow> client \<Rightarrow> reply list result \<times> client) \<Rightarrow> client \<Rightarrow> reply list result \<times> client" where
  "with_pubKey rq f c = catchS (liftR (FromHex (rq_pubKey rq)) c) (\<lambda>_ c. respond (HttpError 400 ''invalid pubKey'') c) f"

definition with_id :: "ext \<Rightarrow> request \<Rightarrow> (uuid \<Rightarrow> client \<Rightarrow> reply list result \<times> client) \<Rightarrow> client \<Rightarrow> reply list result \<times> client" where
  "with_id x rq f c =
     (case x_uuid_Parse x (rq_id rq) of None \<Rightarrow> respond (HttpError 400 ''invalid id'') c | Some i \<Rightarrow> f i c)"

subsection \<open>Peers and sessions\<close>

definition adminListPeers :: handler where
  "adminListPeers x rq c =
     catchS (peers_List x c) (\<lambda>e c. respond (HttpErrorOf 500 e) c) (\<lambda>peers c.
       respond (JsonPeers (map (\<lambda>p. if sessions_Load (kp_PubKey p) c \<noteq> None then p\<lparr>kp_Online := True\<rparr> else p) peers)) c)"

definition updatePeerStatus :: "PeerStatus \<Rightarrow> handler" where
  "updatePeerStatus status x rq c =
     with_pubKey rq (\<lambda>pubKey c.
       catchS (peers_Get x pubKey c) (\<lambda>_ c. respond (HttpError 404 ''peer not found'') c) (\<lambda>peer c.
         let peer = peer\<lparr>kp_Status := status\<rparr>
         in catchS (peers_Add x peer c) (\<lambda>e c. respond (HttpErrorOf 500 e) c) (\<lambda>_ c. respond (JsonPeer peer) c))) c"

definition updateSessionStatus :: "key \<Rightarrow> PeerStatus \<Rightarrow> client \<Rightarrow> unit result \<times> client" where
  "updateSessionStatus pubKey status c =
     (case sessions_Load pubKey c of
        None \<Rightarrow> (Inr (), c)
      | Some r \<Rightarrow>
          if status = Rejected then close_session r (sessions_Delete pubKey c)
          else (Inr (), set_session r (setStatus status (cl_heap c r)) c))"

definition adminAcceptPeer :: handler where
  "adminAcceptPeer x rq c =
     with_pubKey rq (\<lambda>pubKey c.
       bindS (updatePeerStatus Accepted x rq c) (\<lambda>reps c.
       bindS (updateSessionStatus pubKey Accepted c) (\<lambda>_ c.
       catchS (liftR (signal_New PeerAccepted (own_key c) uuid_Nil []) c)
         (\<lambda>_ c. (Inr (reps @ [HttpError 500 ''an error happened'']), c))
         (\<lambda>sig c. case sessions_Load pubKey c of
            None \<Rightarrow> (Inr reps, c)
          | Some r \<Rightarrow> bindS (ignoreS (sess_send x r sig c)) (\<lambda>_ c. (Inr reps, c)))))) c"

definition adminRejectPeer :: handler where
  "adminRejectPeer x rq c =
     with_pubKey rq (\<lambda>pubKey c.
       bindS (updatePeerStatus Rejected x rq c) (\<lambda>reps c.
       bindS (updateSessionStatus pubKey Rejected c) (\<lambda>_ c. (Inr reps, c)))) c"

fun list_sessions :: "ext \<Rightarrow> (key \<times> nat) list \<Rightarrow> client \<Rightarrow> sessionInfo list \<times> client" where
  "list_sessions x [] c = ([], c)"
| "list_sessions x ((pk, r) # es) c =
     (let (name, c) = displayNameForPubKey x pk c;
          info = \<lparr>si_PubKey = pk, si_Status = sess_status r c, si_Name = name\<rparr>;
          (out, c) = list_sessions x es c
      in (info # out, c))"

definition adminListSessions :: handler where
  "adminListSessions x rq c =
     (let (out, c) = list_sessions x (cl_sessions c) c in respond (JsonSessions out) c)"

definition adminDeleteSession :: handler where
  "adminDeleteSession x rq c =
     with_pubKey rq (\<lambda>pubKey c.
       case sessions_Load pubKey c of
         None \<Rightarrow> respond (HttpError 404 ''session not found'') c
       | Some r \<Rightarrow> bindS (close_session r (sessions_Delete pubKey c))
           (\<lambda>_ c. respond (JsonStatus ''disconnected'') c)) c"

definition apiConnectPeer :: handler where
  "apiConnectPeer x rq c =
     (case rq_json rq of
        None \<Rightarrow> respond (HttpError 400 ''invalid body'') c
      | Some a \<Rightarrow>
          catchS (liftR (validateAddr a) c) (\<lambda>e c. respond (HttpErrorOf 400 e) c) (\<lambda>addr c.
          catchS (connectSession x addr (rq_dial rq) c) (\<lambda>e c. respond (HttpErrorOf 502 e) c)
            (\<lambda>_ c. respond (JsonStatus ''connected'') c)))"

definition adminSetNickname :: handler where
  "adminSetNickname x rq c =
     with_pubKey rq (\<lambda>pubKey c.
       case rq_json rq of
         None \<Rightarrow> respond (HttpError 400 ''invalid body'') c
       | Some nickname \<Rightarrow>
           catchS (peers_Get x pubKey c) (\<lambda>_ c. respond (HttpError 404 ''peer not found'') c) (\<lambda>peer c.
             let peer = peer\<lparr>kp_Nickname := nickname\<rparr>
             in catchS (peers_Add x peer c) (\<lambda>e c. respond (HttpErrorOf 500 e) c) (\<lambda>_ c. respond (JsonPeer peer) c))) c"

subsection \<open>Sending\<close>

text \<open>The loop over the files of the form; at most \<open>maxSize\<close> bytes of each are read.\<close>

fun form_files :: "int \<Rightarrow> int \<Rightarrow> fileHeader list \<Rightarrow> attachment list result" where
  "form_files maxSize totalSize [] = Inr []"
| "form_files maxSize totalSize (fh # fhs) =
     (if totalSize + fh_Size fh > maxSize then Fail ''attachments exceed max size''
      else case fh_Open fh of
        None \<Rightarrow> Fail ''read file''
      | Some None \<Rightarrow> Fail ''read file''
      | Some (Some bytes) \<Rightarrow>
          (let data = take (nat maxSize) bytes
           in bindR (form_files maxSize (totalSize + fh_Size fh) fhs) (\<lambda>atts.
                Inr (\<lparr>att_ID = uuid_Nil, att_Name = fh_Filename fh, att_MIMEType = fh_ContentType fh,
                      att_Size = int (length data), att_Data = data\<rparr> # atts))))"

definition parseMessageForm :: "request \<Rightarrow> int \<Rightarrow> (gostring \<times> attachment list) result" where
  "parseMessageForm rq maxSize =
     (case rq_form rq of
        None \<Rightarrow> Fail ''invalid form''
      | Some fo \<Rightarrow> bindR (form_files maxSize 0 (fo_files fo)) (\<lambda>atts. Inr (fo_content fo, atts)))"

text \<open>The reads of a buffer's size from a reader over \<open>data\<close>, up to the end of the file.\<close>

function chunks_of :: "nat \<Rightarrow> bytes \<Rightarrow> bytes list" where
  "chunks_of n data = (if n = 0 \<or> data = [] then [] else take n data # chunks_of n (drop n data))"
  by pat_completeness auto

termination
  by (relation "measure (\<lambda>(n, data). length data)") auto

declare chunks_of.simps [simp del]

definition sendAttachments :: "ext \<Rightarrow> key \<Rightarrow> attachment list \<Rightarrow> client \<Rightarrow> unit result \<times> client" where
  "sendAttachments x pubKey atts c =
     (case sessions_Load pubKey c of
        None \<Rightarrow> (Inr (), c)
      | Some r \<Rightarrow>
          if sess_status r c \<noteq> Accepted then (Inr (), c)
          else forS (\<lambda>att c. ignoreS (sendFile x r (att_ID att) (att_Name att) (att_MIMEType att) (att_Size att)
                 (chunks_of FileChunkSize (take (nat (att_Size att)) (att_Data att)), False) c)) atts c)"

fun new_ids :: "ext \<Rightarrow> attachment list \<Rightarrow> client \<Rightarrow> attachment list \<times> client" where
  "new_ids x [] c = ([], c)"
| "new_ids x (a # as) c =
     (let (i, c) = uuid_New x c; (as, c) = new_ids x as c in (a\<lparr>att_ID := i\<rparr> # as, c))"

definition apiSendMessage :: handler where
  "apiSendMessage x rq c =
     with_pubKey rq (\<lambda>pubKey c.
       if pubKey = own_key c then respond (HttpError 400 ''cannot message self'') c
       else catchS (liftR (parseMessageForm rq (cl_MaxMessageSize c)) c) (\<lambda>e c. respond (HttpErrorOf 400 e) c)
        (\<lambda>(content, atts) c.
         catchS (peers_Get x pubKey c) (\<lambda>_ c. respond (HttpError 404 ''unknown peer'') c) (\<lambda>peer c.
           if kp_Status peer = Rejected then respond (HttpError 403 ''peer rejected'') c
           else
            (let sess = sessions_Load pubKey c;
                 to = (case sess of None \<Rightarrow> take 16 (Key_String pubKey) | Some r \<Rightarrow> peerName (cl_heap c r))
             in if (\<exists>r \<in> set_option sess. sess_status r c = Rejected)
                then respond (HttpError 403 ''peer rejected'') c
                else
                 (let (msg, c) = NewMessage x to content [] c;
                      queued = (case sess of None \<Rightarrow> True | Some r \<Rightarrow> sess_status r c \<noteq> Accepted);
                      (msg, atts, c) =
                        (if atts \<noteq> []
                         then (let (i, c) = uuid_New x c; (atts, c) = new_ids x atts c
                               in (msg\<lparr>msg_ID := i, msg_Attachments := map (\<lambda>a. a\<lparr>att_Data := []\<rparr>) atts\<rparr>, atts, c))
                         else (msg, atts, c))
                  in catchS (sendMessageToPeer x pubKey msg c)
                       (\<lambda>_ c. respond (HttpError 500 ''send failed'') c)
                       (\<lambda>_ c.
                         bindS (if atts \<noteq> []
                                then bindS (sendAttachments x pubKey atts c) (\<lambda>_ c.
                                  let (res, _, c) = StoreAttachments x (secret_of c) (x_uuid_String x (msg_ID msg)) atts c
                                  in ignoreS (res, c))
                                else (Inr (), c))
                          (\<lambda>_ c. respond (JsonStatus (if queued then ''queued'' else ''sent'')) c))))))) c"

subsection \<open>Messages and files\<close>

definition msgResponse :: "ext \<Rightarrow> message \<Rightarrow> client \<Rightarrow> (message \<times> gostring) \<times> client" where
  "msgResponse x msg c =
     (if msg_FromPubKey msg = own_key c then (let (name, c) = getName x c in ((msg, name), c))
      else if msg_FromPubKey msg \<noteq> NilKey then
        (let (p, c) = peers_Get x (msg_FromPubKey msg) c
         in ((msg, case p of
               Inl _ \<Rightarrow> []
             | Inr peer \<Rightarrow> if kp_Nickname peer \<noteq> [] then kp_Nickname peer else kp_Name peer), c))
      else ((msg, []), c))"

fun msgResponses :: "ext \<Rightarrow> message list \<Rightarrow> client \<Rightarrow> (message \<times> gostring) list \<times> client" where
  "msgResponses x [] c = ([], c)"
| "msgResponses x (m # ms) c =
     (let (r, c) = msgResponse x m c; (rs, c) = msgResponses x ms c in (r # rs, c))"

definition apiListMessages :: handler where
  "apiListMessages x rq c =
     catchS (chats_List x c) (\<lambda>e c. respond (HttpErrorOf 500 e) c) (\<lambda>summaries c. respond (JsonSummaries summaries) c)"

definition apiGetMessage :: handler where
  "apiGetMessage x rq c =
     with_id x rq (\<lambda>i c.
       catchS (message_Get x (secret_of c) i c) (\<lambda>e c. respond (HttpErrorOf 404 e) c) (\<lambda>msg c.
         let (resp, c) = msgResponse x msg c in respond (JsonMessage resp) c)) c"

definition apiSearchMessages :: handler where
  "apiSearchMessages x rq c =
     (if rq_q rq = [] then respond (HttpError 400 ''missing query parameter q'') c
      else catchS (message_Search x (secret_of c) (rq_q rq) 50 c) (\<lambda>e c. respond (HttpErrorOf 500 e) c) (\<lambda>results c.
        let (resp, c) = msgResponses x results c in respond (JsonMessages resp) c))"

definition getOwnedMessage :: "ext \<Rightarrow> uuid \<Rightarrow> client \<Rightarrow> message result \<times> client" where
  "getOwnedMessage x i c =
     bindS (wrapS ''get message'' (message_Get x (secret_of c) i c)) (\<lambda>msg c.
       (if msg_FromPubKey msg \<noteq> own_key c then Inl (Err ErrNotOwner) else Inr msg, c))"

definition apiUpdateMessage :: handler where
  "apiUpdateMessage x rq c =
     with_id x rq (\<lambda>i c.
       catchS (getOwnedMessage x i c)
         (\<lambda>e c. if errors_Is e ErrNotOwner then respond (HttpError 403 ''cannot edit another user's message'') c
                else respond (HttpErrorOf 404 e) c)
         (\<lambda>msg c. case rq_json rq of
            None \<Rightarrow> respond (HttpError 400 ''invalid body'') c
          | Some content \<Rightarrow>
              if content = [] then respond (HttpError 400 ''content required'') c
              else
               (let (name, c) = getName x c
                in catchS (message_Update x (secret_of c) i name (msg\<lparr>msg_Content := content\<rparr>) c)
                     (\<lambda>e c. respond (HttpErrorOf 500 e) c)
                     (\<lambda>_ c. bindS (broadcastUpdate x i content c) (\<lambda>_ c. respond (JsonStatus ''updated'') c))))) c"

definition apiDeleteMessage :: handler where
  "apiDeleteMessage x rq c =
     with_id x rq (\<lambda>i c.
       catchS (getOwnedMessage x i c)
         (\<lambda>e c. if errors_Is e ErrNotOwner then respond (HttpError 403 ''cannot delete another user's message'') c
                else respond (HttpErrorOf 404 e) c)
         (\<lambda>_ c. catchS (message_Delete x (secret_of c) i c)
            (\<lambda>e c. respond (HttpErrorOf 500 e) c)
            (\<lambda>_ c. bindS (broadcastDelete x i c) (\<lambda>_ c. respond (JsonStatus ''deleted'') c)))) c"

definition apiGetFile :: handler where
  "apiGetFile x rq c =
     with_id x rq (\<lambda>i c.
       catchS (files_Get x (secret_of c) i c) (\<lambda>e c. respond (HttpErrorOf 404 e) c)
         (\<lambda>raw c. respond (OctetStream raw) c)) c"

subsection \<open>Outbox and profile\<close>

definition adminListOutbox :: handler where
  "adminListOutbox x rq c =
     catchS (outbox_List x c) (\<lambda>e c. respond (HttpErrorOf 500 e) c) (\<lambda>entries c. respond (JsonOutbox entries) c)"

definition adminDeleteOutboxEntry :: handler where
  "adminDeleteOutboxEntry x rq c =
     with_id x rq (\<lambda>i c.
       catchS (outbox_Delete x i c) (\<lambda>e c. respond (HttpErrorOf 500 e) c)
         (\<lambda>_ c. respond (JsonStatus ''deleted'') c)) c"

definition adminFlushOutbox :: handler where
  "adminFlushOutbox x rq c =
     with_pubKey rq (\<lambda>pubKey c. bindS (flushOutbox x pubKey c) (\<lambda>_ c. respond (JsonStatus ''flushed'') c)) c"

text \<open>
  The picture of a profile update: a failing read or write ends the request with a response; the old
  picture is deleted before the profile is updated.
\<close>

definition store_picture :: "ext \<Rightarrow> bytes option \<Rightarrow> client \<Rightarrow> (reply + unit) result \<times> client" where
  "store_picture x content c =
     (case content of
        None \<Rightarrow> (Inr (Inl (HttpError 500 ''read file failed'')), c)
      | Some bytes \<Rightarrow>
          (let data = take MaxProfilePicSize bytes;
               (info, c) = client_Info x c;
               (fileID, c) = uuid_New x c
           in catchS (files_PutWithID x (secret_of c) fileID [] data c)
                (\<lambda>_ c. (Inr (Inl (HttpError 500 ''store file failed'')), c))
                (\<lambda>_ c.
                  bindS (if inf_ProfilePic info \<noteq> uuid_Nil then ignoreS (files_Delete x (inf_ProfilePic info) c)
                         else (Inr (), c)) (\<lambda>_ c.
                  let (name, c) = getName x c
                  in bindS (ignoreS (profile_Update x name fileID c)) (\<lambda>_ c. (Inr (Inr ()), c))))))"

definition adminUpdateProfile :: handler where
  "adminUpdateProfile x rq c =
     (case rq_form rq of
        None \<Rightarrow> respond (HttpError 400 ''invalid form'') c
      | Some fo \<Rightarrow>
          (let named = fo_name fo \<noteq> []; c = (if named then setName x (fo_name fo) c else c)
           in bindS (case fo_file fo of
                 None \<Rightarrow> (Inr (Inr ()), c)
               | Some content \<Rightarrow> store_picture x content c) (\<lambda>stored c.
               case stored of
                 Inl rep \<Rightarrow> respond rep c
               | Inr _ \<Rightarrow>
                   bindS (if named \<or> fo_file fo \<noteq> None then broadcastInfoChanged x c else (Inr (), c))
                     (\<lambda>_ c. respond (JsonStatus ''info_changed'') c))))"

definition adminDeleteProfilePic :: handler where
  "adminDeleteProfilePic x rq c =
     (let (info, c) = client_Info x c in
      bindS (if inf_ProfilePic info \<noteq> uuid_Nil then ignoreS (files_Delete x (inf_ProfilePic info) c) else (Inr (), c))
       (\<lambda>_ c. let (name, c) = getName x c in
         bindS (ignoreS (profile_Update x name uuid_Nil c)) (\<lambda>_ c.
         bindS (broadcastInfoChanged x c) (\<lambda>_ c. respond (JsonStatus ''info_deleted'') c))))"

definition adminGetMe :: handler where
  "adminGetMe x rq c =
     (let (info, c) = client_Info x c in
      if inf_ProfilePic info \<noteq> uuid_Nil
      then catchS (files_Get x (secret_of c) (inf_ProfilePic info) c)
             (\<lambda>_ c. respond (Multipart (inf_Name info) None) c)
             (\<lambda>data c. respond (Multipart (inf_Name info) (Some data)) c)
      else respond (Multipart (inf_Name info) None) c)"

subsection \<open>Routes\<close>

definition localhostOnly :: "handler \<Rightarrow> handler" where
  "localhostOnly next x rq c =
     (case SplitHostPort (rq_RemoteAddr rq) of
        None \<Rightarrow> respond (HttpError 400 ''invalid remote address'') c
      | Some (host, _) \<Rightarrow>
          (let ip = x_ParseIP x host
           in if ip = NilIP \<or> \<not> IsLoopback ip then respond (HttpError 403 ''forbidden'') c else next x rq c))"

definition registerRoutes :: "(string \<times> handler) list" where
  "registerRoutes =
     [(''GET /admin/peers'', localhostOnly adminListPeers),
      (''PUT /admin/peers/{pubKey}/accept'', localhostOnly adminAcceptPeer),
      (''PUT /admin/peers/{pubKey}/reject'', localhostOnly adminRejectPeer),
      (''GET /admin/sessions'', localhostOnly adminListSessions),
      (''DELETE /admin/sessions/{pubKey}'', localhostOnly adminDeleteSession),
      (''POST /api/peers/connect'', localhostOnly apiConnectPeer),
      (''POST /api/messages/{pubKey}'', localhostOnly apiSendMessage),
      (''GET /api/messages'', localhostOnly apiListMessages),
      (''GET /api/messages/{id}'', localhostOnly apiGetMessage),
      (''GET /api/messages/search'', localhostOnly apiSearchMessages),
      (''PUT /api/messages/{id}'', localhostOnly apiUpdateMessage),
      (''DELETE /api/messages/{id}'', localhostOnly apiDeleteMessage),
      (''GET /api/files/{id}'', localhostOnly apiGetFile),
      (''PUT /admin/peers/{pubKey}/nickname'', localhostOnly adminSetNickname),
      (''GET /admin/outbox'', localhostOnly adminListOutbox),
      (''DELETE /admin/outbox/{id}'', localhostOnly adminDeleteOutboxEntry),
      (''POST /admin/outbox/flush/{pubKey}'', localhostOnly adminFlushOutbox),
      (''PUT /admin/profile'', localhostOnly adminUpdateProfile),
      (''DELETE /admin/profile/picture'', localhostOnly adminDeleteProfilePic),
      (''GET /admin/me'', localhostOnly adminGetMe)]"

end
