(* ===== verification/Authority.thy ===== *)
theory Authority
  imports Api
begin

text \<open>
  Who may do what through the local interface: only the local machine is served, only our own
  messages are edited, and what rejecting and accepting a peer does.
\<close>

subsection \<open>Only the local machine\<close>

text \<open>A remote address that names a loopback address.\<close>

definition local_addr :: "ext \<Rightarrow> gostring \<Rightarrow> bool" where
  "local_addr x remote \<longleftrightarrow> (\<exists>host port. SplitHostPort remote = Some (host, port) \<and> IsLoopback (x_ParseIP x host))"

lemma localhostOnly_local: "local_addr x (rq_RemoteAddr rq) \<Longrightarrow> localhostOnly g x rq c = g x rq c"
  by (auto simp: localhostOnly_def local_addr_def IsLoopback_def Let_def split: option.split)

lemma refused_elsewhere:
  "\<not> local_addr x (rq_RemoteAddr rq) \<Longrightarrow>
    \<exists>code msg. code \<in> {400, 403} \<and> localhostOnly g x rq c = (Inr [HttpError code msg], c)"
  by (auto simp: localhostOnly_def local_addr_def Let_def split: option.split)

text \<open>
  Every route serves the local machine only: whatever the handler behind it, a request from any
  other address is answered with an error and changes nothing, and a request from a loopback address
  goes to the handler.
\<close>

theorem only_localhost_served:
  assumes "(pat, h) \<in> set registerRoutes"
  shows "\<exists>g. h = localhostOnly g \<and>
    (if local_addr x (rq_RemoteAddr rq) then h x rq c = g x rq c
     else (\<exists>code msg. code \<in> {400, 403} \<and> h x rq c = (Inr [HttpError code msg], c)))"
proof -
  obtain g where g: "h = localhostOnly g" using assms by (auto simp: registerRoutes_def)
  then show ?thesis using refused_elsewhere [of x rq g c] by (intro exI [of _ g]) (simp add: localhostOnly_local)
qed

text \<open>A request of the local machine, and one from elsewhere.\<close>

definition local_request :: "gostring \<Rightarrow> gostring \<Rightarrow> gostring option \<Rightarrow> request" where
  "local_request pk i json = \<lparr>rq_RemoteAddr = str ''127.0.0.1:50'', rq_pubKey = pk, rq_id = i, rq_q = [],
     rq_json = json, rq_form = None, rq_dial = Unreachable\<rparr>"

lemma demo_addresses:
  "local_addr demo_ext (str ''127.0.0.1:50'')" "\<not> local_addr demo_ext (str ''10.0.0.1:50'')"
proof -
  have "SplitHostPort (str ''127.0.0.1:50'') = Some (str ''127.0.0.1'', str ''50'')"
    "SplitHostPort (str ''10.0.0.1:50'') = Some (str ''10.0.0.1'', str ''50'')"
    by (simp_all add: SplitHostPort_def LastIndexByte_def str_def)
  then show "local_addr demo_ext (str ''127.0.0.1:50'')" "\<not> local_addr demo_ext (str ''10.0.0.1:50'')"
    by (simp_all add: local_addr_def) (simp_all add: demo_ext_def IsLoopback_def str_def)
qed

theorem only_localhost_served_witness:
  "\<exists>code msg. localhostOnly adminListPeers demo_ext
     ((local_request [] [] None)\<lparr>rq_RemoteAddr := str ''10.0.0.1:50''\<rparr>) demo_client =
     (Inr [HttpError code msg], demo_client)"
proof -
  let ?rq = "(local_request [] [] None)\<lparr>rq_RemoteAddr := str ''10.0.0.1:50''\<rparr>"
  have r: "(''GET /admin/peers'', localhostOnly adminListPeers) \<in> set registerRoutes"
    by (simp add: registerRoutes_def)
  have "\<not> local_addr demo_ext (rq_RemoteAddr ?rq)" using demo_addresses(2) by simp
  with only_localhost_served [OF r, of demo_ext ?rq demo_client] show ?thesis by auto
qed

subsection \<open>Only our own messages\<close>

lemma getOwnedMessage_spec:
  assumes "cache_coherent x (secret_of c) c" "getOwnedMessage x i c = (q, c')"
  shows "only_cache c c' \<and> cache_coherent x (secret_of c) c' \<and>
    (\<forall>m. q = Inr m \<longrightarrow> msg_FromPubKey m = own_key c \<and> (\<exists>plain m0.
       stored x (secret_of c) c (x_uuid_String x i) = Some plain \<and> ToMessage plain = Inr m0 \<and>
       m = m0\<lparr>msg_ID := i\<rparr>))"
proof (cases "message_Get x (secret_of c) i c")
  case (Pair g c1)
  note mg = message_Get_spec [OF assms(1) Pair]
  have k: "cl_Keys c1 = cl_Keys c" using mg by (auto intro: only_cache_Keys)
  show ?thesis
  proof (cases g)
    case (Inl e)
    then show ?thesis using assms(2) Pair mg by (auto simp: getOwnedMessage_def)
  next
    case (Inr m)
    then have "c' = c1" "q = (if msg_FromPubKey m \<noteq> own_key c then Inl (Err ErrNotOwner) else Inr m)"
      using assms(2) Pair k by (auto simp: getOwnedMessage_def)
    then show ?thesis using mg Inr by auto
  qed
qed

lemma kept_broadcast:
  "kept c (snd (broadcastUpdate x i content c))" "kept c (snd (broadcastDelete x i c))"
proof -
  have "kept c (snd (broadcast x sig (\<lambda>_ _ c. (Inr (), c)) c))" for sig
    unfolding broadcast_def
    by (rule kept.catch [OF kept.lift kept.ret], rule kept.loop)
      (auto split: prod.split intro!: kept.catch [OF kept_sess_send kept.ret kept.ret])
  then show "kept c (snd (broadcastUpdate x i content c))" "kept c (snd (broadcastDelete x i c))"
    by (simp_all add: broadcastUpdate_def broadcastDelete_def)
qed

lemma stored_kept: "kept c c' \<Longrightarrow> stored x sec c' = stored x sec c"
  by (rule stored_cong) (simp add: kept_def)

lemma stored_answer:
  assumes "kept c (snd m)"
  shows "stored x sec (snd (bindS m (\<lambda>_ c. respond rep c))) = stored x sec c"
  using stored_kept [OF assms, of x sec] by (cases m; cases "fst m") auto

text \<open>The handlers behind the ownership check.\<close>

lemma edit_refused:
  assumes "x_uuid_Parse x (rq_id rq) = Some i" "getOwnedMessage x i c = (Inl (Err e), c')"
  shows "apiUpdateMessage x rq c = (Inr [if errors_Is e ErrNotOwner
      then HttpError 403 ''cannot edit another user's message'' else HttpErrorOf 404 e], c')"
    "apiDeleteMessage x rq c = (Inr [if errors_Is e ErrNotOwner
      then HttpError 403 ''cannot delete another user's message'' else HttpErrorOf 404 e], c')"
  using assms by (simp_all add: apiUpdateMessage_def apiDeleteMessage_def with_id_def)

lemma edit_no_id:
  "x_uuid_Parse x (rq_id rq) = None \<Longrightarrow> h \<in> {apiUpdateMessage, apiDeleteMessage} \<Longrightarrow>
    h x rq c = (Inr [HttpError 400 ''invalid id''], c)"
  by (auto simp: apiUpdateMessage_def apiDeleteMessage_def with_id_def)

lemma owned_panic:
  assumes "x_uuid_Parse x (rq_id rq) = Some i" "getOwnedMessage x i c = (Inl (Panic p), c')"
    and "h \<in> {apiUpdateMessage, apiDeleteMessage}"
  shows "h x rq c = (Inl (Panic p), c')"
  using assms by (auto simp: apiUpdateMessage_def apiDeleteMessage_def with_id_def)

lemma apiUpdateMessage_stored:
  assumes "aead_laws x" "x_uuid_Parse x (rq_id rq) = Some i" "getOwnedMessage x i c = (Inr m, c1)"
    and "cache_coherent x (secret_of c) c1" "cl_Keys c1 = cl_Keys c" "x_uuid_String x i \<noteq> j"
    and "stored x (secret_of c) c1 j = Some v"
  shows "stored x (secret_of c) (snd (apiUpdateMessage x rq c)) j = Some v"
proof -
  obtain n c2 where gn: "getName x c1 = (n, c2)" by fastforce
  then have c2: "c2 = c1\<lparr>tick := Suc (tick c1)\<rparr>" using getName_frame [of x c1] by simp
  show ?thesis
  proof (cases "rq_json rq")
    case (Some content)
    obtain u c3 where up: "message_Update x (secret_of c) i n (m\<lparr>msg_Content := content\<rparr>) c2 = (u, c3)" by fastforce
    obtain g c4 where "message_Get x (secret_of c) i c2 = (g, c4)" by fastforce
    from message_Update_spec [OF assms(1) _ up this] assms(4,6,7)
    have st: "stored x (secret_of c) c3 j = Some v"
      using stored_cong [of c3 c2 x "secret_of c"] by (cases u) (auto simp: c2)
    have "stored x (secret_of c) (snd (bindS (broadcastUpdate x i content c3) (\<lambda>_ c. respond rep c))) j = Some v" for rep
      using st by (simp add: stored_answer [OF kept_broadcast(1)])
    then show ?thesis
      using assms(2,3,5,7) Some gn up st
      by (auto simp: apiUpdateMessage_def with_id_def c2 catchS_def split: sum.split fault.split)
  qed (use assms in \<open>simp add: apiUpdateMessage_def with_id_def\<close>)
qed

lemma apiDeleteMessage_stored:
  assumes "x_uuid_Parse x (rq_id rq) = Some i" "getOwnedMessage x i c = (Inr m, c1)"
    and "cache_coherent x (secret_of c) c1" "cl_Keys c1 = cl_Keys c" "x_uuid_String x i \<noteq> j"
    and "stored x (secret_of c) c1 j = Some v"
  shows "stored x (secret_of c) (snd (apiDeleteMessage x rq c)) j = Some v"
proof -
  obtain d c2 where del: "message_Delete x (secret_of c) i c1 = (d, c2)" by fastforce
  from message_Delete_spec [OF assms(3) del] assms(5,6)
  have st: "stored x (secret_of c) c2 j = Some v"
    using stored_cong [of c2 c1 x "secret_of c"] by (cases d) auto
  have "stored x (secret_of c) (snd (bindS (broadcastDelete x i c2) (\<lambda>_ c. respond rep c))) j = Some v" for rep
    using st by (simp add: stored_answer [OF kept_broadcast(2)])
  then show ?thesis
    using assms(1,2,4) del st
    by (auto simp: apiDeleteMessage_def with_id_def catchS_def split: sum.split fault.split)
qed

text \<open>
  C15: The local interface edits and deletes our own messages only: whatever the request, every stored
  message somebody else wrote is still stored, byte for byte, and a request that names one is
  answered with 403.
\<close>

theorem only_own_messages_edited:
  assumes "aead_laws x" "cache_coherent x (secret_of c) c" "h \<in> {apiUpdateMessage, apiDeleteMessage}"
    and "stored x (secret_of c) c j = Some v" "ToMessage v = Inr m" "msg_FromPubKey m \<noteq> own_key c"
  shows "stored x (secret_of c) (snd (h x rq c)) j = Some v \<and>
    (\<forall>i. x_uuid_Parse x (rq_id rq) = Some i \<longrightarrow> x_uuid_String x i = j \<longrightarrow> x_db x (Suc (tick c)) \<longrightarrow>
       (\<exists>msg. fst (h x rq c) = Inr [HttpError 403 msg]))"
proof (cases "x_uuid_Parse x (rq_id rq)")
  case None
  then show ?thesis using edit_no_id [OF None assms(3)] assms(4) by simp
next
  case (Some i)
  obtain q c1 where gom: "getOwnedMessage x i c = (q, c1)" by fastforce
  note sp = getOwnedMessage_spec [OF assms(2) gom]
  have st: "stored x (secret_of c) c1 j = Some v" "cl_Keys c1 = cl_Keys c"
    using sp assms(4) stored_cong [of c1 c x "secret_of c"] by (auto simp: only_cache_simps(1) only_cache_Keys)
  have own: "q = Inl (Err ErrNotOwner)" if "x_uuid_String x i = j" "x_db x (Suc (tick c))"
  proof -
    have "fst (message_Get x (secret_of c) i c) = Inr (m\<lparr>msg_ID := i\<rparr>)"
      using message_Get_stored [OF assms(2) _ that(2), of i v] that(1) assms(4,5) by simp
    moreover have "cl_Keys (snd (message_Get x (secret_of c) i c)) = cl_Keys c"
      using message_Get_spec [OF assms(2), of i] by (metis only_cache_Keys prod.collapse)
    ultimately show ?thesis
      using gom assms(6) by (cases "message_Get x (secret_of c) i c") (auto simp: getOwnedMessage_def)
  qed
  show ?thesis
  proof (cases q)
    case (Inl f)
    then show ?thesis
      using Some gom st own assms(3) edit_refused [OF Some, of c] owned_panic [OF Some _ assms(3), of c]
      by (cases f) auto
  next
    case (Inr n)
    have ne: "x_uuid_String x i \<noteq> j" using sp Inr assms(4-6) by auto
    note ok = gom [unfolded Inr] conjunct1 [OF conjunct2 [OF sp]] st(2) ne st(1)
    show ?thesis
      using assms(3) ne apiUpdateMessage_stored [OF assms(1) Some ok] apiDeleteMessage_stored [OF Some ok]
      Some by auto
  qed
qed

theorem only_own_messages_edited_witness:
  "(\<exists>msg. fst (apiDeleteMessage demo_ext (local_request [] (uuid_bytes 9) None) demo_with_message) =
     Inr [HttpError 403 msg]) \<and>
   stored demo_ext 5 (snd (apiDeleteMessage demo_ext (local_request [] (uuid_bytes 9) None) demo_with_message))
     (uuid_bytes 9) = Some (message_wire sample_message)"
proof -
  let ?rq = "local_request [] (uuid_bytes 9) None"
  have u: "x_uuid_Parse demo_ext (rq_id ?rq) = Some 9"
    using demo_ext_laws(4) by (simp add: uuid_laws_def local_request_def)
  have own: "msg_FromPubKey sample_message \<noteq> own_key demo_with_message"
    using demo_with_message_ok(6) by (simp add: sample_message_def)
  from only_own_messages_edited [of demo_ext demo_with_message apiDeleteMessage, unfolded demo_with_message_ok(1),
      OF demo_ext_laws(1) demo_with_message_ok(2) _ demo_with_message_ok(3) msg.roundtrip_exact [OF sample_message_ok] own, of ?rq]
  show ?thesis using u by auto
qed

lemma message_Update_succeeds:
  assumes "\<And>t. x_db x t" "message_Get x sec i s = (Inr old, s1)" "stored x sec s (x_uuid_String x i) \<noteq> None"
    and "cache_coherent x sec s" "message_ok (updated x (Inr old) msg (tick s1))"
  shows "\<exists>s'. message_Update x sec i n msg s = (Inr (), s')"
proof -
  have "chats s1 = chats s" using message_Get_spec [OF assms(4,2)] by (auto intro: only_cache_simps)
  then have "lookup_row ch_id (chats s1) (x_uuid_String x i) \<noteq> None"
    using assms(3) by (auto simp: stored_def split: option.splits)
  then show ?thesis
    using assms(1) Encode_ok [OF assms(5)] message_Update_eq [OF assms(2), of n msg]
    by (auto simp: chats_Update_def db_query_eq chats_PutWithID_eq Let_def)
qed

lemma broadcast_ok: "\<exists>c'. broadcastUpdate x i content c = (Inr (), c')" "\<exists>c'. broadcastDelete x i c = (Inr (), c')"
proof -
  have loop: "\<exists>c'. forS (\<lambda>(_, r) c. catchS (sess_send x r p c) (\<lambda>_ c. (Inr (), c)) (\<lambda>_ c. (Inr (), c))) es c = (Inr (), c')"
    for p and es :: "(key \<times> nat) list" and c
  proof (induction es arbitrary: c)
    case (Cons e es)
    obtain q d where q: "sess_send x (snd e) p c = (q, d)" by fastforce
    then have "catchS (sess_send x (snd e) p c) (\<lambda>_ c. (Inr (), c)) (\<lambda>_ c. (Inr (), c)) = (Inr (), d)"
      using send_no_panic [of x "snd e" p c] by (cases q; cases "projl q") auto
    with Cons [of d] show ?case by (simp add: case_prod_beta)
  qed simp
  have np: "signal_New t k j b \<noteq> Inl (Panic p)" for t k j b p
    by (auto simp: signal_New_eq)
  have "\<exists>c'. broadcast x (signal_New t k j b) (\<lambda>_ _ c. (Inr (), c)) c = (Inr (), c')" for t k j b
    using loop np [of t k j b] unfolding broadcast_def liftR_def
    by (cases "signal_New t k j b"; cases "projl (signal_New t k j b)") auto
  then show "\<exists>c'. broadcastUpdate x i content c = (Inr (), c')" "\<exists>c'. broadcastDelete x i c = (Inr (), c')"
    by (simp_all add: broadcastUpdate_def broadcastDelete_def)
qed

text \<open>
  Editing our own message works: the request is answered with success, reading the message gives the
  new content under the same id, author, addressee and creation time with a new update time, and
  every other message is as it was.
\<close>

theorem own_message_edited:
  assumes "aead_laws x" "uuid_laws x" "cache_coherent x (secret_of c) c" "\<And>t. x_db x t"
    and "x_uuid_Parse x (rq_id rq) = Some i" "rq_json rq = Some content" "content \<noteq> []"
    and "stored x (secret_of c) c (x_uuid_String x i) = Some v" "ToMessage v = Inr m" "msg_FromPubKey m = own_key c"
    and "\<And>t. message_ok (m\<lparr>msg_Content := content, msg_UpdatedAt := x_now x t\<rparr>)"
  shows "\<exists>c' t. apiUpdateMessage x rq c = (Inr [JsonStatus ''updated''], c') \<and>
    fst (message_Get x (secret_of c) i c') =
      Inr (m\<lparr>msg_ID := i, msg_Content := content, msg_UpdatedAt := x_now x t\<rparr>) \<and>
    (\<forall>j. j \<noteq> i \<longrightarrow> stored x (secret_of c) c' (x_uuid_String x j) = stored x (secret_of c) c (x_uuid_String x j))"
proof -
  let ?m = "m\<lparr>msg_ID := i\<rparr>" and ?n = "m\<lparr>msg_ID := i, msg_Content := content\<rparr>"
  obtain c1 where mg: "message_Get x (secret_of c) i c = (Inr ?m, c1)"
    using message_Get_stored [OF assms(3,8,4)] assms(9) by (cases "message_Get x (secret_of c) i c") simp
  note g1 = message_Get_spec [OF assms(3) mg]
  have k1: "cl_Keys c1 = cl_Keys c" using g1 by (auto intro: only_cache_Keys)
  have gom: "getOwnedMessage x i c = (Inr ?m, c1)" using mg k1 assms(10) by (simp add: getOwnedMessage_def)
  define c2 where "c2 = c1\<lparr>tick := Suc (tick c1)\<rparr>"
  obtain name where gn: "getName x c1 = (name, c2)" using getName_frame [of x c1] by (metis c2_def prod.collapse)
  have c2: "cache_coherent x (secret_of c) c2" "stored x (secret_of c) c2 = stored x (secret_of c) c"
    using g1 stored_cong [of c1 c x "secret_of c"] by (auto simp: c2_def only_cache_simps(1))
  obtain c3 where mg2: "message_Get x (secret_of c) i c2 = (Inr ?m, c3)"
    using message_Get_stored [OF c2(1) _ assms(4), of i v] assms(8,9) c2(2)
    by (cases "message_Get x (secret_of c) i c2") simp
  let ?u = "updated x (Inr ?m) ?n (tick c3)"
  have u: "?u = ?n\<lparr>msg_UpdatedAt := x_now x (tick c3)\<rparr>" by (simp add: updated_def)
  have ok: "message_ok ?u" using assms(11) [of "tick c3"] by (simp add: u message_ok_def)
  obtain c4 where up: "message_Update x (secret_of c) i name ?n c2 = (Inr (), c4)"
    using message_Update_succeeds [OF assms(4) mg2 _ c2(1) ok] assms(8) c2(2) by auto
  obtain plain where us: "Encode ?u = Inr plain" "cache_coherent x (secret_of c) c4"
    "stored x (secret_of c) c4 = (stored x (secret_of c) c)(x_uuid_String x i := Some plain)"
    using message_Update_spec [OF assms(1) c2(1) up mg2] c2(2) by auto
  obtain c5 where bc: "broadcastUpdate x i content c4 = (Inr (), c5)" using broadcast_ok by blast
  have k5: "kept c4 c5" using kept_broadcast(1) [of c4 x i content] bc by simp
  have c5: "cache_coherent x (secret_of c) c5" "stored x (secret_of c) c5 = stored x (secret_of c) c4"
    using k5 us(2) coherent_cong [of c5 c4 x "secret_of c"] stored_kept [OF k5] by (auto simp: kept_def)
  have "ToMessage plain = Inr ?u"
    using msg.roundtrip_exact [OF ok] us(1) Encode_ok [OF ok] by simp
  then have "fst (message_Get x (secret_of c) i c5) = Inr ?u"
    using message_Get_stored [OF c5(1) _ assms(4), of i plain] us(3) c5(2) by (simp add: u)
  moreover have "apiUpdateMessage x rq c = (Inr [JsonStatus ''updated''], c5)"
    using assms(5-7) gom gn up bc k1 by (simp add: apiUpdateMessage_def with_id_def c2_def)
  moreover have "\<forall>j. j \<noteq> i \<longrightarrow> stored x (secret_of c) c5 (x_uuid_String x j) = stored x (secret_of c) c (x_uuid_String x j)"
    using us(3) c5(2) assms(2) by auto
  ultimately show ?thesis using u by (intro exI [of _ c5] exI [of _ "tick c3"]) simp
qed

text \<open>A world whose clock stands still, with a message of our own in the store.\<close>

definition demo_frozen :: ext where
  "demo_frozen = demo_ext\<lparr>x_now := (\<lambda>_. 5)\<rparr>"

lemma demo_frozen_laws: "aead_laws demo_frozen" "uuid_laws demo_frozen" "x_db demo_frozen t" "x_now demo_frozen t = 5"
  using demo_ext_laws by (simp_all add: demo_frozen_def aead_laws_def uuid_laws_def)

definition own_sample :: message where
  "own_sample = sample_message\<lparr>msg_FromPubKey := 6\<rparr>"

lemma own_sample_ok: "message_ok own_sample" "msg_ID own_sample = 9"
  using sample_message_ok by (simp_all add: own_sample_def message_ok_def) (simp add: sample_message_def)

definition own_store :: client where
  "own_store = snd (snd (message_Put demo_frozen 5 [] own_sample demo_client))"

lemma own_store_ok:
  "secret_of own_store = 5" "own_key own_store = 6" "cache_coherent demo_frozen 5 own_store"
  "stored demo_frozen 5 own_store (x_uuid_String demo_frozen 9) = Some (message_wire own_sample)"
proof -
  have pid: "put_id demo_frozen own_sample demo_client = 9" by (simp add: put_id_def own_sample_ok)
  obtain m where put: "message_Put demo_frozen 5 [] own_sample demo_client = (Inr 9, m, own_store)"
    using message_Put_succeeds [OF own_sample_ok(1) demo_frozen_laws(3), of 5 "[]" demo_client] pid
    by (auto simp: own_store_def)
  have "cache_coherent demo_frozen 5 demo_client" by (simp add: demo_client_def cache_coherent_def)
  note sp = message_Put_spec [OF demo_frozen_laws(1) this put]
  show "cache_coherent demo_frozen 5 own_store"
    "stored demo_frozen 5 own_store (x_uuid_String demo_frozen 9) = Some (message_wire own_sample)"
    using sp Encode_ok [OF own_sample_ok(1)] by auto
  obtain t cc cs se where eq: "own_store = demo_client\<lparr>tick := t, cache := cc, chats := cs, chat_search := se\<rparr>"
    using sp by (auto simp: only_chats_def)
  show "secret_of own_store = 5" "own_key own_store = 6"
    unfolding eq by (simp_all add: demo_client_def keys_of_seed_def) (simp add: demo_ext_def)
qed

theorem own_message_edited_witness:
  "\<exists>c'. apiUpdateMessage demo_frozen (local_request [] (uuid_bytes 9) (Some (str ''new''))) own_store =
      (Inr [JsonStatus ''updated''], c') \<and>
    fst (message_Get demo_frozen 5 9 c') = Inr (own_sample\<lparr>msg_Content := str ''new'', msg_UpdatedAt := 5\<rparr>)"
proof -
  let ?rq = "local_request [] (uuid_bytes 9) (Some (str ''new''))"
  have rq: "x_uuid_Parse demo_frozen (rq_id ?rq) = Some 9" "rq_json ?rq = Some (str ''new'')" "str ''new'' \<noteq> []"
    using demo_frozen_laws(2) by (simp_all add: uuid_laws_def local_request_def str_def) (simp add: demo_frozen_def demo_ext_def)
  have ok: "message_ok (own_sample\<lparr>msg_Content := str ''new'', msg_UpdatedAt := x_now demo_frozen t\<rparr>)" for t
    using own_sample_ok by (simp add: demo_frozen_laws message_ok_def time_ok_def str_def)
  have "msg_FromPubKey own_sample = 6" "own_sample\<lparr>msg_ID := 9\<rparr> = own_sample"
    by (simp_all add: own_sample_def sample_message_def)
  with own_message_edited [of demo_frozen own_store ?rq, unfolded own_store_ok(1,2), OF demo_frozen_laws(1,2)
      own_store_ok(3) demo_frozen_laws(3) rq own_store_ok(4) msg.roundtrip_exact [OF own_sample_ok(1)] _ ok]
  show ?thesis by (auto simp: demo_frozen_laws own_sample_def sample_message_def)
qed

subsection \<open>Rejecting and accepting\<close>

lemma with_pubKey_Key: "rq_pubKey rq = Key_String k \<Longrightarrow> with_pubKey rq f c = f k c"
  by (simp add: with_pubKey_def liftR_def)

lemma updatePeerStatus_known:
  assumes "rq_pubKey rq = Key_String k" "\<And>t. x_db x t"
    and "lookup_row pr_pub_key (known_peers c) (Key_String k) = Some row" "scan_peer x row = Inr p"
  shows "updatePeerStatus st x rq c = (Inr [JsonPeer (p\<lparr>kp_Status := st\<rparr>)],
    c\<lparr>tick := Suc (Suc (tick c)),
      known_peers := replace_row pr_pub_key (peer_row x (p\<lparr>kp_Status := st\<rparr>)) (known_peers c)\<rparr>)"
  using assms by (simp add: updatePeerStatus_def with_pubKey_Key peers_Get_eq peers_Add_def db_exec_eq Let_def)

lemma scan_peer_key:
  assumes "lookup_row pr_pub_key rows (Key_String k) = Some row" "scan_peer x row = Inr p"
  shows "kp_PubKey p = k"
  using assms(2) lookup_key [OF assms(1)] by (auto simp: scan_peer_def bindR_Inr_iff)

lemma admit_rejected:
  assumes "lookup_row pr_pub_key (known_peers c) (Key_String k) = Some row" "scan_peer x row = Inr p"
    and "kp_Status p = Rejected" "\<And>t. x_db x t" "SplitHostPort remote \<noteq> None"
  shows "\<exists>msg c'. admit x (transport @ Key_String k) remote c = (Inr (Inl (HttpError 403 msg)), c')"
proof (cases "k = own_key c")
  case True
  then show ?thesis by (simp add: admit_def liftR_def Let_def)
next
  case False
  obtain host port where "SplitHostPort remote = Some (host, port)" using assms(5) by auto
  from admit_found [OF _ _ False this, of "transport @ Key_String k" x] assms(1-4) show ?thesis
    by (simp add: peers_Get_eq)
qed

lemma parseMessageForm_no_panic: "parseMessageForm rq n \<noteq> Inl (Panic p)"
proof -
  have "form_files n t fhs \<noteq> Inl (Panic p)" for t fhs
    by (induction n t fhs rule: form_files.induct) (auto simp: bindR_Panic_iff Let_def split: option.split)
  then show ?thesis by (auto simp: parseMessageForm_def bindR_Panic_iff split: option.split)
qed

lemma apiSendMessage_rejected:
  assumes "rq_pubKey rq = Key_String k"
    and "lookup_row pr_pub_key (known_peers c) (Key_String k) = Some row" "scan_peer x row = Inr p"
    and "kp_Status p = Rejected" "\<And>t. x_db x t"
  shows "\<exists>rep. fst (apiSendMessage x rq c) = Inr [rep] \<and> (\<forall>s. rep \<noteq> JsonStatus s)"
proof (cases "parseMessageForm rq (cl_MaxMessageSize c)")
  case (Inl f)
  with parseMessageForm_no_panic [of rq "cl_MaxMessageSize c"] obtain e where "f = Err e" by (cases f) auto
  then show ?thesis using Inl by (simp add: apiSendMessage_def with_pubKey_Key [OF assms(1)] liftR_def)
next
  case (Inr a)
  then show ?thesis using assms(2-5)
    by (cases a) (simp add: apiSendMessage_def with_pubKey_Key [OF assms(1)] liftR_def peers_Get_eq)
qed

lemma updateSessionStatus_rejected:
  assumes "\<And>r. sessions_Load k c = Some r \<Longrightarrow> ss_conn (cl_heap c r) \<noteq> None"
  shows "\<exists>c'. updateSessionStatus k Rejected c = (Inr (), c') \<and> sessions_Load k c' = None \<and>
    (\<forall>r. sessions_Load k c = Some r \<longrightarrow> dead (cl_heap c' r)) \<and> known_peers c' = known_peers c"
proof (cases "sessions_Load k c")
  case None
  then show ?thesis by (simp add: updateSessionStatus_def)
next
  case (Some r)
  have "ss_conn (cl_heap (sessions_Delete k c) r) \<noteq> None"
    using assms [OF Some] by (simp add: sessions_Delete_def)
  then obtain s where "close_session r (sessions_Delete k c) = (Inr (), set_session r s (sessions_Delete k c))" "dead s"
    using close_session_ok by blast
  moreover have "sessions_Load k (set_session r s (sessions_Delete k c)) = None"
    using sessions_Load_Delete [of k k c] by (simp add: sessions_Load_def set_session_def)
  ultimately show ?thesis using Some
    by (simp add: updateSessionStatus_def set_session_def sessions_Delete_def)
qed

text \<open>
  C16: A rejected peer is out: rejecting a known peer records it, removes its session from the map and
  closes it with its keys erased; in the state this leaves, a connection that names the peer is refused
  with 403 before any handshake, and nothing can be sent to it.
\<close>

theorem rejected_peer_shut_out:
  assumes "uuid_laws x" "\<And>t. x_db x t" "rq_pubKey rq = Key_String k"
    and "lookup_row pr_pub_key (known_peers c) (Key_String k) = Some row" "scan_peer x row = Inr p"
    and "\<And>r. sessions_Load k c = Some r \<Longrightarrow> ss_conn (cl_heap c r) \<noteq> None"
  shows "\<exists>c'. adminRejectPeer x rq c = (Inr [JsonPeer (p\<lparr>kp_Status := Rejected\<rparr>)], c') \<and>
    sessions_Load k c' = None \<and> (\<forall>r. sessions_Load k c = Some r \<longrightarrow> dead (cl_heap c' r)) \<and>
    (\<forall>remote up fs. SplitHostPort remote \<noteq> None \<longrightarrow>
       (\<exists>msg. fst (handleWS x (transport @ Key_String k) remote up fs c') = Inr [HttpError 403 msg])) \<and>
    (\<forall>rq'. rq_pubKey rq' = Key_String k \<longrightarrow> (\<exists>rep. fst (apiSendMessage x rq' c') = Inr [rep] \<and>
       (\<forall>s. rep \<noteq> JsonStatus s)))"
proof -
  let ?p = "p\<lparr>kp_Status := Rejected\<rparr>"
  define c1 where "c1 = c\<lparr>tick := Suc (Suc (tick c)),
      known_peers := replace_row pr_pub_key (peer_row x ?p) (known_peers c)\<rparr>"
  note up = updatePeerStatus_known [OF assms(3,2,4,5), of Rejected, folded c1_def]
  have l1: "sessions_Load k c1 = sessions_Load k c" by (simp add: c1_def sessions_Load_def)
  obtain c' where us: "updateSessionStatus k Rejected c1 = (Inr (), c')" "sessions_Load k c' = None"
    "\<forall>r. sessions_Load k c = Some r \<longrightarrow> dead (cl_heap c' r)" "known_peers c' = known_peers c1"
    using updateSessionStatus_rejected [of k c1] assms(6) l1 by (auto simp: c1_def)
  have rej: "adminRejectPeer x rq c = (Inr [JsonPeer ?p], c')"
    using up us(1) by (simp add: adminRejectPeer_def with_pubKey_Key [OF assms(3)])
  have key: "kp_PubKey p = k" using scan_peer_key [OF assms(4,5)] .
  have row: "lookup_row pr_pub_key (known_peers c') (Key_String k) = Some (peer_row x ?p)"
    "scan_peer x (peer_row x ?p) = Inr (?p\<lparr>kp_Online := False, kp_LastSeen := zero_time\<rparr>)"
    using key by (simp_all add: us(4) c1_def peers.look_put scan_peer_row [OF assms(1)])
  have ws: "\<exists>msg. fst (handleWS x (transport @ Key_String k) remote up fs c') = Inr [HttpError 403 msg]"
    if split: "SplitHostPort remote \<noteq> None" for remote up fs
  proof -
    obtain msg c2 where "admit x (transport @ Key_String k) remote c' = (Inr (Inl (HttpError 403 msg)), c2)"
      using admit_rejected [OF row _ assms(2) split] by auto
    then show ?thesis by (simp add: handleWS_def)
  qed
  have send: "\<exists>rep. fst (apiSendMessage x rq' c') = Inr [rep] \<and> (\<forall>s. rep \<noteq> JsonStatus s)"
    if "rq_pubKey rq' = Key_String k" for rq'
    using apiSendMessage_rejected [OF that row _ assms(2)] by simp
  show ?thesis using rej us(2,3) ws send by blast
qed

theorem rejected_peer_shut_out_witness:
  "\<exists>c'. adminRejectPeer demo_ext (local_request (Key_String 9) [] None) demo_pending =
      (Inr [JsonPeer (sample_peer\<lparr>kp_PubKey := 9, kp_Status := Rejected, kp_LastSeen := zero_time\<rparr>)], c') \<and>
    sessions_Load 9 c' = None \<and>
    (\<exists>msg. fst (handleWS demo_ext (transport @ Key_String 9) (str ''127.0.0.1:50'') (Some live_conn) [] c') =
       Inr [HttpError 403 msg])"
proof -
  let ?p = "sample_peer\<lparr>kp_PubKey := 9\<rparr>"
  have rq: "rq_pubKey (local_request (Key_String 9) [] None) = Key_String 9" by (simp add: local_request_def)
  have l: "lookup_row pr_pub_key (known_peers demo_pending) (Key_String 9) = Some (peer_row demo_ext ?p)"
    by (simp add: lookup_row_def demo_pending_def)
  have conn: "ss_conn (cl_heap demo_pending r) \<noteq> None" for r
    by (simp add: demo_pending_def demo_session_def)
  have h: "SplitHostPort (str ''127.0.0.1:50'') \<noteq> None"
    by (simp add: SplitHostPort_def LastIndexByte_def str_def)
  from rejected_peer_shut_out [OF demo_ext_laws(4) demo_ext_sel(1) rq l scan_peer_row [OF demo_ext_laws(4)] conn]
  show ?thesis using h by (auto simp: sample_peer_def)
qed

text \<open>
  Accepting does not depend on the record: when the peer's record is missing or cannot be written, the
  request is answered with an error, and the session is accepted all the same.
\<close>

theorem accept_without_record:
  assumes "rq_pubKey rq = Key_String k" "\<And>t. x_db x t"
    and "lookup_row pr_pub_key (known_peers c) (Key_String k) = None" "sessions_Load k c = Some r"
  shows "\<exists>c'. adminAcceptPeer x rq c = (Inr [HttpError 404 ''peer not found''], c') \<and>
    sess_status r c' = Accepted \<and> known_peers c' = known_peers c"
proof -
  define c1 where "c1 = c\<lparr>tick := Suc (tick c)\<rparr>"
  have up: "updatePeerStatus Accepted x rq c = (Inr [HttpError 404 ''peer not found''], c1)"
    using assms(2,3) by (simp add: updatePeerStatus_def with_pubKey_Key [OF assms(1)] peers_Get_eq c1_def)
  define c2 where "c2 = set_session r (setStatus Accepted (cl_heap c1 r)) c1"
  have us: "updateSessionStatus k Accepted c1 = (Inr (), c2)" "sessions_Load k c2 = Some r" "sess_status r c2 = Accepted"
    "known_peers c2 = known_peers c"
    using assms(4)
    by (simp_all add: updateSessionStatus_def c2_def c1_def sessions_Load_def set_session_def setStatus_def
        Accepted_def Rejected_def str_def)
  obtain b where b: "signal_New PeerAccepted (own_key c2) uuid_Nil [] = Inr b"
    using signal_New_no_panic [of PeerAccepted "own_key c2"] by auto
  obtain c3 where c3: "ignoreS (sess_send x r b c2) = (Inr (), c3)"
    using ignore_send [of x r b c2] by (metis prod.collapse)
  have "quiet c2 c3" using quiet.ignore [OF quiet_sess_send [of c2 x r b]] c3 by simp
  moreover have "adminAcceptPeer x rq c = (Inr [HttpError 404 ''peer not found''], c3)"
    using up us(1,2) b c3 by (simp add: adminAcceptPeer_def with_pubKey_Key [OF assms(1)] liftR_def)
  ultimately show ?thesis using us(3,4) by (auto simp: quiet_def)
qed

theorem accept_without_record_witness:
  "\<exists>c'. adminAcceptPeer demo_ext (local_request (Key_String 9) [] None)
       (demo_client\<lparr>cl_heap := (\<lambda>_. demo_session\<lparr>ss_stat := Pending\<rparr>)\<rparr>) =
       (Inr [HttpError 404 ''peer not found''], c') \<and> sess_status 0 c' = Accepted"
  using accept_without_record [of "local_request (Key_String 9) [] None" 9 demo_ext
      "demo_client\<lparr>cl_heap := (\<lambda>_. demo_session\<lparr>ss_stat := Pending\<rparr>)\<rparr>" 0]
  by (auto simp: local_request_def demo_client_def lookup_row_def sessions_Load_def)

text \<open>
  The attachments of a message that is queued are neither sent nor queued: only the message is.
\<close>

theorem offline_attachments_dropped:
  assumes "sessions_Load k c = None \<or> (\<exists>r. sessions_Load k c = Some r \<and> sess_status r c \<noteq> Accepted)"
  shows "sendAttachments x k atts c = (Inr (), c)"
  using assms by (auto simp: sendAttachments_def)

end
