(* ===== verification/EndToEnd.thy ===== *)
theory EndToEnd
  imports Authority
begin

text \<open>
  Two clients and the session between them: what leaves one through \<open>sendMessageToPeer\<close> or \<open>sendFile\<close>
  arrives at the other through its read loop.  The lemmas here take the two ends apart; the
  theorems that put them together are in the root theory.
\<close>

subsection \<open>The sender\<close>

text \<open>A session ready to send, with its key.\<close>

definition can_send :: "nat \<Rightarrow> bytes \<Rightarrow> client \<Rightarrow> bool" where
  "can_send r key c \<longleftrightarrow> has_send_key (cl_heap c r) key \<and> conn_live (cl_heap c r)"

lemma sess_send_ready:
  assumes "can_send r key c" "\<And>t. x_write x t"
  shows "\<exists>t. sess_send x r p c = (Inr (), c\<lparr>tick := t, cl_heap := (cl_heap c)(r := sent x key p (cl_heap c r))\<rparr>) \<and> tick c \<le> t"
proof -
  have k: "has_send_key (cl_heap c r) key" and l: "conn_live (cl_heap c r)" using assms(1) by (simp_all add: can_send_def)
  obtain c' where c': "sess_send x r p c = (Inr (), c')"
    using sess_send_live [OF k l assms(2), of p] by (metis prod.collapse)
  from sess_send_spec [OF c'] k show ?thesis by (auto simp: c' has_send_key_def)
qed

lemma can_send_sent [simp]:
  "can_send r key (c\<lparr>tick := t, cl_heap := (cl_heap c)(r := sent x key p (cl_heap c r))\<rparr>) = can_send r key c"
  by (simp add: can_send_def)

text \<open>Sending a list of payloads one after the other.\<close>

primrec sent_all :: "ext \<Rightarrow> bytes \<Rightarrow> bytes list \<Rightarrow> session \<Rightarrow> session" where
  "sent_all x key [] s = s"
| "sent_all x key (p # ps) s = sent_all x key ps (sent x key p s)"

lemma sent_all_frames:
  assumes "ss_conn s \<noteq> None"
  shows "conn_frames (sent_all x key ps s) = conn_frames s @ frames_from x key (cph_nonce (ss_sendr s)) ps"
  using assms
proof (induction ps arbitrary: s)
  case (Cons p ps)
  have "ss_conn (sent x key p s) \<noteq> None" using Cons.prems by (simp del: not_None_eq)
  from Cons.IH [OF this] conn_frames_sent [OF Cons.prems, of x key p] show ?case by simp
qed simp

lemma send_chunks_ready:
  assumes "can_send r key c" "\<And>t. x_write x t" "\<forall>d \<in> set ds. d \<noteq> []"
  shows "\<exists>c'. send_chunks x r i ds c = (Inr (), c') \<and>
    cl_heap c' r = sent_all x key (map (file_chunk i) ds) (cl_heap c r)"
  using assms(1,3)
proof (induction ds arbitrary: c)
  case (Cons d ds)
  obtain t where t: "sess_send x r (file_chunk i d) c =
      (Inr (), c\<lparr>tick := t, cl_heap := (cl_heap c)(r := sent x key (file_chunk i d) (cl_heap c r))\<rparr>)"
    using sess_send_ready [OF Cons.prems(1) assms(2)] by blast
  define d1 where "d1 = c\<lparr>tick := t, cl_heap := (cl_heap c)(r := sent x key (file_chunk i d) (cl_heap c r))\<rparr>"
  have d1: "can_send r key d1" "\<forall>d \<in> set ds. d \<noteq> []" "cl_heap d1 r = sent x key (file_chunk i d) (cl_heap c r)"
    using Cons.prems by (simp_all add: d1_def)
  from Cons.IH [OF d1(1,2)] obtain c' where "send_chunks x r i ds d1 = (Inr (), c')"
    "cl_heap c' r = sent_all x key (map (file_chunk i) ds) (cl_heap d1 r)" by blast
  then show ?case using Cons.prems(2) t by (simp add: d1(3) d1_def [symmetric])
qed simp

subsection \<open>The receiver\<close>

text \<open>A signal that the rate limiter of an accepted session lets through reaches its handler.\<close>

definition lets_through :: "ext \<Rightarrow> nat \<Rightarrow> client \<Rightarrow> bool" where
  "lets_through x r c \<longleftrightarrow> sess_status r c = Accepted \<and>
     fst (Allow (x_now x (tick c)) (ss_msgLimiter (cl_heap c r))) = Inr True"

lemma deliver_signal:
  assumes "lets_through x r c" "signal_Parse plain = Inr s"
  shows "\<exists>c1. deliver x r k plain c = handleSignal x s k c1 \<and> (\<exists>s1. c1 = c\<lparr>tick := Suc (tick c), cl_heap := (cl_heap c)(r := s1)\<rparr>)"
proof -
  obtain rest where plain: "plain = Marker # rest"
    using sig.sound [OF assms(2)] by (auto simp: signal_wire_def)
  let ?c = "set_session r (next_recv (cl_heap c r)) c"
  obtain l where l: "Allow (x_now x (tick c)) (ss_msgLimiter (cl_heap c r)) = (Inr True, l)"
    using assms(1) by (metis lets_through_def prod.collapse)
  have st: "sess_status r ?c = Accepted" "tick ?c = tick c" "ss_msgLimiter (cl_heap ?c r) = ss_msgLimiter (cl_heap c r)"
    using assms(1) by (simp_all add: lets_through_def set_session_def next_recv_def)
  let ?c1 = "set_session r ((cl_heap ?c r)\<lparr>ss_msgLimiter := l\<rparr>) (?c\<lparr>tick := Suc (tick c)\<rparr>)"
  have "deliver x r k plain c = handleSignal x s k ?c1"
    unfolding deliver_def using st assms(2) l
    by (simp add: handleDecrypted_def plain liftR_def Now_def set_session_def)
  then show ?thesis by (auto simp: set_session_def)
qed

lemma deliver_chunk:
  "deliver x r k (file_chunk i d) c = handleFileChunk x (uuid_bytes i @ d) (set_session r (next_recv (cl_heap c r)) c)"
  by (simp add: deliver_def handleDecrypted_def file_chunk_def)

subsection \<open>The two ends of a session\<close>

lemma in_step_key:
  assumes "in_step x s s'"
  obtains key where "aead_laws x" "has_send_key s key" "has_recv_key s' key"
    "cph_nonce (ss_sendr s) = cph_nonce (ss_recv s')"
  using assms by (auto simp: in_step_def)

lemma in_step_sent:
  assumes "in_step x s s'" "ss_recv t' = ss_recv (next_recv s')"
  shows "in_step x (sent x key p s) t'"
proof -
  have "has_recv_key t' k = has_recv_key s' k" for k
    using assms(2) next_recv_simps(1) [of s' k] by (simp add: has_recv_key_def)
  then show ?thesis using assms by (auto simp: in_step_def)
qed

lemma opened_frame:
  assumes "aead_laws x" "has_recv_key s' key" "n = cph_nonce (ss_recv s')"
  shows "opened x s' [sealed_frame x key n p] = [p]"
  using assms by (simp add: opened_def decrypt_frame)

lemma opened_frames:
  assumes "aead_laws x" "has_recv_key s' key"
  shows "opened x s' (frames_from x key (cph_nonce (ss_recv s')) ps) = ps"
proof -
  have "fst (run (session_decrypt x) s' (frames_from x key (cph_nonce (ss_recv s')) ps)) = map Inr ps"
    using assms(2)
  proof (induction ps arbitrary: s')
    case (Cons p ps)
    from Cons.IH [of "next_recv s'"] Cons.prems assms(1) show ?case
      by (auto simp: decrypt_frame split: prod.split)
  qed simp
  then show ?thesis by (simp add: opened_def comp_def)
qed

lemma sendMessageToPeer_live:
  assumes "aead_laws x" "cache_coherent x (secret_of c) c" "\<And>t. x_db x t" "\<And>t. x_write x t"
    and "sessions_Load k c = Some r" "sess_status r c = Accepted" "can_send r key c"
    and "message_ok msg" "msg_ID msg \<noteq> uuid_Nil" "length (message_wire (as_own c msg)) \<le> 4294967295"
  shows "\<exists>c'. sendMessageToPeer x k msg c = (Inr (), c') \<and>
    cl_heap c' r = sent x key (signal_wire (message_signal c msg)) (cl_heap c r) \<and>
    stored x (secret_of c) c' (x_uuid_String x (msg_ID msg)) = Some (message_wire (as_own c msg))"
proof -
  obtain c1 where c1: "own_message_signal x msg c = (Inr (signal_wire (message_signal c msg)), c1)"
    "only_chats c c1"
    "stored x (secret_of c) c1 (x_uuid_String x (msg_ID msg)) = Some (message_wire (as_own c msg))"
    using own_message_signal_spec [OF assms(1-3,8-10)] by auto
  then have f: "cl_sessions c1 = cl_sessions c" "cl_heap c1 = cl_heap c" by (auto simp: only_chats_def)
  then have "can_send r key c1" using assms(7) by (simp add: can_send_def)
  from sess_send_ready [OF this assms(4)] obtain t where
    t: "sess_send x r (signal_wire (message_signal c msg)) c1 = (Inr (), c1\<lparr>tick := t,
      cl_heap := (cl_heap c1)(r := sent x key (signal_wire (message_signal c msg)) (cl_heap c1 r))\<rparr>)" by blast
  let ?c2 = "c1\<lparr>tick := t, cl_heap := (cl_heap c1)(r := sent x key (signal_wire (message_signal c msg)) (cl_heap c1 r))\<rparr>"
  have "stored x (secret_of c) ?c2 = stored x (secret_of c) c1" by (rule stored_cong) simp
  moreover have "sendMessageToPeer x k msg c = (Inr (), ?c2)"
    using c1(1) assms(5,6) f t by (simp add: sendMessageToPeer_def sessions_Load_def)
  ultimately show ?thesis using c1(3) f by simp
qed

subsection \<open>Files\<close>

lemma chunks_of_ne: "0 < n \<Longrightarrow> \<forall>d \<in> set (chunks_of n data). d \<noteq> []"
  by (induction n data rule: chunks_of.induct) (subst chunks_of.simps, auto)

lemma concat_chunks_of: "0 < n \<Longrightarrow> concat (chunks_of n data) = data"
  by (induction n data rule: chunks_of.induct) (subst chunks_of.simps, auto)

lemma chunks_of_Nil [simp]: "0 < n \<Longrightarrow> chunks_of n data = [] \<longleftrightarrow> data = []"
  by (subst chunks_of.simps) simp

text \<open>The signal that announces a file.\<close>

definition meta_signal :: "client \<Rightarrow> uuid \<Rightarrow> fileMeta \<Rightarrow> signal" where
  "meta_signal c i meta = \<lparr>sig_Type = FileMeta, sig_From = own_key c, sig_ID = i, sig_Content = fileMeta_wire meta\<rparr>"

definition file_payloads :: "client \<Rightarrow> uuid \<Rightarrow> fileMeta \<Rightarrow> bytes list \<Rightarrow> bytes list" where
  "file_payloads c i meta ds = signal_wire (meta_signal c i meta) # map (file_chunk i) ds"

lemma meta_signal_ok:
  assumes "fileMeta_ok meta"
  shows "signal_ok (meta_signal c i meta)"
  using assms by (auto simp: signal_ok_def meta_signal_def fileMeta_wire_def fileMeta_ok_def FileMeta_def str_def)

lemma sendFile_live:
  assumes "\<And>t. x_write x t" "can_send r key c" "\<forall>d \<in> set ds. d \<noteq> []"
    and "fileMeta_ok \<lparr>fm_Name = name, fm_Size = sz, fm_MIME = mime\<rparr>"
  shows "\<exists>c'. sendFile x r i name mime sz (ds, False) c = (Inr (), c') \<and>
    cl_heap c' r = sent_all x key (file_payloads c i \<lparr>fm_Name = name, fm_Size = sz, fm_MIME = mime\<rparr> ds) (cl_heap c r)"
proof -
  let ?meta = "\<lparr>fm_Name = name, fm_Size = sz, fm_MIME = mime\<rparr>"
  let ?sig = "signal_wire (meta_signal c i ?meta)"
  have enc: "encodeFileMeta ?meta = Inr (fileMeta_wire ?meta)" using assms(4) by (rule encodeFileMeta_ok)
  have new: "signal_New FileMeta (own_key c) i (fileMeta_wire ?meta) = Inr ?sig"
    using meta_signal_ok [OF assms(4), of c i] by (simp add: signal_New_eq signal_ok_def meta_signal_def)
  obtain t where t: "sess_send x r ?sig c = (Inr (), c\<lparr>tick := t, cl_heap := (cl_heap c)(r := sent x key ?sig (cl_heap c r))\<rparr>)"
    using sess_send_ready [OF assms(2,1)] by blast
  define c1 where "c1 = c\<lparr>tick := t, cl_heap := (cl_heap c)(r := sent x key ?sig (cl_heap c r))\<rparr>"
  have c1: "can_send r key c1" "cl_heap c1 r = sent x key ?sig (cl_heap c r)" using assms(2) by (simp_all add: c1_def)
  obtain c' where c': "send_chunks x r i ds c1 = (Inr (), c')"
    "cl_heap c' r = sent_all x key (map (file_chunk i) ds) (cl_heap c1 r)"
    using send_chunks_ready [OF c1(1) assms(1,3)] by blast
  have "sendFile x r i name mime sz (ds, False) c = (Inr (), c')"
    using enc new t c'(1) by (simp add: sendFile_def liftR_def c1_def)
  then show ?thesis using c'(2) c1(2) by (simp add: file_payloads_def)
qed

lemma deliver_file:
  assumes "aead_laws x" "\<And>t. x_db x t" "i \<noteq> uuid_Nil" "lets_through x r c"
    and "fileMeta_ok meta" "\<forall>d \<in> set ds. d \<noteq> []" "ds \<noteq> []" "fm_Size meta = int (length (concat ds))"
  shows "\<exists>c'. forS (deliver x r (own_key a)) (file_payloads a i meta ds) c = (Inr (), c') \<and>
    cl_pendingFiles c' i = None \<and> fst (files_Get x (secret_of c) i c') = Inr (concat ds)"
proof -
  let ?s = "meta_signal a i meta" and ?k = "own_key a"
  have parse: "signal_Parse (signal_wire ?s) = Inr ?s" by (rule sig.roundtrip_exact [OF meta_signal_ok [OF assms(5)]])
  obtain c1 s1 where d: "deliver x r ?k (signal_wire ?s) c = handleSignal x ?s ?k c1"
    "c1 = c\<lparr>tick := Suc (tick c), cl_heap := (cl_heap c)(r := s1)\<rparr>"
    using deliver_signal [OF assms(4) parse] by blast
  define c2 where "c2 = c1\<lparr>cl_pendingFiles := (cl_pendingFiles c1)(i := Some \<lparr>pnd_meta = meta, pnd_received = 0, pnd_buf = []\<rparr>)\<rparr>"
  have "handleSignal x ?s ?k c1 = (Inr (), c2)"
    using fm.roundtrip_exact [OF assms(5)]
    by (simp add: handleSignal_cases meta_signal_def liftR_def c2_def)
  moreover have "receiving i meta [] c2" "secret_of c2 = secret_of c" by (simp_all add: receiving_def c2_def d(2))
  moreover have "forS (deliver x r ?k) (map (file_chunk i) ds) e =
      forS (\<lambda>d c. handleDecrypted x (file_chunk i d) r ?k (set_session r (next_recv (cl_heap c r)) c)) ds e" for e
    by (induction ds arbitrary: e) (auto simp: deliver_def bindS_def split: prod.split sum.split)
  ultimately show ?thesis
    using receive_chunks_complete [of x i "\<lambda>c. set_session r (next_recv (cl_heap c r)) c" meta "[]" c2 ds r ?k,
        OF assms(1-3)] assms(5-8) d(1)
    by (simp add: file_payloads_def set_session_def fileMeta_ok_def)
qed

subsection \<open>A message at its receiver\<close>

lemma message_frame_stored:
  assumes "aead_laws x" "has_recv_key (cl_heap b rb) key" "n = cph_nonce (ss_recv (cl_heap b rb))"
    and "\<And>t. x_db x t" "cache_coherent x (secret_of b) b" "lets_through x rb b"
    and "message_ok msg" "msg_ID msg \<noteq> uuid_Nil" "length (message_wire msg) \<le> 4294967295"
  shows "\<exists>b'. read_frames x rb (own_key a) [sealed_frame x key n (signal_wire (message_signal a msg))] b = (read_error, b') \<and>
    fst (message_Get x (secret_of b) (msg_ID msg) b') = Inr (msg\<lparr>msg_FromPubKey := own_key a\<rparr>) \<and>
    stored x (secret_of b) b' (x_uuid_String x (msg_ID msg)) = Some (message_wire (as_own a msg)) \<and>
    ss_recv (cl_heap b' rb) = ss_recv (next_recv (cl_heap b rb))"
proof -
  let ?m = "as_own a msg" and ?k = "own_key a" and ?s = "message_signal a msg"
  let ?f = "sealed_frame x key n (signal_wire ?s)"
  note parse = message_signal_parse [OF assms(7,9), of a]
  obtain b1 s1 where d: "deliver x rb ?k (signal_wire ?s) b = handleSignal x ?s ?k b1"
    "b1 = b\<lparr>tick := Suc (tick b), cl_heap := (cl_heap b)(rb := s1)\<rparr>"
    using deliver_signal [OF assms(6) parse(1)] by blast
  have b1: "cache_coherent x (secret_of b1) b1" "secret_of b1 = secret_of b"
    using assms(5) coherent_cong [of b1 b x "secret_of b"] by (simp_all add: d(2))
  have own: "?m\<lparr>msg_FromPubKey := ?k\<rparr> = ?m" "msg_ID ?m = msg_ID msg" by (simp_all add: as_own_def)
  obtain b' where b': "handleMessage x ?s ?k b1 = (Inr (), b')" "cache_coherent x (secret_of b) b'"
    "stored x (secret_of b) b' (x_uuid_String x (msg_ID msg)) = Some (message_wire ?m)"
    using handleMessage_stores [OF assms(1) b1(1) assms(4) parse(2), of ?k] assms(8) b1(2) unfolding own by auto
  have "deliver x rb ?k (signal_wire ?s) b = (Inr (), b')"
    using d(1) b'(1) handleSignal_cases(1) [of ?s x ?k b1] by (simp add: message_signal_def)
  then have "read_frames x rb ?k [?f] b = (read_error, b')"
    "ss_recv (cl_heap b' rb) = ss_recv (next_recv (cl_heap b rb))"
    using read_frames_opened [of x rb ?k "[?f]" b] opened_frame [OF assms(1-3)]
      steady_deliver_recv [of x rb ?k "signal_wire ?s" b] by simp_all
  moreover have "fst (message_Get x (secret_of b) (msg_ID msg) b') = Inr (msg\<lparr>msg_FromPubKey := own_key a\<rparr>)"
    using message_Get_stored [OF b'(2,3) assms(4)] parse(2) by (simp add: message_signal_def as_own_def)
  ultimately show ?thesis using b'(3) by blast
qed

end
