(* ===== verification/SessionRaces.thy ===== *)
theory SessionRaces
  imports Session
begin

text \<open>
  The interleavings of \<open>Session.send\<close> and \<open>Session.closeConn\<close>, from \<open>client/session.go\<close>.  Several
  goroutines send on one session: the read loop's handlers, the API handlers, the outbox flush.  Each
  \<open>send\<close> takes the session's lock twice: in \<open>encrypt\<close>, to read the key and to draw a counter value,
  and again to write the frame; sealing happens between the two, outside the lock.  \<open>closeConn\<close>
  overwrites the key's bytes under the lock, drops the key, and closes the connection after it
  released the lock.  A thread that has left \<open>encrypt\<close>'s critical section holds a reference to the
  key's bytes, so it seals with what those bytes are when it gets there.
\<close>

datatype thread =
    Want bytes
  | Taken bytes "64 word"
  | Sealed bytes
  | Done

record race =
  rc_array :: bytes
  rc_keyset :: bool
  rc_nonce :: "64 word"
  rc_open :: bool
  rc_wire :: "bytes list"
  rc_threads :: "nat \<Rightarrow> thread"

definition set_thread :: "nat \<Rightarrow> thread \<Rightarrow> race \<Rightarrow> race" where
  "set_thread i t s = s\<lparr>rc_threads := (rc_threads s)(i := t)\<rparr>"

text \<open>
  The critical section of \<open>encrypt\<close>, the sealing, the critical section of \<open>send\<close> with the write, and the
  two halves of \<open>closeConn\<close>.
\<close>

definition draw_counter :: "nat \<Rightarrow> bytes \<Rightarrow> race \<Rightarrow> race" where
  "draw_counter i p s =
     (if \<not> rc_keyset s then set_thread i Done s
      else set_thread i (Taken p (rc_nonce s)) (s\<lparr>rc_nonce := rc_nonce s + 1\<rparr>))"

definition seal_frame :: "ext \<Rightarrow> nat \<Rightarrow> bytes \<Rightarrow> 64 word \<Rightarrow> race \<Rightarrow> race" where
  "seal_frame x i p n s = set_thread i (Sealed (sealed_frame x (rc_array s) n p)) s"

definition put_frame :: "bool \<Rightarrow> nat \<Rightarrow> bytes \<Rightarrow> race \<Rightarrow> race" where
  "put_frame ok i f s = set_thread i Done (if ok \<and> rc_open s then s\<lparr>rc_wire := rc_wire s @ [f]\<rparr> else s)"

definition zero_key :: "race \<Rightarrow> race" where
  "zero_key s = s\<lparr>rc_array := (if rc_keyset s then replicate (length (rc_array s)) 0 else rc_array s), rc_keyset := False\<rparr>"

definition close_race :: "race \<Rightarrow> race" where
  "close_race s = s\<lparr>rc_open := False\<rparr>"

inductive race_step :: "ext \<Rightarrow> race \<Rightarrow> race \<Rightarrow> bool" for x where
  drawn: "rc_threads s i = Want p \<Longrightarrow> race_step x s (draw_counter i p s)"
| sealed: "rc_threads s i = Taken p n \<Longrightarrow> race_step x s (seal_frame x i p n s)"
| put: "rc_threads s i = Sealed f \<Longrightarrow> race_step x s (put_frame ok i f s)"
| zeroed: "race_step x s (zero_key s)"
| closed: "\<not> rc_keyset s \<Longrightarrow> race_step x s (close_race s)"

lemmas race_defs = draw_counter_def seal_frame_def put_frame_def zero_key_def close_race_def set_thread_def

text \<open>A session with key \<open>k\<close> just established, and the payloads its threads want to send.\<close>

definition race_init :: "bytes \<Rightarrow> (nat \<Rightarrow> bytes) \<Rightarrow> race" where
  "race_init k ps = \<lparr>rc_array = k, rc_keyset = True, rc_nonce = 0, rc_open = True, rc_wire = [],
     rc_threads = (\<lambda>i. Want (ps i))\<rparr>"

definition race_reach :: "ext \<Rightarrow> bytes \<Rightarrow> (nat \<Rightarrow> bytes) \<Rightarrow> race \<Rightarrow> bool" where
  "race_reach x k ps s \<longleftrightarrow> (race_step x)\<^sup>*\<^sup>* (race_init k ps) s"

subsection \<open>What holds in every interleaving\<close>

text \<open>
  A frame in flight belongs to one thread and one counter value: it is the seal of that thread's
  payload, under the session's key or, only once \<open>closeConn\<close> has run, under zeroes.
\<close>

definition frame_of :: "ext \<Rightarrow> bytes \<Rightarrow> bool \<Rightarrow> bytes \<Rightarrow> 64 word \<Rightarrow> bytes \<Rightarrow> bool" where
  "frame_of x k keyset p n f \<longleftrightarrow>
     f = sealed_frame x k n p \<or> \<not> keyset \<and> f = sealed_frame x (replicate (length k) 0) n p"

definition thread_ok :: "ext \<Rightarrow> bytes \<Rightarrow> bool \<Rightarrow> bytes \<Rightarrow> thread \<Rightarrow> bool" where
  "thread_ok x k keyset p t = (case t of Want q \<Rightarrow> q = p | Taken q n \<Rightarrow> q = p
     | Sealed f \<Rightarrow> \<exists>n. frame_of x k keyset p n f | Done \<Rightarrow> True)"

lemma thread_ok_simps [simp]:
  "thread_ok x k b p (Want q) \<longleftrightarrow> q = p" "thread_ok x k b p (Taken q n) \<longleftrightarrow> q = p"
  "thread_ok x k b p (Sealed f) \<longleftrightarrow> (\<exists>n. frame_of x k b p n f)" "thread_ok x k b p Done"
  by (simp_all add: thread_ok_def)

definition race_inv :: "ext \<Rightarrow> bytes \<Rightarrow> (nat \<Rightarrow> bytes) \<Rightarrow> race \<Rightarrow> bool" where
  "race_inv x k ps s \<longleftrightarrow>
     (rc_array s = k \<or> rc_array s = replicate (length k) 0 \<and> \<not> rc_keyset s) \<and>
     (\<forall>i. thread_ok x k (rc_keyset s) (ps i) (rc_threads s i)) \<and>
     (\<forall>f \<in> set (rc_wire s). \<exists>i n. frame_of x k (rc_keyset s) (ps i) n f)"

lemma race_inv_init: "race_inv x k ps (race_init k ps)"
  by (simp add: race_inv_def race_init_def thread_ok_def)

lemma race_inv_step: "race_step x s s' \<Longrightarrow> race_inv x k ps s \<Longrightarrow> race_inv x k ps s'"
proof (induction rule: race_step.induct)
  case (drawn s i p)
  then have "thread_ok x k (rc_keyset s) (ps i) (Want p)" by (metis race_inv_def)
  with drawn show ?case by (auto simp: race_inv_def race_defs)
next
  case (sealed s i p n)
  then have "thread_ok x k (rc_keyset s) (ps i) (Taken p n)" by (metis race_inv_def)
  with sealed show ?case by (auto simp: race_inv_def race_defs frame_of_def)
next
  case (put s i f ok)
  then have "thread_ok x k (rc_keyset s) (ps i) (Sealed f)" by (metis race_inv_def)
  with put show ?case by (auto simp: race_inv_def race_defs)
next
  case (zeroed s)
  have "thread_ok x k False p t" if "thread_ok x k b p t" for p t b
    using that by (auto simp: thread_ok_def frame_of_def split: thread.splits)
  with zeroed show ?case by (fastforce simp: race_inv_def frame_of_def zero_key_def)
qed (simp add: race_inv_def close_race_def)

lemma race_inv_reach: "race_reach x k ps s \<Longrightarrow> race_inv x k ps s"
  unfolding race_reach_def
  by (induction rule: rtranclp_induct) (auto intro: race_inv_init race_inv_step)

lemma race_reach_init: "race_reach x k ps (race_init k ps)"
  by (simp add: race_reach_def)

lemma race_reach_step: "race_reach x k ps s \<Longrightarrow> race_step x s s' \<Longrightarrow> race_reach x k ps s'"
  by (simp add: race_reach_def rtranclp.rtrancl_into_rtrancl)

text \<open>
  Whatever the interleaving of senders and a close, every frame that reaches the wire is the seal
  of a payload some thread wanted to send, and as long as the session has not been closed it is sealed
  under the session's key.
\<close>

theorem raced_frames_sealed:
  assumes "race_reach x k ps s" "f \<in> set (rc_wire s)"
  shows "\<exists>i n. f = sealed_frame x k n (ps i) \<or>
    \<not> rc_keyset s \<and> f = sealed_frame x (replicate (length k) 0) n (ps i)"
  using race_inv_reach [OF assms(1)] assms(2) by (auto simp: race_inv_def frame_of_def)

subsection \<open>What the peer reads\<close>

text \<open>
  As long as the session is not closed, the counter values are the ranks in which the threads entered
  the critical section of \<open>encrypt\<close>: \<open>order\<close> lists the threads by rank, \<open>ws\<close> the ranks in the order their
  frames were written.
\<close>

definition ranked :: "ext \<Rightarrow> bytes \<Rightarrow> (nat \<Rightarrow> bytes) \<Rightarrow> nat list \<Rightarrow> nat list \<Rightarrow> race \<Rightarrow> bool" where
  "ranked x k ps order ws s \<longleftrightarrow>
     rc_array s = k \<and> rc_nonce s = of_nat (length order) \<and> distinct order \<and>
     (\<forall>i. i \<notin> set order \<longrightarrow> rc_threads s i = Want (ps i)) \<and>
     (\<forall>r < length order. rc_threads s (order ! r) \<in>
        {Taken (ps (order ! r)) (of_nat r), Sealed (sealed_frame x k (of_nat r) (ps (order ! r))), Done}) \<and>
     distinct ws \<and> (\<forall>r \<in> set ws. r < length order \<and> rc_threads s (order ! r) = Done) \<and>
     rc_wire s = map (\<lambda>r. sealed_frame x k (of_nat r) (ps (order ! r))) ws"

lemma ranked_thread:
  assumes "ranked x k ps order ws s" "rc_threads s i = t" "t \<noteq> Want (ps i)"
  shows "\<exists>r < length order. i = order ! r \<and>
    t \<in> {Taken (ps i) (of_nat r), Sealed (sealed_frame x k (of_nat r) (ps i)), Done}"
proof -
  have "i \<in> set order" using assms by (auto simp: ranked_def)
  then obtain r where "r < length order" "i = order ! r" by (auto simp: in_set_conv_nth)
  with assms show ?thesis by (auto simp: ranked_def)
qed

lemma ranked_drawn:
  assumes "ranked x k ps order ws s"
  shows "set order = {i. rc_threads s i \<noteq> Want (ps i)}"
proof
  show "set order \<subseteq> {i. rc_threads s i \<noteq> Want (ps i)}"
  proof
    fix i assume "i \<in> set order"
    then obtain r where r: "r < length order" "i = order ! r" by (auto simp: in_set_conv_nth)
    then have "rc_threads s i \<in> {Taken (ps i) (of_nat r), Sealed (sealed_frame x k (of_nat r) (ps i)), Done}"
      using assms unfolding ranked_def by blast
    then show "i \<in> {i. rc_threads s i \<noteq> Want (ps i)}" by auto
  qed
  show "{i. rc_threads s i \<noteq> Want (ps i)} \<subseteq> set order" using assms by (auto simp: ranked_def)
qed

lemma ranked_step:
  assumes "race_step x s s'" "ranked x k ps order ws s" "rc_keyset s'"
  shows "\<exists>order' ws'. ranked x k ps order' ws' s'"
  using assms
proof cases
  case (drawn i p)
  have "p = ps i" using ranked_thread [OF assms(2) drawn(2)] by auto
  moreover from this have "i \<notin> set order" using ranked_drawn [OF assms(2)] drawn(2) by simp
  moreover have "rc_keyset s" using assms(3) drawn(1) by (auto simp: race_defs split: if_splits)
  ultimately have "ranked x k ps (order @ [i]) ws s'"
    using assms(2) by (auto simp: ranked_def drawn(1) race_defs nth_append less_Suc_eq)
  then show ?thesis by blast
next
  case (sealed i p n)
  then obtain r where r: "r < length order" "i = order ! r" "p = ps i" "n = of_nat r"
    using ranked_thread [OF assms(2) sealed(2)] by auto
  then have "ranked x k ps order ws s'"
    using assms(2) sealed(2) by (auto simp: ranked_def sealed(1) race_defs nth_eq_iff_index_eq)
  then show ?thesis by blast
next
  case (put i f ok)
  then obtain r where r: "r < length order" "i = order ! r" "f = sealed_frame x k (of_nat r) (ps i)"
    using ranked_thread [OF assms(2) put(2)] by auto
  moreover have "r \<notin> set ws" using assms(2) put(2) r(2) by (auto simp: ranked_def)
  ultimately have "ranked x k ps order (if ok \<and> rc_open s then ws @ [r] else ws) s'"
    using assms(2) by (auto simp: ranked_def put(1) race_defs nth_eq_iff_index_eq)
  then show ?thesis by blast
next
  case zeroed
  with assms(3) show ?thesis by (simp add: zero_key_def)
next
  case closed
  with assms(3) show ?thesis by (simp add: close_race_def)
qed

lemma ranked_reach:
  assumes "race_reach x k ps s" "rc_keyset s"
  shows "\<exists>order ws. ranked x k ps order ws s"
  using assms unfolding race_reach_def
proof (induction rule: rtranclp_induct)
  case base
  have "ranked x k ps [] [] (race_init k ps)" by (simp add: ranked_def race_init_def)
  then show ?case by blast
next
  case (step t u)
  have "rc_keyset t" using step.hyps(2) step.prems by cases (auto simp: race_defs split: if_splits)
  with step.IH step.hyps(2) step.prems ranked_step show ?case by blast
qed

text \<open>The frames a peer opens that expects the rank \<open>m\<close> next: those that come in turn.\<close>

fun in_turn :: "nat \<Rightarrow> nat list \<Rightarrow> bool list" where
  "in_turn m [] = []"
| "in_turn m (r # rs) = (r = m) # in_turn (if r = m then Suc m else m) rs"

lemma in_turn_all: "list_all id (in_turn m ws) \<longleftrightarrow> ws = [m..<m + length ws]"
proof (induction ws arbitrary: m)
  case (Cons r ws)
  have "[m..<m + length (r # ws)] = m # [Suc m..<Suc m + length ws]" by (simp add: upt_conv_Cons del: upt_Suc)
  with Cons [of "Suc m"] show ?case by (simp del: upt_Suc)
qed simp

lemma turn_opened:
  assumes "aead_laws x" "has_recv_key b k" "cph_nonce (ss_recv b) = of_nat m" "\<forall>r \<in> set ws. r < 2 ^ 64" "m + length ws \<le> 2 ^ 64"
  shows "fst (run (session_decrypt x) b (map (\<lambda>r. sealed_frame x k (of_nat r) (f r)) ws)) =
    map2 (\<lambda>r t. if t then Inr (f r) else Fail ''session: nonce mismatch'') ws (in_turn m ws)"
  using assms(2-5)
proof (induction ws arbitrary: b m)
  case (Cons r ws)
  have "m < 2 ^ 64" using Cons.prems(4) by simp
  then have eq: "(of_nat r :: 64 word) = of_nat m \<longleftrightarrow> r = m"
    using Cons.prems(3) by (auto dest!: arg_cong [of "of_nat r" "of_nat m" "unat :: 64 word \<Rightarrow> nat"] simp: unat_of_nat)
  show ?case
  proof (cases "r = m")
    case True
    with Cons.IH [of "next_recv b" "Suc m"] Cons.prems show ?thesis
      by (simp add: decrypt_frame [OF assms(1) Cons.prems(1)] add.commute case_prod_beta)
  next
    case False
    with Cons.IH [of b m] Cons.prems eq show ?thesis
      by (simp add: decrypt_frame [OF assms(1) Cons.prems(1)] case_prod_beta)
  qed
qed simp

text \<open>
  C5: What concurrent senders deliver, whatever their interleaving: the frames on the wire are the payloads
  of distinct threads, each sealed with its rank among the draws of the counter; the peer opens exactly the
  frames that come in turn, to these threads' payloads, and refuses the others; so it opens everything
  that was written exactly when the frames were written in the order of the draws, with none left out.
\<close>

theorem raced_delivery:
  assumes "aead_laws x" "has_recv_key b k" "cph_nonce (ss_recv b) = 0"
    and "race_reach x k ps s" "rc_keyset s" "card {i. rc_threads s i \<noteq> Want (ps i)} \<le> 2 ^ 64"
  shows "\<exists>order ws. distinct order \<and> set order = {i. rc_threads s i \<noteq> Want (ps i)} \<and>
    distinct ws \<and> (\<forall>r \<in> set ws. r < length order \<and> rc_threads s (order ! r) = Done) \<and>
    rc_wire s = map (\<lambda>r. sealed_frame x k (of_nat r) (ps (order ! r))) ws \<and>
    fst (run (session_decrypt x) b (rc_wire s)) =
      map2 (\<lambda>r t. if t then Inr (ps (order ! r)) else Fail ''session: nonce mismatch'') ws (in_turn 0 ws) \<and>
    (fst (run (session_decrypt x) b (rc_wire s)) = map (\<lambda>r. Inr (ps (order ! r))) ws \<longleftrightarrow> ws = [0..<length ws])"
proof -
  obtain order ws where rk: "ranked x k ps order ws s" using ranked_reach [OF assms(4,5)] by blast
  have drawn: "set order = {i. rc_threads s i \<noteq> Want (ps i)}"
    by (rule ranked_drawn [OF rk])
  have "length order = card (set order)" using rk by (simp add: ranked_def distinct_card)
  then have len: "length order \<le> 2 ^ 64" using assms(6) drawn by simp
  have ws: "distinct ws" "\<forall>r \<in> set ws. r < length order \<and> rc_threads s (order ! r) = Done"
    "rc_wire s = map (\<lambda>r. sealed_frame x k (of_nat r) (ps (order ! r))) ws"
    using rk by (simp_all add: ranked_def)
  have "length ws = card (set ws)" using ws(1) by (simp add: distinct_card)
  also have "\<dots> \<le> length order" using card_mono [of "{..<length order}" "set ws"] ws(2) by auto
  finally have "0 + length ws \<le> 2 ^ 64" using len by simp
  moreover have "\<forall>r \<in> set ws. r < 2 ^ 64" using ws(2) len by fastforce
  ultimately have read: "fst (run (session_decrypt x) b (rc_wire s)) =
      map2 (\<lambda>r t. if t then Inr (ps (order ! r)) else Fail ''session: nonce mismatch'') ws (in_turn 0 ws)"
    unfolding ws(3) using assms(3) by (intro turn_opened assms(1,2)) simp_all
  have "map2 (\<lambda>r t. if t then Inr (ps (order ! r)) else Fail ''session: nonce mismatch'') ws (in_turn m ws) =
      map (\<lambda>r. Inr (ps (order ! r))) ws \<longleftrightarrow> list_all id (in_turn m ws)" for m
    by (induction ws arbitrary: m) auto
  with in_turn_all [of 0 ws] read rk drawn ws show ?thesis
    by (intro exI [of _ order] exI [of _ ws]) (simp add: ranked_def)
qed

subsection \<open>Two senders\<close>

text \<open>Both threads draw their counter values before either writes, and the second writes first.\<close>

definition crossed :: "ext \<Rightarrow> bytes \<Rightarrow> (nat \<Rightarrow> bytes) \<Rightarrow> race" where
  "crossed x k ps = (race_init k ps)\<lparr>rc_nonce := 2,
     rc_wire := [sealed_frame x k 1 (ps 1), sealed_frame x k 0 (ps 0)],
     rc_threads := (\<lambda>i. Want (ps i))(0 := Done, 1 := Done)\<rparr>"

lemma crossed_reachable: "race_reach x k ps (crossed x k ps)"
proof -
  let ?t = "\<lambda>a b. (\<lambda>i. Want (ps i))(0 := a, 1 := b)"
  let ?s = "\<lambda>n a b w. (race_init k ps)\<lparr>rc_nonce := n, rc_wire := w, rc_threads := ?t a b\<rparr>"
  let ?f0 = "sealed_frame x k 0 (ps 0)"
  let ?f1 = "sealed_frame x k 1 (ps 1)"
  note step = race_reach_step [OF _ race_step.drawn] race_reach_step [OF _ race_step.sealed]
    race_reach_step [OF _ race_step.put, where ok1 = True]
  have "?t (Want (ps 0)) (Want (ps 1)) = (\<lambda>i. Want (ps i))" by auto
  then have 0: "race_reach x k ps (?s 0 (Want (ps 0)) (Want (ps 1)) [])"
    using race_reach_init [of x k ps] by (simp add: race_init_def)
  have 1: "race_reach x k ps (?s 1 (Taken (ps 0) 0) (Want (ps 1)) [])"
    using step(1) [OF 0, of 0] by (simp add: race_defs race_init_def fun_upd_twist)
  have 2: "race_reach x k ps (?s 2 (Taken (ps 0) 0) (Taken (ps 1) 1) [])"
    using step(1) [OF 1, of 1] by (simp add: race_defs race_init_def fun_upd_twist)
  have 3: "race_reach x k ps (?s 2 (Sealed ?f0) (Taken (ps 1) 1) [])"
    using step(2) [OF 2, of 0] by (simp add: race_defs race_init_def fun_upd_twist)
  have 4: "race_reach x k ps (?s 2 (Sealed ?f0) (Sealed ?f1) [])"
    using step(2) [OF 3, of 1] by (simp add: race_defs race_init_def fun_upd_twist)
  have 5: "race_reach x k ps (?s 2 (Sealed ?f0) Done [?f1])"
    using step(3) [OF 4, of 1] by (simp add: race_defs race_init_def fun_upd_twist)
  show ?thesis
    using step(3) [OF 5, of 0] by (simp add: race_defs race_init_def fun_upd_twist crossed_def)
qed

text \<open>
  C39: Two goroutines that send at the same time can break a session for good.  Both draw their
  counter values before either writes and the frames go out in the other order: the peer refuses the
  first frame, accepts the second, and from then on expects a counter value that is never used again,
  so it refuses every one of the next \<open>2 ^ 64 - 1\<close> frames although the connection is open, both keys
  are in place and both calls of \<open>send\<close> returned without an error.
\<close>

theorem concurrent_sends_desync:
  assumes "aead_laws x" "has_recv_key b k" "cph_nonce (ss_recv b) = 0"
  shows "\<exists>s. race_reach x k ps s \<and> rc_open s \<and> rc_keyset s \<and> rc_threads s 0 = Done \<and> rc_threads s 1 = Done \<and>
    run (session_decrypt x) b (rc_wire s) = ([Fail ''session: nonce mismatch'', Inr (ps 0)], next_recv b) \<and>
    (\<forall>j q. j < 2 ^ 64 - 1 \<longrightarrow>
      session_decrypt x (next_recv b) (sealed_frame x k (rc_nonce s + of_nat j) q) =
        (Fail ''session: nonce mismatch'', next_recv b))"
proof (intro exI conjI)
  show "race_reach x k ps (crossed x k ps)" by (rule crossed_reachable)
  show "run (session_decrypt x) b (rc_wire (crossed x k ps)) =
      ([Fail ''session: nonce mismatch'', Inr (ps 0)], next_recv b)"
    using assms by (simp add: crossed_def decrypt_frame [OF assms(1,2)])
  have "2 + of_nat j \<noteq> (1 :: 64 word)" if "j < 2 ^ 64 - 1" for j
  proof
    assume "2 + of_nat j = (1 :: 64 word)"
    then have "(of_nat (Suc j) :: 64 word) = 0" by (simp add: algebra_simps)
    moreover have "unat (of_nat (Suc j) :: 64 word) = Suc j"
      using that by (simp add: unat_of_nat del: of_nat_Suc)
    ultimately show False by (simp del: of_nat_Suc)
  qed
  then show "\<forall>j q. j < 2 ^ 64 - 1 \<longrightarrow>
      session_decrypt x (next_recv b) (sealed_frame x k (rc_nonce (crossed x k ps) + of_nat j) q) =
        (Fail ''session: nonce mismatch'', next_recv b)"
    using assms by (simp add: crossed_def decrypt_frame [OF assms(1)])
qed (simp_all add: crossed_def race_init_def)

subsection \<open>A sender and a close\<close>

text \<open>
  A send that is overtaken by \<open>closeConn\<close> can put its payload on the wire sealed under a key of
  zeroes, which anyone can open: \<open>closeConn\<close> overwrites the key's bytes while the sender holds a
  reference to them, and closes the connection only later.
\<close>

theorem close_race_zero_key:
  "\<exists>s. race_reach x k ps s \<and> rc_wire s = [sealed_frame x (replicate (length k) 0) 0 (ps 0)]"
proof -
  let ?s = "\<lambda>a t w. (race_init k ps)\<lparr>rc_nonce := 1, rc_array := a, rc_keyset := False, rc_wire := w,
     rc_threads := (\<lambda>i. Want (ps i))(0 := t)\<rparr>"
  let ?z = "replicate (length k) (0 :: byte)"
  have 1: "race_reach x k ps ((race_init k ps)\<lparr>rc_nonce := 1,
      rc_threads := (\<lambda>i. Want (ps i))(0 := Taken (ps 0) 0)\<rparr>)"
    using race_reach_step [OF race_reach_init race_step.drawn, of k ps 0 "ps 0" x]
    by (simp add: race_defs race_init_def)
  have 2: "race_reach x k ps (?s ?z (Taken (ps 0) 0) [])"
    using race_reach_step [OF 1 race_step.zeroed] by (simp add: zero_key_def race_init_def)
  have 3: "race_reach x k ps (?s ?z (Sealed (sealed_frame x ?z 0 (ps 0))) [])"
    using race_reach_step [OF 2 race_step.sealed, of 0] by (simp add: race_defs race_init_def)
  have "race_reach x k ps (?s ?z Done [sealed_frame x ?z 0 (ps 0)])"
    using race_reach_step [OF 3 race_step.put, of 0 _ True] by (simp add: race_defs race_init_def)
  then show ?thesis by (intro exI conjI) (assumption, simp)
qed

subsection \<open>Examples\<close>

theorem raced_frames_sealed_witness:
  "\<exists>i n. sealed_frame demo_ext [1] 1 [7] = sealed_frame demo_ext [1] n [7] \<or>
    \<not> rc_keyset (crossed demo_ext [1] (\<lambda>_. [7])) \<and>
      sealed_frame demo_ext [1] 1 [7] = sealed_frame demo_ext (replicate (length [1 :: byte]) 0) n [7]"
  using raced_frames_sealed [OF crossed_reachable [of demo_ext "[1]" "\<lambda>_. [7]"], of "sealed_frame demo_ext [1] 1 [7]"]
  by (simp add: crossed_def)

theorem concurrent_sends_desync_witness:
  "\<exists>s. race_reach demo_ext (replicate 32 1) (\<lambda>i. [of_nat i]) s \<and> rc_open s \<and>
     session_decrypt demo_ext (next_recv (demo_session\<lparr>ss_recv := \<lparr>cph_key = Some (replicate 32 1), cph_nonce = 0\<rparr>\<rparr>))
       (sealed_frame demo_ext (replicate 32 1) (rc_nonce s + 5) [9]) =
     (Fail ''session: nonce mismatch'',
       next_recv (demo_session\<lparr>ss_recv := \<lparr>cph_key = Some (replicate 32 1), cph_nonce = 0\<rparr>\<rparr>))"
proof -
  let ?b = "demo_session\<lparr>ss_recv := \<lparr>cph_key = Some (replicate 32 1), cph_nonce = 0\<rparr>\<rparr>"
  have "has_recv_key ?b (replicate 32 1)" "cph_nonce (ss_recv ?b) = 0"
    by (simp_all add: has_recv_key_def aes_key_ok_def)
  from concurrent_sends_desync [OF demo_ext_laws(1) this, of "\<lambda>i. [of_nat i]"]
  obtain s where "race_reach demo_ext (replicate 32 1) (\<lambda>i. [of_nat i]) s" "rc_open s"
    "\<forall>j q. j < 2 ^ 64 - 1 \<longrightarrow>
      session_decrypt demo_ext (next_recv ?b) (sealed_frame demo_ext (replicate 32 1) (rc_nonce s + of_nat j) q) =
        (Fail ''session: nonce mismatch'', next_recv ?b)"
    by blast
  then show ?thesis
    by (intro exI [of _ s] conjI) (auto dest!: spec [of _ 5])
qed

theorem raced_delivery_witness:
  "\<exists>order ws. set order = {0, 1} \<and>
     rc_wire (crossed demo_ext (replicate 32 1) (\<lambda>i. [of_nat i])) =
       map (\<lambda>r. sealed_frame demo_ext (replicate 32 1) (of_nat r) [of_nat (order ! r)]) ws \<and> ws \<noteq> [0..<length ws]"
proof -
  let ?b = "demo_session\<lparr>ss_recv := \<lparr>cph_key = Some (replicate 32 1), cph_nonce = 0\<rparr>\<rparr>" and ?ps = "\<lambda>i. [of_nat i] :: bytes"
  let ?s = "crossed demo_ext (replicate 32 1) ?ps"
  have b: "has_recv_key ?b (replicate 32 1)" "cph_nonce (ss_recv ?b) = 0"
    by (simp_all add: has_recv_key_def aes_key_ok_def)
  have t: "{i. rc_threads ?s i \<noteq> Want (?ps i)} = {0, 1}" "rc_keyset ?s" by (auto simp: crossed_def race_init_def)
  have run: "fst (run (session_decrypt demo_ext) ?b (rc_wire ?s)) = [Fail ''session: nonce mismatch'', Inr (?ps 0)]"
    using b by (simp add: crossed_def decrypt_frame [OF demo_ext_laws(1) b(1)])
  obtain order ws where o: "set order = {0, 1}" "rc_wire ?s = map (\<lambda>r. sealed_frame demo_ext (replicate 32 1) (of_nat r) (?ps (order ! r))) ws"
    "fst (run (session_decrypt demo_ext) ?b (rc_wire ?s)) = map (\<lambda>r. Inr (?ps (order ! r))) ws \<longleftrightarrow> ws = [0..<length ws]"
    using raced_delivery [OF demo_ext_laws(1) b crossed_reachable t(2), unfolded t(1)] by auto
  have "ws \<noteq> [0..<length ws]"
  proof
    assume "ws = [0..<length ws]"
    with o(3) run have "map (\<lambda>r. Inr (?ps (order ! r))) ws = [Fail ''session: nonce mismatch'', Inr (?ps 0)]" by metis
    then show False by auto
  qed
  with o(1,2) show ?thesis by blast
qed

end
