(* ===== verification/Walk.thy ===== *)
theory Walk
  imports Authority
begin

text \<open>
  The whole client as a state machine, and a walk over everything it does.

  The steps of the machine are the frames it handles, the connections it accepts and dials, the ends of
  its sessions, the lines typed and the requests of the local user, in any order.  The locale
  \<open>client_footprint\<close> states what a relation of states has to satisfy for the basic operations (a
  statement on a table, a frame sent or opened, a change of the session map); every handler, every
  route and every step of the machine then satisfies it, which is proved here once.
\<close>

subsection \<open>The client as a state machine\<close>

text \<open>One frame read: decrypted with the session's receiving half and, if that succeeds, handled.\<close>

definition handle_frame :: "ext \<Rightarrow> nat \<Rightarrow> key \<Rightarrow> bytes \<Rightarrow> client \<Rightarrow> unit result \<times> client" where
  "handle_frame x r pubKey data c =
     (let (plain, s) = session_decrypt x (cl_heap c r) data
      in catchS (plain, set_session r s c) (\<lambda>_ c. (Inr (), c)) (\<lambda>plain c. handleDecrypted x plain r pubKey c))"

lemma read_frames_step:
  "read_frames x r k (data # frames) c = bindS (handle_frame x r k data c) (\<lambda>_ c. read_frames x r k frames c)"
proof (cases "session_decrypt x (cl_heap c r) data")
  case (Pair q s)
  then show ?thesis
  proof (cases q)
    case (Inl e)
    with Pair show ?thesis by (cases e) (simp_all add: handle_frame_def)
  qed (simp add: handle_frame_def)
qed

text \<open>\<open>handleWS\<close> up to the read loop: the session it opened, if it opened one.\<close>

definition accept_conn ::
  "ext \<Rightarrow> gostring \<Rightarrow> gostring \<Rightarrow> conn option \<Rightarrow> client \<Rightarrow> nat option result \<times> client" where
  "accept_conn x path remoteAddr upgraded c =
     bindS (admit x path remoteAddr c) (\<lambda>a c.
       case a of
         Inl rep \<Rightarrow> (Inr None, c)
       | Inr (pubKey, status) \<Rightarrow>
           (case upgraded of
              None \<Rightarrow> (Inr None, c)
            | Some cn \<Rightarrow>
                bindS (closeExistingSession x pubKey c) (\<lambda>_ c.
                catchS (open_session x cn pubKey status c) (\<lambda>_ c. (Inr None, c)) (\<lambda>r c. (Inr (Some r), c)))))"

text \<open>
  The steps of a running client, each atomic: a request on one of the routes, a connection accepted or
  refused, a session dialled, a frame read and handled, the end of a session, a line typed into the
  terminal, and time passing.  Frames of different sessions, requests and connections interleave
  freely.
\<close>

inductive client_step :: "ext \<Rightarrow> client \<Rightarrow> client \<Rightarrow> bool" for x where
  request: "(pattern, h) \<in> set registerRoutes \<Longrightarrow> client_step x c (snd (h x rq c))"
| connection: "client_step x c (snd (accept_conn x path remote upgraded c))"
| dialled: "client_step x c (snd (connectSession x addr result c))"
| frame: "client_step x c (snd (handle_frame x r (peerPubKey (cl_heap c r)) data c))"
| ended: "client_step x c (snd (teardown x r (peerPubKey (cl_heap c r)) c))"
| typed: "client_step x c (snd (sendToAll x line c))"
| typed_peer: "client_step x c (snd (peerWriteLoop x r [line] c))"
| clock: "tick c \<le> t \<Longrightarrow> client_step x c (c\<lparr>tick := t\<rparr>)"

subsection \<open>Sessions that may be registered\<close>

text \<open>A session that may be registered: it exists, has a connection, and its peer is not ourselves.\<close>

definition fit :: "nat \<Rightarrow> client \<Rightarrow> bool" where
  "fit r c \<longleftrightarrow> r < cl_next c \<and> ss_conn (cl_heap c r) \<noteq> None \<and> peerPubKey (cl_heap c r) \<noteq> own_key c"

lemma shake_fit:
  assumes "shake x initiator cn st c = (Inr r, d)"
  shows "fit r d"
  using shake_spec [OF assms] by (auto simp: fit_def conn_live_def)

lemma register_dialled_same:
  "register_dialled x addr r c = (Inr r', d) \<Longrightarrow> r' = r"
  by (auto simp: register_dialled_def bindS_def catchS_def Let_def split: sum.splits prod.splits fault.splits if_splits)

lemma admitted_not_self:
  assumes "admit x path remote c = (Inr (Inr (k, st)), d)"
  shows "k \<noteq> own_key d"
  using admit_spec [OF assms] by (simp add: kept_def)

subsection \<open>The walk\<close>

locale client_footprint = info_footprint R x for R :: "client \<Rightarrow> client \<Rightarrow> bool" and x +
  assumes ticked: "tick c \<le> t \<Longrightarrow> R c (c\<lparr>tick := t\<rparr>)"
    and msg_get: "R c (snd (message_Get x (secret_of c) i c))"
    and msg_del: "R c (snd (message_Delete x (secret_of c) i c))"
    and msg_upd: "R c (snd (message_Update x (secret_of c) i n msg c))"
    and msg_put: "R c (snd (snd (message_Put x (secret_of c) n msg c)))"
    and atts: "R c (snd (snd (StoreAttachments x sec mt as c)))"
    and found: "R c (snd (message_Search x (secret_of c) q limit c))"
    and out_put: "R c (snd (outbox_Put x k raw (secret_of c) c))"
    and out_del: "R c (snd (outbox_Delete x i c))"
    and out_retry: "R c (snd (IncrementRetry x i c))"
    and prof: "R c (snd (profile_Update x n i c))"
    and pending: "R c (c\<lparr>cl_pendingFiles := pf\<rparr>)"
    and limited: "R c (set_session r ((cl_heap c r)\<lparr>ss_msgLimiter := l\<rparr>) c)"
    and opened: "R c (set_session r (snd (session_decrypt x (cl_heap c r) data)) c)"
    and closed: "R c (set_session r (snd (closeConn (cl_heap c r))) c)"
    and dropped: "R c (drop_conn r c)"
    and forget: "R c (sessions_Delete k c)"
    and enter: "fit r c \<Longrightarrow> k \<noteq> own_key c \<Longrightarrow> R c (sessions_Store k r c)"
    and shaken: "shake x initiator cn st c = (s, d) \<Longrightarrow> R c d"
    and fit_kept: "R c d \<Longrightarrow> fit r c \<Longrightarrow> fit r d"
    and own_kept: "R c d \<Longrightarrow> own_key d = own_key c"
begin

lemma walk_queue: "R c (snd (outbox_Get x k sec c))" "R c (snd (outbox_List x c))"
  by (auto simp: outbox_Get_def outbox_List_def db_query_eq liftR_def bindS_def ticked split: prod.splits sum.splits)

lemma walk_getName: "R c (snd (getName x c))"
  by (simp add: getName_frame ticked)

lemma walk_setName: "R c (setName x n c)"
proof -
  obtain i c1 where i: "client_Info x c = (i, c1)" by fastforce
  have "R c c1" using info [of c] i by simp
  then show ?thesis unfolding setName_def i Let_def prod.case by (rule chain [OF _ prof])
qed

lemma walk_let:
  assumes "R c (snd m)" "\<And>v d. m = (v, d) \<Longrightarrow> R d (snd (f v d))"
  shows "R c (snd (case m of (v, d) \<Rightarrow> f v d))"
  using assms by (cases m) (auto intro: chain)

lemma walk_let3:
  assumes "R c (snd (snd m))" "\<And>u v d. R d (snd (f u v d))"
  shows "R c (snd (case m of (u, v, d) \<Rightarrow> f u v d))"
  using assms by (cases m) (auto intro: chain)

lemma walk_own_message_signal: "R c (snd (own_message_signal x msg c))"
proof -
  let ?m = "msg\<lparr>msg_FromPubKey := own_key c\<rparr>"
  have rest: "R d (snd (bindS (ignoreS (put, d)) (\<lambda>_ c.
      bindS (wrapS ''encode message'' (liftR (Encode m) c)) (\<lambda>payload c.
      wrapS ''client: signal'' (liftR (signal_New Message (own_key c) uuid_Nil payload) c)))))"
    for d m and put :: "uuid result"
    by (intro bind ignore ret wrap lift)
  show ?thesis
    unfolding own_message_signal_def Let_def
  proof (rule walk_let [OF walk_getName])
    fix name d
    obtain put m e where p: "message_Put x (secret_of d) name ?m d = (put, m, e)" using prod_cases3 by blast
    have "R d e" using msg_put [of d name ?m] p by simp
    then show "R d (snd (case message_Put x (secret_of d) name ?m d of (put, msg, c) \<Rightarrow>
        bindS (ignoreS (put, c)) (\<lambda>_ c. bindS (wrapS ''encode message'' (liftR (Encode msg) c)) (\<lambda>payload c.
          wrapS ''client: signal'' (liftR (signal_New Message (own_key c) uuid_Nil payload) c)))))"
      unfolding p prod.case by (rule chain [OF _ rest])
  qed
qed

lemma walk_sendMessage: "R c (snd (sendMessage x r msg c))"
  unfolding sendMessage_def by (rule bind [OF walk_own_message_signal sends])

lemma walk_queueSignal: "R c (snd (queueSignal x k sig c))"
  unfolding queueSignal_def by (rule bind [OF wrap [OF out_put] ret])

lemma walk_sendMessageToPeer: "R c (snd (sendMessageToPeer x k msg c))"
  unfolding sendMessageToPeer_def
  by (rule bind [OF walk_own_message_signal])
    (auto intro: walk_queueSignal sends split: option.split)

lemma walk_send_chunks: "R c (snd (send_chunks x r i ds c))"
proof (induction ds arbitrary: c)
  case (Cons d ds)
  show ?case
    unfolding send_chunks.simps
    by (rule cond [OF Cons], rule catch [OF sends],
        rule bind [OF wrap [OF walk_queueSignal] Cons], rule Cons)
qed (simp add: same)

lemma walk_sendFile: "R c (snd (sendFile x r i n mime sz data c))"
  unfolding sendFile_def
  by (rule bind [OF lift], rule bind [OF wrap [OF lift]],
      rule bind [OF wrap [OF sends]], rule bind [OF walk_send_chunks],
      rule cond [OF ret ret])

lemma walk_flush_entries: "R c (snd (flush_entries x r es c))"
proof (induction es arbitrary: c)
  case (Cons e es)
  show ?case
    unfolding flush_entries.simps
    by (rule catch [OF sends], rule ignore [OF out_retry],
        rule bind [OF ignore [OF out_del] Cons])
qed (simp add: same)

lemma walk_flushOutbox: "R c (snd (flushOutbox x k c))"
  unfolding flushOutbox_def
  by (rule catch [OF walk_queue(1) ret])
    (auto intro: same walk_flush_entries split: option.split)

lemma walk_broadcast:
  assumes "\<And>r p c. R c (snd (h r p c))"
  shows "R c (snd (broadcast x sig h c))"
  unfolding broadcast_def
  by (rule catch [OF lift ret], rule loop)
    (auto split: prod.split intro!: catch [OF sends assms ret])

lemma walk_broadcasts:
  "R c (snd (broadcastDelete x i c))" "R c (snd (broadcastUpdate x i ct c))"
  "R c (snd (broadcastInfoChanged x c))"
  unfolding broadcastDelete_def broadcastUpdate_def broadcastInfoChanged_def
  by (intro walk_broadcast ret ignore walk_queueSignal)+

lemma walk_Now: "R c (snd (Now x c))"
  by (simp add: Now_def ticked)

lemma walk_NewMessage: "R c (snd (NewMessage x n content atts c))"
  by (simp add: NewMessage_def Now_def uuid_New_def ticked)

lemma walk_sendToAll: "R c (snd (sendToAll x content c))"
proof -
  have one: "R d (snd (let (msg, c) = NewMessage x n content [] d in ignoreS (sendMessage x r (msg\<lparr>msg_Time := now\<rparr>) c)))"
    for d n r now
    unfolding Let_def by (rule walk_let [OF walk_NewMessage]) (rule ignore [OF walk_sendMessage])
  show ?thesis
    unfolding sendToAll_def Let_def
    by (rule walk_let [OF walk_Now], rule loop) (use one in \<open>auto simp: Let_def split: prod.split\<close>)
qed

text \<open>Receiving.\<close>

lemma walk_name: "R c (snd (displayNameForPubKey x k c))"
  by (simp add: displayNameForPubKey_def peers_Get_eq ticked)

lemma walk_verify:
  "R c (snd (verifyAndDelete x s k c))" "R c (snd (verifyAndUpdate x s k c))"
proof -
  have author: "R c (snd (verifyAuthor x i k c))" for i
    unfolding verifyAuthor_def by (rule bind [OF wrap [OF msg_get] ret])
  show "R c (snd (verifyAndDelete x s k c))"
    unfolding verifyAndDelete_def by (rule bind [OF author wrap [OF msg_del]])
  show "R c (snd (verifyAndUpdate x s k c))"
    unfolding verifyAndUpdate_def Let_def
    by (rule bind [OF author], rule walk_let [OF walk_getName], rule wrap [OF msg_upd])
qed

lemma walk_handleMessage: "R c (snd (handleMessage x s k c))"
proof -
  have put: "R d (snd (case message_Put x (secret_of d) n m d of (put, msg, c) \<Rightarrow>
      bindS (ignoreS (put, c)) (\<lambda>_ c. (Inr (), snd (getName x c)))))" for d n m
  proof -
    obtain put m' e where p: "message_Put x (secret_of d) n m d = (put, m', e)" using prod_cases3 by blast
    have "R d e" using msg_put [of d n m] p by simp
    moreover have "R e (snd (bindS (ignoreS (put, e)) (\<lambda>_ c. (Inr (), snd (getName x c)))))"
      by (rule bind [OF ignore [OF ret]]) (simp add: walk_getName)
    ultimately show ?thesis unfolding p prod.case by (rule chain)
  qed
  show ?thesis
    unfolding handleMessage_def Let_def
    by (rule catch [OF lift ret], rule walk_let [OF walk_name put])
qed

lemma walk_handleSignal: "R c (snd (handleSignal x s k c))"
proof (cases "sig_Type s \<in> {InfoRequest, InfoResponse, InfoChanged, PeerAccepted}")
  case True
  then show ?thesis by (rule info_signal)
next
  case False
  have meta: "R c (snd (catchS (liftR (decodeFileMeta (sig_Content s)) c) (\<lambda>_ c. (Inr (), c)) (\<lambda>meta c.
      (Inr (), c\<lparr>cl_pendingFiles := (cl_pendingFiles c)(sig_ID s :=
         Some \<lparr>pnd_meta = meta, pnd_received = 0, pnd_buf = []\<rparr>)\<rparr>))))"
    by (rule catch [OF lift ret]) (simp add: pending)
  consider "sig_Type s = Message" | "sig_Type s = FileMeta" | "sig_Type s = Delete" | "sig_Type s = Update"
    | "sig_Type s \<notin> {Message, FileMeta, Delete, Update, InfoRequest, InfoResponse, InfoChanged, PeerAccepted}"
    using False by blast
  then show ?thesis
    using walk_handleMessage meta ignore [OF walk_verify(1)] ignore [OF walk_verify(2)] same
    by cases (simp_all add: handleSignal_cases)
qed

lemma walk_finalizeFile: "R c (snd (finalizeFile x i pf c))"
proof -
  obtain q as d where p: "StoreAttachments x (secret_of c) [] [\<lparr>att_ID = i, att_Name = fm_Name (pnd_meta pf),
      att_MIMEType = fm_MIME (pnd_meta pf), att_Size = fm_Size (pnd_meta pf), att_Data = pnd_buf pf\<rparr>] c = (q, as, d)"
    using prod_cases3 by blast
  have "R c d" using atts [of c "secret_of c" "[]"] p by (metis snd_conv)
  from chain [OF this pending] show ?thesis
    unfolding finalizeFile_def Let_def p prod.case by simp
qed

lemma walk_handleFileChunk: "R c (snd (handleFileChunk x plain c))"
  unfolding handleFileChunk_def Let_def
  by (auto intro: same pending chain [OF pending walk_finalizeFile] split: option.split)

lemma walk_handleDecrypted: "R c (snd (handleDecrypted x plain r k c))"
proof -
  have allowed: "R d (snd (case Now x d of (now, c) \<Rightarrow>
      (case Allow now (ss_msgLimiter (cl_heap c r)) of (allowed, l) \<Rightarrow>
        bindS (allowed, set_session r ((cl_heap c r)\<lparr>ss_msgLimiter := l\<rparr>) c)
          (\<lambda>ok c. if ok then handleSignal x s k c else (Inr (), c)))))" for d s
  proof (rule walk_let [OF walk_Now])
    fix now :: int and e :: client
    obtain a l where a: "Allow now (ss_msgLimiter (cl_heap e r)) = (a, l)" by fastforce
    note 1 = limited [of e r l]
    show "R e (snd (case Allow now (ss_msgLimiter (cl_heap e r)) of (allowed, l) \<Rightarrow>
        bindS (allowed, set_session r ((cl_heap e r)\<lparr>ss_msgLimiter := l\<rparr>) e)
          (\<lambda>ok c. if ok then handleSignal x s k c else (Inr (), c))))"
      unfolding a prod.case
      by (rule bind) (simp_all add: 1 walk_handleSignal same)
  qed
  have signal: "R c (snd (catchS (liftR (signal_Parse plain) c) (\<lambda>_ c. (Inr (), c)) (\<lambda>sig c.
      if sess_status r c \<noteq> Accepted then
        (if sig_Type sig \<in> {InfoRequest, InfoResponse, InfoChanged, PeerAccepted}
         then handleSignal x sig k c else (Inr (), c))
      else (let (now, c) = Now x c; (allowed, l) = Allow now (ss_msgLimiter (cl_heap c r));
                c = set_session r ((cl_heap c r)\<lparr>ss_msgLimiter := l\<rparr>) c
            in bindS (allowed, c) (\<lambda>ok c. if ok then handleSignal x sig k c else (Inr (), c))))))" for plain
    unfolding Let_def
    by (rule catch [OF lift ret], rule cond, rule cond)
      (rule walk_handleSignal ret allowed)+
  show ?thesis
    by (cases plain) (auto simp: handleDecrypted_def same walk_handleFileChunk intro: signal)
qed

lemma walk_handle_frame: "R c (snd (handle_frame x r k data c))"
proof -
  obtain q s where d: "session_decrypt x (cl_heap c r) data = (q, s)" by fastforce
  then have 1: "R c (set_session r s c)" using opened [of c r data] by simp
  show ?thesis
    unfolding handle_frame_def d Let_def prod.case
    by (rule catch) (simp_all add: 1 same walk_handleDecrypted)
qed

lemma walk_read_frames: "R c (snd (read_frames x r k frames c))"
proof (induction frames arbitrary: c)
  case (Cons data frames)
  show ?case unfolding read_frames_step by (rule bind [OF walk_handle_frame Cons])
qed (simp add: same)

text \<open>Sessions.\<close>

lemma fit_bind:
  assumes "fit r c" "R c (snd m)" "\<And>v d. m = (Inr v, d) \<Longrightarrow> fit r d \<Longrightarrow> R d (snd (f v d))"
  shows "R c (snd (bindS m f))"
  using assms by (intro bind [OF assms(2)]) (metis fit_kept snd_conv)

lemma walk_touch_peer: "R c (snd (touch_peer x k c))"
  unfolding touch_peer_def Let_def
  by (rule catch [OF peer_get ret], rule walk_let [OF walk_Now], rule ignore [OF peer_add])

lemma walk_name_peer: "R c (snd (name_peer x k r c))"
  unfolding name_peer_def by (rule catch [OF peer_get ret], rule ignore [OF peer_add])

lemma walk_close_session: "R c (snd (close_session r c))"
  using closed [of c r] by (auto simp: close_session_def split: prod.split)

lemma walk_teardown: "R c (snd (teardown x r k c))"
  unfolding teardown_def
  by (rule chain [OF forget], rule bind [OF walk_touch_peer walk_close_session])

lemma walk_closeExistingSession: "R c (snd (closeExistingSession x k c))"
  by (auto simp: closeExistingSession_def same intro: walk_teardown [unfolded teardown_def] split: option.split)

lemma walk_readLoop: "R c (snd (readLoop x r frames c))"
  unfolding readLoop_def Let_def
  by (rule walk_let [OF walk_read_frames], rule bind [OF walk_teardown ret])

lemma walk_admit: "R c (snd (admit x path remote c))"
proof (rule admit_cases [of x path remote c])
  fix k host port
  assume found: "isValidPubKey (TrimPrefix path transport)"
    "FromHex (TrimPrefix path transport) = Inr k" "k \<noteq> own_key c" "SplitHostPort remote = Some (host, port)"
  have answer: "R d (snd (case found of
        None \<Rightarrow> (Inr (Inl (HttpError 500 ''internal error'')), d)
      | Some status \<Rightarrow>
          if status = Rejected then (Inr (Inl (HttpError 403 ''forbidden'')), d)
          else if sessions_Load k d \<noteq> None then (Inr (Inl (HttpError 409 ''session already active'')), d)
          else (Inr (Inr (k, status)), d)))" for d found
    by (cases found) (simp_all add: same)
  show ?thesis
    unfolding admit_found [OF found]
    by (rule bind [OF catch [OF peer_get] answer], rule cond [OF ret],
        rule catch [OF peer_add ret ret], rule ret)
qed (simp add: same)

lemma shake_bind:
  assumes "\<And>r d. R c d \<Longrightarrow> fit r d \<Longrightarrow> R d (snd (f r d))"
  shows "R c (snd (bindS (wrapS msg (shake x initiator cn st c)) f))"
    "R c (snd (bindS (shake x initiator cn st c) f))"
proof -
  obtain q d where sh: "shake x initiator cn st c = (q, d)" by fastforce
  note sp = shaken [OF sh] shake_fit [of x initiator cn st c]
  show "R c (snd (bindS (wrapS msg (shake x initiator cn st c)) f))"
    "R c (snd (bindS (shake x initiator cn st c) f))"
    using sp unfolding sh by (auto intro!: bind assms)
qed

lemma walk_opened:
  assumes "k \<noteq> own_key c" "fit r c"
  shows "R c (snd (let c = sessions_Store k r c in
       bindS (name_peer x k r c) (\<lambda>_ c.
       bindS (flushOutbox x k c) (\<lambda>_ c.
       bindS (if st = Pending then requestPeerInfo x r c else (Inr (), c)) (\<lambda>_ c. (Inr r, c))))))"
  unfolding Let_def
  by (rule chain [OF enter [OF assms(2,1)]], rule bind [OF walk_name_peer],
      rule bind [OF walk_flushOutbox], rule bind) (auto intro: request same)

lemma walk_open_session:
  assumes "k \<noteq> own_key c"
  shows "R c (snd (open_session x cn k st c))"
  unfolding open_session_def
  by (rule shake_bind(2), rule walk_opened) (use assms in \<open>simp_all add: own_kept\<close>)

lemma open_session_fit:
  assumes "k \<noteq> own_key c" "open_session x cn k st c = (Inr r, d)"
  shows "fit r d"
proof -
  obtain q e where sh: "shake x False cn st c = (q, e)" by fastforce
  then have q: "q = Inr r"
    using assms(2) by (cases q) (auto simp: open_session_def Let_def bindS_def split: sum.splits prod.splits if_splits)
  then have f: "fit r e" "k \<noteq> own_key e" using shaken [OF sh] shake_fit sh assms(1) own_kept by auto
  have "R e d" using walk_opened [OF f(2,1), of st] assms(2) by (simp add: open_session_def sh q)
  then show ?thesis using f(1) by (rule fit_kept)
qed

lemma walk_storeSession:
  assumes "fit r c"
  shows "R c (snd (storeSession x r c))"
proof -
  have step: "R d (snd (flushOutbox x k (sessions_Store k r d)))" if "fit r d" "k \<noteq> own_key d" for k d
    by (rule chain [OF enter [OF that] walk_flushOutbox])
  let ?k = "peerPubKey (cl_heap c r)"
  let ?m = "catchS (peers_Get x ?k c)
      (\<lambda>_ c. (Inr (), set_session r (setStatus Pending (cl_heap c r)) c))
      (\<lambda>peer c. ignoreS (peers_Add x (peer\<lparr>kp_Name := peerName (cl_heap (set_session r (setStatus (kp_Status peer)
         (cl_heap c r)) c) r)\<rparr>) (set_session r (setStatus (kp_Status peer) (cl_heap c r)) c)))"
  have m: "R c (snd ?m)"
    by (rule catch [OF peer_get])
      (simp add: status, rule chain [OF status ignore [OF peer_add]])
  have "R d (snd (flushOutbox x ?k (sessions_Store ?k r d)))" if "?m = (Inr v, d)" for v d
  proof -
    have 1: "R c d" using m unfolding that by simp
    then have "?k \<noteq> own_key d" using assms by (simp add: own_kept fit_def)
    with fit_kept [OF 1 assms] show ?thesis by (rule step)
  qed
  then show ?thesis
    unfolding storeSession_def Let_def
    by (intro cond [OF ret] bind [OF m])
qed

lemma walk_register_dialled:
  assumes "fit r c"
  shows "R c (snd (register_dialled x addr r c))"
  unfolding register_dialled_def Let_def
proof (rule fit_bind [OF assms catch [OF peer_get ret ret]])
  fix isNew d
  assume "fit r d"
  then show "R d (snd (bindS (if isNew
       then ignoreS (peers_Add x \<lparr>kp_PeerIP = parsePeerIP x addr, kp_PubKey = peerPubKey (cl_heap c r),
              kp_Name = peerName (cl_heap d r), kp_Nickname = [], kp_Status = Accepted,
              kp_Online = False, kp_LastSeen = zero_time, kp_ProfilePic = uuid_Nil\<rparr> d)
       else (Inr (), d)) (\<lambda>_ c.
    catchS (storeSession x r c) (\<lambda>e c. (Inl (Err (Wrap ''store session'' e)), drop_conn r c))
      (\<lambda>_ c. if isNew then bindS (requestPeerInfo x r (set_session r (setStatus Pending (cl_heap c r)) c)) (\<lambda>_ c. (Inr r, c))
             else (Inr r, c)))))"
    by (rule fit_bind [OF _ cond [OF ignore [OF peer_add] ret]],
        intro catch [OF walk_storeSession] cond
          chain [OF status bind [OF request ret]])
      (simp_all add: dropped same)
qed

lemma walk_connectSession: "R c (snd (connectSession x addr dialled c))"
proof (cases dialled)
  case (Connected cn)
  show ?thesis
    unfolding connectSession_def dialAndHandshake_def Connected dial.case
    by (rule shake_bind(1), rule walk_register_dialled)
qed (simp_all add: connectSession_def dialAndHandshake_def same)

lemma dialled_fit:
  assumes "dialAndHandshake x addr dialled c = (Inr r, d)"
  shows "fit r d"
proof -
  obtain cn where cn: "dialled = Connected cn" using assms by (cases dialled) (auto simp: dialAndHandshake_def split: if_splits)
  obtain q e where sh: "shake x True cn [] c = (q, e)" by fastforce
  obtain r' where q: "q = Inr r'" using assms sh cn by (cases q) (auto simp: dialAndHandshake_def)
  have reg: "register_dialled x addr r' e = (Inr r, d)" using assms sh cn q by (simp add: dialAndHandshake_def)
  have "fit r' e" using shake_fit sh q by blast
  moreover from this have "R e d" using walk_register_dialled [of r' e addr] reg by simp
  ultimately show ?thesis using fit_kept register_dialled_same [OF reg] by blast
qed

lemma walk_peerWriteLoop: "R c (snd (peerWriteLoop x r lines c))"
  unfolding peerWriteLoop_def Let_def
  by (rule loop, rule walk_let [OF walk_NewMessage], rule ignore [OF walk_sendMessage])

lemma walk_opening:
  assumes "k \<noteq> own_key c"
  shows "R c (snd (bindS (closeExistingSession x k c) (\<lambda>_ c.
    catchS (open_session x cn k st c) (\<lambda>_ c. (Inr None, c)) (\<lambda>r c. (Inr (Some r), c)))))"
proof (rule bind [OF walk_closeExistingSession])
  fix v e
  assume "closeExistingSession x k c = (Inr v, e)"
  then have "k \<noteq> own_key e" using own_kept [OF walk_closeExistingSession [of c k]] assms by simp
  from walk_open_session [OF this, of cn st]
  show "R e (snd (catchS (open_session x cn k st e) (\<lambda>_ c. (Inr None, c)) (\<lambda>r c. (Inr (Some r), c))))"
    by (rule catch [OF _ ret ret])
qed

lemma walk_accept_conn: "R c (snd (accept_conn x path remote upgraded c))"
  unfolding accept_conn_def
  by (rule bind [OF walk_admit])
    (auto intro: same walk_opening dest: admitted_not_self split: sum.split option.split prod.split)

text \<open>The interface of the local user.\<close>

lemma walk_with_pubKey:
  "(\<And>k d. R d (snd (f k d))) \<Longrightarrow> R c (snd (with_pubKey rq f c))"
  unfolding with_pubKey_def by (rule catch [OF lift ret])

lemma walk_with_id:
  "(\<And>i d. R d (snd (f i d))) \<Longrightarrow> R c (snd (with_id x rq f c))"
  unfolding with_id_def by (auto intro: same split: option.split)

lemma walk_updates:
  "R c (snd (updatePeerStatus st x rq c))" "R c (snd (updateSessionStatus k st c))"
  "R c (snd (adminSetNickname x rq c))"
proof -
  have saved: "R d (snd (catchS (peers_Get x k d) (\<lambda>_ c. respond (HttpError 404 ''peer not found'') c)
      (\<lambda>peer c. catchS (peers_Add x (g peer) c) (\<lambda>e c. respond (HttpErrorOf 500 e) c) (\<lambda>_ c. respond (JsonPeer (g peer)) c))))"
    for d k g
    by (rule catch [OF peer_get ret], rule catch [OF peer_add ret ret])
  show "R c (snd (updatePeerStatus st x rq c))"
    unfolding updatePeerStatus_def Let_def by (rule walk_with_pubKey, rule saved)
  show "R c (snd (adminSetNickname x rq c))"
    unfolding adminSetNickname_def Let_def
    by (rule walk_with_pubKey) (auto intro: same saved split: option.split)
  show "R c (snd (updateSessionStatus k st c))"
    unfolding updateSessionStatus_def
    by (auto intro: same chain [OF forget walk_close_session] status split: option.split)
qed

lemma walk_standing:
  "R c (snd (adminAcceptPeer x rq c))" "R c (snd (adminRejectPeer x rq c))"
  "R c (snd (adminDeleteSession x rq c))"
proof -
  have told: "R d (snd (catchS (liftR (signal_New PeerAccepted (own_key d) uuid_Nil []) d)
      (\<lambda>_ c. (Inr (reps @ [HttpError 500 ''an error happened'']), c))
      (\<lambda>sig c. case sessions_Load k c of None \<Rightarrow> (Inr reps, c)
        | Some r \<Rightarrow> bindS (ignoreS (sess_send x r sig c)) (\<lambda>_ c. (Inr reps, c)))))" for d k reps
    by (rule catch [OF lift ret])
      (auto intro: same bind [OF ignore [OF sends] ret] split: option.split)
  show "R c (snd (adminAcceptPeer x rq c))"
    unfolding adminAcceptPeer_def
    by (rule walk_with_pubKey, rule bind [OF walk_updates(1)], rule bind [OF walk_updates(2) told])
  show "R c (snd (adminRejectPeer x rq c))"
    unfolding adminRejectPeer_def
    by (rule walk_with_pubKey, rule bind [OF walk_updates(1)], rule bind [OF walk_updates(2) ret])
  show "R c (snd (adminDeleteSession x rq c))"
    unfolding adminDeleteSession_def
    by (rule walk_with_pubKey)
      (auto intro: same chain [OF forget bind [OF walk_close_session ret]]
        split: option.split)
qed

lemma walk_lists:
  "R c (snd (adminListPeers x rq c))" "R c (snd (adminListSessions x rq c))"
  "R c (snd (apiListMessages x rq c))" "R c (snd (adminListOutbox x rq c))"
proof -
  have out: "R c (snd (list_sessions x es c))" for es
  proof (induction es arbitrary: c)
    case (Cons e es)
    obtain k r where e: "e = (k, r)" by fastforce
    show ?case
      unfolding e list_sessions.simps Let_def
      by (rule walk_let [OF walk_name], rule walk_let [OF Cons]) (simp add: same)
  qed (simp add: same)
  then show "R c (snd (adminListSessions x rq c))"
    unfolding adminListSessions_def Let_def by (rule walk_let) (simp add: same)
  have "R c (snd (peers_List x c))" "R c (snd (chats_List x c))"
    by (auto simp: peers_List_def chats_List_def db_query_eq liftR_def bindS_def ticked split: sum.split)
  then show "R c (snd (adminListPeers x rq c))" "R c (snd (apiListMessages x rq c))"
    unfolding adminListPeers_def apiListMessages_def by (blast intro: catch ret)+
  show "R c (snd (adminListOutbox x rq c))"
    unfolding adminListOutbox_def by (rule catch [OF walk_queue(2) ret ret])
qed

lemma walk_connect: "R c (snd (apiConnectPeer x rq c))"
  unfolding apiConnectPeer_def
  by (auto intro!: same catch [OF lift] catch [OF walk_connectSession] split: option.split)

lemma walk_outbox_requests:
  "R c (snd (adminDeleteOutboxEntry x rq c))" "R c (snd (adminFlushOutbox x rq c))"
  unfolding adminDeleteOutboxEntry_def adminFlushOutbox_def
  by (rule walk_with_id, rule catch [OF out_del ret ret])
    (rule walk_with_pubKey, rule bind [OF walk_flushOutbox ret])

lemma walk_msgResponse: "R c (snd (msgResponse x m c))"
  unfolding msgResponse_def Let_def
  by (intro cond walk_let walk_getName peer_get ret)

lemma walk_msgResponses: "R c (snd (msgResponses x ms c))"
proof (induction ms arbitrary: c)
  case (Cons m ms)
  show ?case
    unfolding msgResponses.simps Let_def
    by (rule walk_let [OF walk_msgResponse], rule walk_let [OF Cons]) (simp add: same)
qed (simp add: same)

lemma walk_getOwnedMessage: "R c (snd (getOwnedMessage x i c))"
  unfolding getOwnedMessage_def by (rule bind [OF wrap [OF msg_get] ret])

lemma walk_message_requests:
  "R c (snd (apiGetMessage x rq c))" "R c (snd (apiSearchMessages x rq c))"
  "R c (snd (apiDeleteMessage x rq c))" "R c (snd (apiGetFile x rq c))"
proof -
  show "R c (snd (apiGetMessage x rq c))"
    unfolding apiGetMessage_def Let_def
    by (rule walk_with_id, rule catch [OF msg_get ret], rule walk_let [OF walk_msgResponse])
      (rule ret)
  show "R c (snd (apiSearchMessages x rq c))"
    unfolding apiSearchMessages_def Let_def
    by (rule cond [OF ret], rule catch [OF found ret], rule walk_let [OF walk_msgResponses])
      (rule ret)
  show "R c (snd (apiDeleteMessage x rq c))"
    unfolding apiDeleteMessage_def
    by (rule walk_with_id, rule catch [OF walk_getOwnedMessage], rule cond [OF ret ret],
        rule catch [OF msg_del ret], rule bind [OF walk_broadcasts(1) ret])
  show "R c (snd (apiGetFile x rq c))"
    unfolding apiGetFile_def by (rule walk_with_id, rule catch [OF file_get ret ret])
qed

lemma walk_update_request: "R c (snd (apiUpdateMessage x rq c))"
proof -
  have upd: "R d (snd (case getName x d of (name, c) \<Rightarrow>
      catchS (message_Update x (secret_of c) i name m c) (\<lambda>e c. respond (HttpErrorOf 500 e) c)
        (\<lambda>_ c. bindS (broadcastUpdate x i content c) (\<lambda>_ c. respond (JsonStatus ''updated'') c))))" for d i m content
    by (rule walk_let [OF walk_getName], rule catch [OF msg_upd ret],
        rule bind [OF walk_broadcasts(2) ret])
  show ?thesis
    unfolding apiUpdateMessage_def Let_def
    by (rule walk_with_id, rule catch [OF walk_getOwnedMessage], rule cond [OF ret ret])
      (auto intro: same upd split: option.split)
qed

lemma walk_profile_write:
  "R c (snd (case getName x c of (name, c) \<Rightarrow> bindS (ignoreS (profile_Update x name i c)) f))"
  if "\<And>v d. R d (snd (f v d))" for f :: "unit \<Rightarrow> client \<Rightarrow> 'b result \<times> client"
  by (rule walk_let [OF walk_getName], rule bind [OF ignore [OF prof] that])

lemma walk_old_picture:
  "R c (snd (if p \<noteq> uuid_Nil then ignoreS (files_Delete x p c) else (Inr (), c)))"
  by (rule cond [OF ignore [OF file_del] ret])

lemma walk_store_picture: "R c (snd (store_picture x content c))"
proof (cases content)
  case (Some bytes)
  show ?thesis
    unfolding store_picture_def Some option.case Let_def
    by (rule walk_let [OF info], rule walk_let [OF fresh], rule catch [OF file_put ret],
        rule bind [OF walk_old_picture], rule walk_profile_write, rule ret)
qed (simp add: store_picture_def same)

lemma walk_profile_requests:
  "R c (snd (adminUpdateProfile x rq c))" "R c (snd (adminDeleteProfilePic x rq c))"
  "R c (snd (adminGetMe x rq c))"
proof -
  have named: "R c (if named then setName x n c else c)" for named n c
    using walk_setName same by simp
  have told: "R d (snd (case st of Inl rep \<Rightarrow> respond rep d
      | Inr _ \<Rightarrow> bindS (if b then broadcastInfoChanged x d else (Inr (), d)) (\<lambda>_ c. respond (JsonStatus ''info_changed'') c)))"
    for st d b
    by (cases st) (auto simp: same intro: bind [OF walk_broadcasts(3) ret])
  have pic: "R d (snd (case f of None \<Rightarrow> (Inr (Inr ()), d) | Some content \<Rightarrow> store_picture x content d))" for f d
    by (cases f) (simp_all add: same walk_store_picture)
  show "R c (snd (adminUpdateProfile x rq c))"
  proof (cases "rq_form rq")
    case (Some fo)
    show ?thesis
      unfolding adminUpdateProfile_def Some option.case Let_def
      by (rule chain [OF named], rule bind [OF pic told])
  qed (simp add: adminUpdateProfile_def same)
  show "R c (snd (adminDeleteProfilePic x rq c))"
    unfolding adminDeleteProfilePic_def Let_def
    by (rule walk_let [OF info], rule bind [OF walk_old_picture], rule walk_profile_write,
        rule bind [OF walk_broadcasts(3) ret])
  show "R c (snd (adminGetMe x rq c))"
    unfolding adminGetMe_def Let_def
    by (rule walk_let [OF info], rule cond [OF catch [OF file_get ret ret] ret])
qed

lemma walk_sendAttachments: "R c (snd (sendAttachments x k atts c))"
  unfolding sendAttachments_def
  by (auto intro!: same loop ignore walk_sendFile split: option.split)

lemma walk_new_ids: "R c (snd (new_ids x as c))"
proof (induction as arbitrary: c)
  case (Cons a as)
  show ?case
    unfolding new_ids.simps Let_def by (rule walk_let [OF fresh], rule walk_let [OF Cons]) (rule ret)
qed (simp add: same)

lemma walk_sent:
  "R c (snd (catchS (sendMessageToPeer x k msg c) (\<lambda>_ c. respond (HttpError 500 ''send failed'') c)
     (\<lambda>_ c. bindS (if atts \<noteq> []
        then bindS (sendAttachments x k atts c) (\<lambda>_ c.
          let (res, _, c) = StoreAttachments x (secret_of c) (x_uuid_String x (msg_ID msg)) atts c in ignoreS (res, c))
        else (Inr (), c)) (\<lambda>_ c. respond (JsonStatus st) c))))"
proof -
  have kept: "R d (snd (let (res, _, c) = StoreAttachments x sec m atts d in ignoreS (res, c)))"
    for d :: client and sec m
    using atts [of d sec m atts] by (auto simp: Let_def split: prod.split)
  show ?thesis
    by (rule catch [OF walk_sendMessageToPeer ret], rule bind [OF cond ret],
        rule bind [OF walk_sendAttachments kept], rule ret)
qed

lemma walk_send_request: "R c (snd (apiSendMessage x rq c))"
proof -
  have ids: "R d (snd (snd (case uuid_New x d of (i, c) \<Rightarrow> (case new_ids x atts c of
      (atts, c) \<Rightarrow> (msg\<lparr>msg_ID := i, msg_Attachments := map (\<lambda>a. a\<lparr>att_Data := []\<rparr>) atts\<rparr>, atts, c)))))" for d and msg :: message and atts :: "attachment list"
    using chain [OF fresh walk_new_ids] by (auto split: prod.split) (metis snd_conv)
  have attached: "R d (snd (snd (if atts \<noteq> []
      then (case uuid_New x d of (i, c) \<Rightarrow> (case new_ids x atts c of (atts, c) \<Rightarrow>
        (msg\<lparr>msg_ID := i, msg_Attachments := map (\<lambda>a. a\<lparr>att_Data := []\<rparr>) atts\<rparr>, atts, c)))
      else (msg, atts, d))))" for d and msg :: message and atts :: "attachment list"
    using ids same by simp
  show ?thesis
    unfolding apiSendMessage_def Let_def
    apply (rule walk_with_pubKey, rule cond [OF ret], rule catch [OF lift ret])
    subgoal for k d v e
      apply (cases v)
      apply (simp only: prod.case)
      apply (rule catch [OF peer_get ret], rule cond [OF ret], rule cond [OF ret])
      apply (rule walk_let [OF walk_NewMessage])
      apply (rule walk_let3 [OF attached walk_sent [unfolded Let_def]])
      done
    done
qed

lemma walk_localhostOnly:
  "(\<And>c. R c (snd (next x rq c))) \<Longrightarrow> R c (snd (localhostOnly next x rq c))"
  by (auto simp: localhostOnly_def Let_def same split: option.split)

lemma walk_routes:
  assumes "(pattern, h) \<in> set registerRoutes"
  shows "R c (snd (h x rq c))"
proof -
  have "\<exists>next. h = localhostOnly next \<and> (\<forall>c. R c (snd (next x rq c)))"
    using assms unfolding registerRoutes_def
    by (auto simp: walk_standing walk_lists walk_updates walk_connect walk_send_request walk_message_requests
        walk_update_request walk_outbox_requests walk_profile_requests)
  then show ?thesis using walk_localhostOnly by auto
qed

lemma walk_step:
  assumes "client_step x c c'"
  shows "R c c'"
  using assms
  by cases (auto simp: walk_routes walk_accept_conn walk_connectSession walk_handle_frame walk_teardown
      walk_sendToAll walk_peerWriteLoop ticked)

lemma walk_run:
  assumes "(client_step x)\<^sup>*\<^sup>* c c'"
  shows "R c c'"
  using assms by induction (auto intro: same chain walk_step)

end

end
