(* ===== verification/Soundness.thy ===== *)
theory Soundness
  imports Walk
begin

text \<open>
  The invariant of the client's state, and that every step of the state machine keeps it: the instance
  \<open>sound\<close> of the walk.
\<close>

subsection \<open>The invariant\<close>

definition sessions_wf :: "client \<Rightarrow> bool" where
  "sessions_wf c \<longleftrightarrow> distinct (map fst (cl_sessions c)) \<and>
     (\<forall>e \<in> set (cl_sessions c). fst e \<noteq> own_key c \<and> snd e < cl_next c \<and> ss_conn (cl_heap c (snd e)) \<noteq> None)"

definition client_inv :: "ext \<Rightarrow> client \<Rightarrow> bool" where
  "client_inv x c \<longleftrightarrow> store_inv c \<and> sessions_wf c \<and> cache_coherent x (secret_of c) c \<and> outbox_ok x (secret_of c) c"

text \<open>
  A step that keeps the invariant, our identity, who is at the other end of every session, and every
  session that has a connection.
\<close>

definition sound_step :: "ext \<Rightarrow> client \<Rightarrow> client \<Rightarrow> bool" where
  "sound_step x c c' \<longleftrightarrow> cl_Keys c' = cl_Keys c \<and> cl_next c \<le> cl_next c' \<and>
     (\<forall>j. ss_conn (cl_heap c j) \<noteq> None \<longrightarrow> ss_conn (cl_heap c' j) \<noteq> None) \<and>
     (\<forall>j < cl_next c. ss_peer (cl_heap c' j) = ss_peer (cl_heap c j)) \<and>
     (client_inv x c \<longrightarrow> client_inv x c')"

definition same_store :: "client \<Rightarrow> client \<Rightarrow> bool" where
  "same_store c c' \<longleftrightarrow> chats c' = chats c \<and> chat_search c' = chat_search c \<and> files c' = files c \<and>
     known_peers c' = known_peers c \<and> outbox c' = outbox c \<and> cache c' = cache c \<and> tick c \<le> tick c' \<and>
     cl_Keys c' = cl_Keys c"

lemma client_inv_cong:
  assumes "same_store c c'" "sessions_wf c \<Longrightarrow> sessions_wf c'" "client_inv x c"
  shows "client_inv x c'"
  using assms outbox_ok_cong [of x "secret_of c" c c'] coherent_cong [of c' c x "secret_of c"]
  by (simp add: same_store_def client_inv_def store_inv_def)

lemma sound_set_session:
  assumes "ss_conn (cl_heap c r) \<noteq> None \<Longrightarrow> ss_conn s \<noteq> None" "ss_peer s = ss_peer (cl_heap c r)"
  shows "sound_step x c (set_session r s c)"
proof -
  have "sessions_wf c \<Longrightarrow> sessions_wf (set_session r s c)"
    using assms(1) by (auto simp: sessions_wf_def set_session_def)
  moreover have "same_store c (set_session r s c)" by (simp add: same_store_def set_session_def)
  ultimately have "client_inv x c \<Longrightarrow> client_inv x (set_session r s c)"
    by (blast intro: client_inv_cong)
  with assms show ?thesis by (simp add: sound_step_def set_session_def)
qed

lemma sound_same_store:
  assumes "same_store c c'" "cl_heap c' = cl_heap c" "cl_next c' = cl_next c" "sessions_wf c \<Longrightarrow> sessions_wf c'"
  shows "sound_step x c c'"
  using client_inv_cong [OF assms(1,4), of x] assms(1-3) by (simp add: sound_step_def same_store_def)

subsection \<open>The store\<close>

text \<open>
  What every operation on messages, files and peers keeps: everything outside the store, the outbox,
  the primary keys; and the clock only moves on.
\<close>

definition calm :: "'z store_scheme \<Rightarrow> 'z store_scheme \<Rightarrow> bool" where
  "calm s s' \<longleftrightarrow> store_only s s' \<and> outbox s' = outbox s \<and> tick s \<le> tick s' \<and> (store_inv s \<longrightarrow> store_inv s')"

interpretation calm: store_footprint calm
proof
  show "calm s s" for s :: "'z store_scheme" by (simp add: calm_def so.same)
  show "calm s u" if "calm s t" "calm t u" for s t u :: "'z store_scheme"
    using that so.chain by (auto simp: calm_def)
qed (auto simp: calm_def store_only_def store_inv_def store_eqs chats_Update_def chats_Get_eq CacheLoad_def CacheStore_def cache_Delete_def
    files_Get_eq peers_Get_eq db_query_eq primary_keys Let_def)

lemma sound_store:
  assumes "calm c c'" "aead_laws x \<Longrightarrow> cache_coherent x (secret_of c) c \<Longrightarrow> cache_coherent x (secret_of c) c'"
  shows "sound_step x c c'"
proof -
  have "store_only c c'" using assms(1) by (simp add: calm_def)
  note same = store_only_client [OF this]
  have "client_inv x c \<Longrightarrow> client_inv x c'"
    using assms outbox_ok_cong [of x "secret_of c" c c']
    by (auto simp: client_inv_def sessions_wf_def same calm_def outbox_ok_def)
  then show ?thesis by (simp add: sound_step_def same)
qed

lemma sound_calm: "calm c c' \<Longrightarrow> chats c' = chats c \<Longrightarrow> cache c' = cache c \<Longrightarrow> sound_step x c c'"
  by (rule sound_store) (simp_all add: coherent_cong [of c' c])

lemma sound_ticked: "tick c \<le> t \<Longrightarrow> sound_step x c (c\<lparr>tick := t\<rparr>)"
  by (rule sound_calm) (simp_all add: calm_def store_only_def store_inv_def)

lemma sound_message_ops:
  "sound_step x c (snd (message_Get x (secret_of c) i c))"
  "sound_step x c (snd (message_Delete x (secret_of c) i c))"
  "sound_step x c (snd (message_Update x (secret_of c) i n m c))"
  "sound_step x c (snd (snd (message_Put x (secret_of c) n m c)))"
proof -
  obtain g d where g: "message_Get x (secret_of c) i c = (g, d)" by fastforce
  show "sound_step x c (snd (message_Get x (secret_of c) i c))"
    by (rule sound_store [OF calm.message_get]) (use message_Get_spec [OF _ g] g in auto)
  obtain q e where u: "message_Update x (secret_of c) i n m c = (q, e)" by fastforce
  show "sound_step x c (snd (message_Update x (secret_of c) i n m c))"
    by (rule sound_store [OF calm.message_update]) (use message_Update_spec [OF _ _ u g] u in auto)
  obtain q1 f where d: "message_Delete x (secret_of c) i c = (q1, f)" by fastforce
  show "sound_step x c (snd (message_Delete x (secret_of c) i c))"
    by (rule sound_store [OF calm.message_delete]) (use message_Delete_spec [OF _ d] d in auto)
  obtain q2 m' h where p: "message_Put x (secret_of c) n m c = (q2, m', h)" using prod_cases3 by blast
  show "sound_step x c (snd (snd (message_Put x (secret_of c) n m c)))"
    by (rule sound_store [OF calm.message_put]) (use message_Put_spec [OF _ _ p] p in auto)
qed

text \<open>Attachments touch neither the messages nor the cached texts.\<close>

definition off_chats :: "'z store_scheme \<Rightarrow> 'z store_scheme \<Rightarrow> bool" where
  "off_chats s s' \<longleftrightarrow> chats s' = chats s \<and> cache s' = cache s"

lemma store_atts_off_chats: "off_chats s (snd (snd (StoreAttachments x sec m as s)))"
proof (induction as arbitrary: s)
  case (Cons a as)
  obtain i s1 where i: "(if att_ID a = uuid_Nil then uuid_New x s else (att_ID a, s)) = (i, s1)" by fastforce
  then have 1: "off_chats s s1" by (auto simp: uuid_New_def off_chats_def split: if_splits)
  obtain q s2 where p: "files_PutWithID x sec i m (att_Data a) s1 = (q, s2)" by fastforce
  then have 2: "off_chats s s2" using 1 by (auto simp: files_PutWithID_eq off_chats_def Let_def split: if_splits)
  show ?case
    using i p 2 Cons [of s] Cons [of s2]
    by (auto simp: off_chats_def wrapR_def Let_def split: prod.splits sum.splits fault.splits)
qed (simp add: off_chats_def)

lemma sound_store_atts: "sound_step x c (snd (snd (StoreAttachments y sec m as c)))"
  using store_atts_off_chats [of c y sec m as] by (intro sound_calm [OF calm.store_atts]) (simp_all add: off_chats_def)

lemma sound_sess_send: "sound_step x c (snd (sess_send y r plain c))"
proof -
  have st: "steady c (snd (sess_send y r plain c))" by (rule steady_sess_send)
  note f = sess_send_frame [of y r plain c "fst (sess_send y r plain c)" "snd (sess_send y r plain c)"]
  have "sessions_wf c \<Longrightarrow> sessions_wf (snd (sess_send y r plain c))"
    using st by (auto simp: sessions_wf_def steady_def steady_session_def simp del: not_None_eq)
  moreover have "same_store c (snd (sess_send y r plain c))" using f by (simp add: same_store_def)
  ultimately have "client_inv x c \<Longrightarrow> client_inv x (snd (sess_send y r plain c))"
    by (blast intro: client_inv_cong)
  with st show ?thesis by (simp add: sound_step_def steady_def steady_session_def)
qed

lemma sound_tables:
  "sound_step x c (snd (peers_Get y k c))" "sound_step x c (snd (peers_Add y p c))"
  "sound_step x c (snd (files_Get y sec i c))" "sound_step x c (snd (files_PutWithID y sec i m d c))"
  "sound_step x c (snd (files_Delete y i c))"
proof -
  have off: "off_chats c (snd (peers_Get y k c))" "off_chats c (snd (peers_Add y p c))"
    "off_chats c (snd (files_Get y sec i c))" "off_chats c (snd (files_PutWithID y sec i m d c))"
    "off_chats c (snd (files_Delete y i c))"
    by (simp_all add: off_chats_def peers_Get_eq peers_Add_def files_Get_eq files_PutWithID_eq files_Delete_def
        db_exec_eq Let_def)
  from off show "sound_step x c (snd (peers_Get y k c))" "sound_step x c (snd (peers_Add y p c))"
    "sound_step x c (snd (files_Get y sec i c))" "sound_step x c (snd (files_PutWithID y sec i m d c))"
    "sound_step x c (snd (files_Delete y i c))"
    by (simp_all add: off_chats_def sound_calm calm.peer_get calm.peer_add calm.file_get calm.file_put calm.file_del)
qed

subsection \<open>The outbox, the profile and the sessions\<close>

lemma sound_outbox_write:
  assumes "store_only c c'" "off_chats c c'" "store_inv c \<Longrightarrow> store_inv c'"
    and "outbox_ok x (secret_of c) c \<Longrightarrow> outbox_ok x (secret_of c) c'"
  shows "sound_step x c c'"
  using assms coherent_cong [of c' c x "secret_of c"]
  by (auto simp: sound_step_def client_inv_def sessions_wf_def off_chats_def store_only_client [OF assms(1)])

lemma outbox_store_only:
  "store_only c (snd (outbox_Put x k raw sec c))" "store_only c (snd (outbox_Delete x i c))"
  "store_only c (snd (IncrementRetry x i c))"
  by (simp_all add: store_only_def outbox_Put_eq outbox_Delete_def IncrementRetry_def db_exec_eq Let_def)

lemma sound_outbox:
  "sound_step x c (snd (outbox_Put x k raw (secret_of c) c))" "sound_step x c (snd (outbox_Delete x i c))"
  "sound_step x c (snd (IncrementRetry x i c))"
proof -
  have off: "off_chats c (snd (outbox_Put x k raw sec c))" "off_chats c (snd (outbox_Delete x i c))"
    "off_chats c (snd (IncrementRetry x i c))" for sec
    by (simp_all add: off_chats_def outbox_Put_eq outbox_Delete_def IncrementRetry_def db_exec_eq Let_def)
  have inv: "store_inv (snd (outbox_Put x k raw sec c))" "store_inv (snd (outbox_Delete x i c))"
    "store_inv (snd (IncrementRetry x i c))" if "store_inv c" for sec
    using that by (simp_all add: store_inv_def store_eqs primary_keys)
  obtain q d where p: "outbox_Put x k raw (secret_of c) c = (q, d)" by fastforce
  have ok: "outbox_ok x (secret_of c) d" if "outbox_ok x (secret_of c) c"
    using ob.put_appends [OF that] ob.put_fails [OF that] p by (cases q) auto
  show "sound_step x c (snd (outbox_Put x k raw (secret_of c) c))"
    by (rule sound_outbox_write [OF outbox_store_only(1) off(1) inv(1)]) (simp_all add: ok p)
  obtain u e where e: "outbox_Delete x i c = (u, e)" by fastforce
  have ok: "outbox_ok x (secret_of c) e" if "outbox_ok x (secret_of c) c"
    using outbox_Delete_removes [OF that] outbox_Delete_fails [OF that] e by (cases u) auto
  show "sound_step x c (snd (outbox_Delete x i c))"
    by (rule sound_outbox_write [OF outbox_store_only(2) off(2) inv(2)]) (simp_all add: ok e)
  show "sound_step x c (snd (IncrementRetry x i c))"
    by (rule sound_outbox_write [OF outbox_store_only(3) off(3) inv(3)]) (simp_all add: IncrementRetry_queue)
qed

lemma sound_profile_Update: "sound_step x c (snd (profile_Update x n i c))"
proof -
  have "calm c (snd (profile_Update x n i c))" "off_chats c (snd (profile_Update x n i c))"
    by (auto simp: profile_Update_def calm_def off_chats_def store_only_def store_inv_def db_exec_eq ignoreS_def
        catchS_def bindS_def Let_def)
  then show ?thesis by (simp add: off_chats_def sound_calm)
qed

lemma sound_sessions_Delete: "sound_step x c (sessions_Delete k c)"
  by (rule sound_same_store)
    (auto simp: same_store_def sessions_wf_def sessions_Delete_def intro: distinct_map_filter)

lemma sound_sessions_Store: "fit r c \<Longrightarrow> k \<noteq> own_key c \<Longrightarrow> sound_step x c (sessions_Store k r c)"
  by (rule sound_same_store)
    (auto simp: same_store_def sessions_wf_def sessions_Store_def fit_def intro: distinct_map_filter)

lemma sound_shake:
  assumes "shake x initiator cn st c = (q, d)"
  shows "sound_step x c d"
proof (cases q)
  case (Inl e)
  with shake_spec [OF assms] sound_ticked show ?thesis by auto
next
  case (Inr r)
  with shake_spec [OF assms] obtain t s where
    d: "r = cl_next c" "d = c\<lparr>tick := t, cl_heap := (cl_heap c)(r := s), cl_next := Suc r\<rparr>"
    and s: "conn_live s" "peerPubKey s \<noteq> own_key c" and t: "tick c \<le> t"
    by auto
  have "ss_conn s \<noteq> None" using s(1) by (auto simp: conn_live_def)
  have "sessions_wf c \<Longrightarrow> sessions_wf d" using \<open>ss_conn s \<noteq> None\<close> by (auto simp: d sessions_wf_def)
  moreover have "same_store c d" using t by (simp add: d same_store_def)
  ultimately have "client_inv x c \<Longrightarrow> client_inv x d" by (blast intro: client_inv_cong)
  with s(2) \<open>ss_conn s \<noteq> None\<close> Inr show ?thesis by (simp add: d sound_step_def del: not_None_eq)
qed

interpretation sound: client_footprint "sound_step x" x for x
proof
  fix c d e :: client
  show "sound_step x c c" by (simp add: sound_step_def)
  show "sound_step x c d \<Longrightarrow> sound_step x d e \<Longrightarrow> sound_step x c e" by (auto simp: sound_step_def)
  show "sound_step x c d \<Longrightarrow> fit r c \<Longrightarrow> fit r d" for r
    by (auto simp: sound_step_def fit_def peerPubKey_def simp del: not_None_eq)
  show "sound_step x c d \<Longrightarrow> own_key d = own_key c" by (simp add: sound_step_def)
  show "sound_step x c (set_session r (setStatus st (cl_heap c r)) c)" for r st
    by (rule sound_set_session) (simp_all add: setStatus_def)
  show "sound_step x c (set_session r ((cl_heap c r)\<lparr>ss_msgLimiter := l\<rparr>) c)" for r l
    by (rule sound_set_session) simp_all
  show "sound_step x c (set_session r (snd (session_decrypt x (cl_heap c r) data)) c)" for r data
    by (rule sound_set_session) (auto simp: session_decrypt_def Let_def split: option.splits if_splits sum.splits)
  show "sound_step x c (set_session r (snd (closeConn (cl_heap c r))) c)" for r
    by (rule sound_set_session) (auto simp: closeConn_def Let_def split: option.splits)
  show "sound_step x c (drop_conn r c)" for r
    unfolding drop_conn_def by (rule sound_set_session) simp_all
  show "sound_step x c (snd (client_Info x c))" by (simp add: client_Info_frame sound_ticked)
  show "sound_step x c (snd (uuid_New x c))" by (simp add: uuid_New_def sound_ticked)
  show "sound_step x c (snd (message_Search x (secret_of c) q n c))" for q n
    by (rule sound_store [OF calm.search]) (rule message_Search_coherent)
  show "sound_step x c (c\<lparr>cl_pendingFiles := f\<rparr>)" for f
    by (rule sound_same_store) (simp_all add: same_store_def sessions_wf_def)
qed (simp_all add: sound_tables sound_sess_send sound_message_ops sound_store_atts sound_outbox sound_profile_Update
    sound_sessions_Delete sound_sessions_Store sound_ticked sound_shake)

end
