(* ===== verification/System.thy ===== *)
theory System
  imports Soundness
begin

text \<open>
  The invariant of \<open>Soundness\<close> holds in every state the client can reach, and the handlers that run for
  as long as a connection are runs of its state machine.
\<close>

subsection \<open>Reachable states\<close>

lemmas client_step_sound = sound.walk_step

lemmas client_run_sound = sound.walk_run

text \<open>
  C4: In every state the client can reach, through any interleaving of requests, connections, frames,
  typed lines and ends of sessions, the tables keep their primary keys, the cache holds nothing but
  what the database holds, the outbox can be read and is in order of time, the session map has at most
  one session per key, none for our own, and only sessions with a connection.  Our identity never
  changes, and no session ever changes its peer.
\<close>

theorem reachable_states_sound:
  assumes "client_inv x c" "(client_step x)\<^sup>*\<^sup>* c c'"
  shows "client_inv x c' \<and> cl_Keys c' = cl_Keys c \<and>
    (\<forall>r < cl_next c. peerPubKey (cl_heap c' r) = peerPubKey (cl_heap c r))"
  using client_run_sound [OF assms(2)] assms(1) by (simp add: sound_step_def peerPubKey_def)

lemma demo_client_inv: "client_inv demo_ext demo_client"
proof -
  have "own_key demo_client = 6" by (simp add: demo_client_def keys_of_seed_def) (simp add: demo_ext_def)
  then show ?thesis
    using demo_client_ok
    by (simp add: client_inv_def sessions_wf_def store_inv_def primary_key_def)
      (simp add: demo_client_def demo_session_def)
qed

definition demo_line :: gostring where
  "demo_line = str ''hi''"

theorem reachable_states_sound_witness:
  "client_inv demo_ext (snd (teardown demo_ext 0 9 (snd (sendToAll demo_ext demo_line demo_client)))) \<and>
   client_inv demo_ext (snd (sendToAll demo_ext demo_line demo_client))"
proof -
  let ?c = "snd (sendToAll demo_ext demo_line demo_client)"
  have 1: "(client_step demo_ext)\<^sup>*\<^sup>* demo_client ?c" by (intro r_into_rtranclp client_step.typed)
  have "peerPubKey (cl_heap ?c 0) = 9"
    using reachable_states_sound [OF demo_client_inv 1] by (simp add: demo_client_def demo_session_def peerPubKey_def)
  then have "(client_step demo_ext)\<^sup>*\<^sup>* demo_client (snd (teardown demo_ext 0 9 ?c))"
    using rtranclp.rtrancl_into_rtrancl [OF 1 client_step.ended [of demo_ext ?c 0]] by simp
  from reachable_states_sound [OF demo_client_inv this] reachable_states_sound [OF demo_client_inv 1]
  show ?thesis by simp
qed

subsection \<open>The handlers are runs of the state machine\<close>

lemma read_frames_run:
  assumes "r < cl_next c"
  shows "(client_step x)\<^sup>*\<^sup>* c (snd (read_frames x r (peerPubKey (cl_heap c r)) frames c))"
  using assms
proof (induction frames arbitrary: c)
  case (Cons data frames)
  let ?k = "peerPubKey (cl_heap c r)"
  obtain q d where h: "handle_frame x r ?k data c = (q, d)" by fastforce
  have 1: "client_step x c d" using client_step.frame [of x c r data] h by simp
  have d: "r < cl_next d" "peerPubKey (cl_heap d r) = ?k"
    using client_step_sound [OF 1] Cons.prems by (auto simp: sound_step_def peerPubKey_def)
  show ?case
    unfolding read_frames_step h
    using 1 Cons.IH [OF d(1)] d(2) by (cases q) (auto intro: converse_rtranclp_into_rtranclp)
qed simp

lemma readLoop_run:
  assumes "r < cl_next c"
  shows "(client_step x)\<^sup>*\<^sup>* c (snd (readLoop x r frames c))"
proof -
  let ?k = "peerPubKey (cl_heap c r)"
  obtain q d where f: "read_frames x r ?k frames c = (q, d)" by fastforce
  have 1: "(client_step x)\<^sup>*\<^sup>* c d" using read_frames_run [OF assms, of x frames] f by simp
  have "peerPubKey (cl_heap d r) = ?k"
    using client_run_sound [OF 1] assms by (simp add: sound_step_def peerPubKey_def)
  then have "client_step x d (snd (teardown x r ?k d))" using client_step.ended [of x d r] by simp
  moreover have "snd (readLoop x r frames c) = snd (teardown x r ?k d)"
    by (cases "teardown x r ?k d"; cases "fst (teardown x r ?k d)") (auto simp: readLoop_def f Let_def)
  ultimately show ?thesis using 1 by simp
qed

lemma accept_conn_fresh:
  assumes "accept_conn x path remote upgraded c = (Inr (Some r), d)"
  shows "r < cl_next d"
proof -
  obtain k st c1 cn u c2 where a: "admit x path remote c = (Inr (Inr (k, st)), c1)"
    and e: "closeExistingSession x k c1 = (Inr u, c2)" and o: "open_session x cn k st c2 = (Inr r, d)"
    using assms
    by (auto simp: accept_conn_def bindS_def catchS_def split: sum.splits prod.splits option.splits fault.splits)
  have "k \<noteq> own_key c2"
    using admitted_not_self [OF a] sound.own_kept [OF sound.walk_closeExistingSession [of x c1 k]] e by simp
  from sound.open_session_fit [OF this o] show ?thesis by (simp add: fit_def)
qed

text \<open>
  \<open>handleWS\<close>, from the admission of a connection over every frame read to the clean-up, is a run of
  the state machine, whatever happens on the way: so what holds in every reachable state holds
  between any two frames of it, while other steps of the client may come in between.
\<close>

lemma handleWS_run: "(client_step x)\<^sup>*\<^sup>* c (snd (handleWS x path remote upgraded frames c))"
proof -
  obtain q d where a: "accept_conn x path remote upgraded c = (q, d)" by fastforce
  have 1: "client_step x c d" using client_step.connection [of x c path remote upgraded] a by simp
  have "snd (handleWS x path remote upgraded frames c) =
      (case q of Inr (Some r) \<Rightarrow> snd (readLoop x r frames d) | _ \<Rightarrow> d)"
    using a
    by (auto simp: handleWS_def accept_conn_def startSession_def bindS_def catchS_def ignoreS_def
        split: sum.splits prod.splits option.splits fault.splits)
  moreover have "r < cl_next d" if "q = Inr (Some r)" for r
    using accept_conn_fresh a that by simp
  ultimately show ?thesis
    using 1 by (auto intro: readLoop_run converse_rtranclp_into_rtranclp split: sum.split option.split)
qed

end
