(* ===== verification/Traces.thy ===== *)
theory Traces
  imports System
begin

text \<open>
  What a run of the client does to one session.  The steps of a session on its own are the frames sent
  and read, the changes of its status and limiter, and the ends of its connection; its trace is the
  list of payloads it was given to send, each with whether it was written.  Every run of the client,
  seen from one session, is such a trace (the instance \<open>traced\<close> of the walk), so what holds of the
  frames of every trace holds of the frames of every run.
\<close>

subsection \<open>The traces of a session\<close>

type_synonym attempted = "bytes \<times> bool"

inductive sess_step :: "ext \<Rightarrow> attempted list \<Rightarrow> session \<Rightarrow> session \<Rightarrow> bool" for x where
  sent: "send x s plain (c :: client) = (q, s', c') \<Longrightarrow> sess_step x [(plain, q = Inr ())] s s'"
| read: "sess_step x [] s (snd (session_decrypt x s data))"
| status: "sess_step x [] s (setStatus st s)"
| limited: "sess_step x [] s (s\<lparr>ss_msgLimiter := l\<rparr>)"
| closed: "sess_step x [] s (snd (closeConn s))"
| dropped: "sess_step x [] s (s\<lparr>ss_conn := map_option (\<lambda>cn. cn\<lparr>conn_open := False\<rparr>) (ss_conn s)\<rparr>)"

inductive sess_trace :: "ext \<Rightarrow> attempted list \<Rightarrow> session \<Rightarrow> session \<Rightarrow> bool" for x where
  start: "sess_trace x [] s s"
| step: "sess_trace x es s t \<Longrightarrow> sess_step x e t u \<Longrightarrow> sess_trace x (es @ e) s u"

lemma trace_append: "sess_trace x fs t u \<Longrightarrow> sess_trace x es s t \<Longrightarrow> sess_trace x (es @ fs) s u"
  by (induction rule: sess_trace.induct) (auto intro: sess_trace.step simp flip: append_assoc)

lemma trace_same [simp]: "\<exists>es. sess_trace x es s s"
  by (blast intro: sess_trace.start)

lemma trace_one: "sess_step x e s t \<Longrightarrow> sess_trace x e s t"
  using sess_trace.step [OF sess_trace.start] by simp

definition traced :: "ext \<Rightarrow> client \<Rightarrow> client \<Rightarrow> bool" where
  "traced x c d \<longleftrightarrow> cl_Keys d = cl_Keys c \<and> cl_next c \<le> cl_next d \<and>
     (\<forall>j < cl_next c. \<exists>es. sess_trace x es (cl_heap c j) (cl_heap d j))"

lemma sess_step_keeps:
  assumes "sess_step x e s s'"
  shows "ss_peer s' = ss_peer s \<and> (ss_conn s' = None \<longleftrightarrow> ss_conn s = None)"
  using assms
proof cases
  case (sent plain c q c')
  then show ?thesis using send_spec [of x s plain c q s' c'] by (cases q) auto
next
  case (read data)
  then show ?thesis by (auto simp: session_decrypt_def Let_def split: option.splits if_splits sum.splits)
next
  case closed
  then show ?thesis by (auto simp: closeConn_def Let_def split: option.splits)
qed (simp_all add: setStatus_def)

lemma sess_trace_keeps:
  "sess_trace x es s s' \<Longrightarrow> ss_peer s' = ss_peer s \<and> (ss_conn s' = None \<longleftrightarrow> ss_conn s = None)"
  by (induction rule: sess_trace.induct) (auto dest: sess_step_keeps)

lemma traced_same: "cl_Keys d = cl_Keys c \<Longrightarrow> cl_next d = cl_next c \<Longrightarrow> cl_heap d = cl_heap c \<Longrightarrow> traced x c d"
  by (auto simp: traced_def intro: sess_trace.start)

lemma traced_store: "store_only c d \<Longrightarrow> traced x c d"
  by (simp add: traced_same store_only_client)

lemma traced_set_session: "sess_step x e (cl_heap c r) s \<Longrightarrow> traced x c (set_session r s c)"
  by (auto simp: traced_def set_session_def intro: sess_trace.start trace_one)

interpretation traced: client_footprint "traced x" x for x
proof
  fix c d e :: client
  show "traced x c c" by (simp add: traced_same)
  show "traced x c d \<Longrightarrow> traced x d e \<Longrightarrow> traced x c e"
    by (auto simp: traced_def) (meson less_le_trans trace_append)
  show "traced x c d \<Longrightarrow> fit r c \<Longrightarrow> fit r d" for r
    using sess_trace_keeps [of x _ "cl_heap c r" "cl_heap d r"]
    by (fastforce simp: traced_def fit_def peerPubKey_def simp del: not_None_eq)
  show "traced x c d \<Longrightarrow> own_key d = own_key c" by (simp add: traced_def)
  show "traced x c (snd (sess_send x r plain c))" for r plain
  proof -
    obtain q s' c1 where s: "send x (cl_heap c r) plain c = (q, s', c1)" using prod_cases3 by blast
    obtain t where "c1 = c\<lparr>tick := t\<rparr>" using send_spec [OF s] by blast
    with trace_one [OF sess_step.sent [OF s]] show ?thesis
      by (auto simp: sess_send_def s traced_def set_session_def intro: sess_trace.start)
  qed
  show "traced x c d" if "shake x initiator cn st c = (q, d)" for initiator cn st q
    using shake_spec [OF that] by (cases q) (auto simp: traced_def)
  show "traced x c (snd (profile_Update x n i c))" for n i
    by (rule traced_same) (auto simp: profile_Update_def db_exec_eq Let_def)
  show "traced x c (snd (client_Info x c))" "traced x c (snd (uuid_New x c))" "traced x c (c\<lparr>tick := t\<rparr>)"
    "traced x c (c\<lparr>cl_pendingFiles := f\<rparr>)" "traced x c (sessions_Delete k c)" "traced x c (sessions_Store k r c)"
    for t f k r
    by (simp_all add: traced_same client_Info_frame uuid_New_def sessions_Delete_def sessions_Store_def)
  show "traced x c (drop_conn r c)" for r unfolding drop_conn_def by (rule traced_set_session [OF sess_step.dropped])
qed (simp_all add: traced_store traced_set_session [OF sess_step.status] traced_set_session [OF sess_step.limited]
    traced_set_session [OF sess_step.read] traced_set_session [OF sess_step.closed] outbox_store_only so.search)

text \<open>The examples: a line typed into the terminal of a client with one session.\<close>

lemma demo_run:
  "(client_step demo_ext)\<^sup>*\<^sup>* demo_client (snd (sendToAll demo_ext demo_line demo_client))"
  "0 < cl_next demo_client" "cl_heap demo_client 0 = demo_session"
  by (intro r_into_rtranclp client_step.typed) (simp_all add: demo_client_def)

subsection \<open>The frames of a trace\<close>

text \<open>Each attempt takes the next counter value, whether or not its frame is written.\<close>

fun wire :: "ext \<Rightarrow> bytes \<Rightarrow> 64 word \<Rightarrow> attempted list \<Rightarrow> bytes list" where
  "wire x k n [] = []"
| "wire x k n ((plain, ok) # es) = (if ok then [sealed_frame x k n plain] else []) @ wire x k (n + 1) es"

lemma wire_append: "wire x k n (es @ fs) = wire x k n es @ wire x k (n + of_nat (length es)) fs"
  by (induction x k n es rule: wire.induct) (simp_all add: add.assoc add.commute)

lemma send_wire:
  assumes "send x s plain w = (q, s', w')" "ss_conn s \<noteq> None"
  shows "(cph_key (ss_sendr s) = None \<longrightarrow> q \<noteq> Inr () \<and> cph_key (ss_sendr s') = None \<and> conn_frames s' = conn_frames s) \<and>
    (\<forall>k. cph_key (ss_sendr s) = Some k \<longrightarrow> cph_key (ss_sendr s') = Some k \<and>
       cph_nonce (ss_sendr s') = cph_nonce (ss_sendr s) + 1 \<and>
       conn_frames s' = conn_frames s @ wire x k (cph_nonce (ss_sendr s)) [(plain, q = Inr ())])"
proof -
  note sp = send_spec [OF assms(1)]
  have n: "cph_nonce (ss_sendr s') = cph_nonce (ss_sendr s) + 1" if "cph_key (ss_sendr s) \<noteq> None"
    using assms(1) that
    by (auto simp: send_def session_encrypt_def write_frame_def Let_def split: prod.splits sum.splits option.splits if_splits)
  show ?thesis
  proof (cases q)
    case (Inl e)
    then have "ss_conn s' = ss_conn s" using sp by simp
    then show ?thesis using sp n Inl by (auto simp: conn_frames_def)
  next
    case (Inr u)
    then obtain k where k: "has_send_key s k" "s' = sent x k plain s" using sp by auto
    then show ?thesis using sp n Inr conn_frames_sent [OF assms(2), of x k plain] by (auto simp: has_send_key_def)
  qed
qed

lemma step_wire:
  assumes "sess_step x e s s'" "ss_conn s \<noteq> None"
  shows "(cph_key (ss_sendr s) = None \<longrightarrow> wire x k n e = [] \<and> cph_key (ss_sendr s') = None \<and> conn_frames s' = conn_frames s) \<and>
    (\<forall>k. cph_key (ss_sendr s) = Some k \<longrightarrow>
       (cph_key (ss_sendr s') = Some k \<and> cph_nonce (ss_sendr s') = cph_nonce (ss_sendr s) + of_nat (length e) \<or>
        cph_key (ss_sendr s') = None) \<and>
       conn_frames s' = conn_frames s @ wire x k (cph_nonce (ss_sendr s)) e)"
  using assms(1)
proof cases
  case (sent plain c q c')
  from send_wire [OF sent(2) assms(2)] sent(1) show ?thesis by auto
next
  case (read data)
  then show ?thesis
    by (auto simp: session_decrypt_def conn_frames_def Let_def split: option.splits if_splits sum.splits)
next
  case closed
  then show ?thesis by (auto simp: closeConn_def conn_frames_def Let_def split: option.splits)
qed (use assms(2) in \<open>auto simp: setStatus_def conn_frames_def\<close>)

lemma trace_wire:
  assumes "sess_trace x es s s'" "ss_conn s \<noteq> None" "cph_key (ss_sendr s) = Some k"
  shows "(cph_key (ss_sendr s') = Some k \<and> cph_nonce (ss_sendr s') = cph_nonce (ss_sendr s) + of_nat (length es) \<or>
     cph_key (ss_sendr s') = None) \<and>
    conn_frames s' = conn_frames s @ wire x k (cph_nonce (ss_sendr s)) es"
  using assms
proof (induction rule: sess_trace.induct)
  case (step es s t e u)
  have "ss_conn t \<noteq> None" using sess_trace_keeps [OF step.hyps(1)] step.prems by blast
  from step_wire [OF step.hyps(2) this, of k "cph_nonce (ss_sendr s) + of_nat (length es)"] step.IH [OF step.prems]
  show ?case by (auto simp: wire_append add.assoc)
qed simp

lemma wire_counters: "f \<in> set (wire x k n es) \<Longrightarrow> \<exists>i < length es. take NonceSize f = nonce_bytes (n + of_nat i)"
proof (induction x k n es rule: wire.induct)
  case (2 x k n plain ok es)
  show ?case
  proof (cases "f \<in> set (wire x k (n + 1) es)")
    case True
    with 2 obtain i where "i < length es" "take NonceSize f = nonce_bytes (n + 1 + of_nat i)" by blast
    then show ?thesis by (intro exI [of _ "Suc i"]) (simp add: add.assoc)
  next
    case False
    then have "f = sealed_frame x k n plain" using 2(2) by (simp split: if_splits)
    then show ?thesis by (intro exI [of _ 0]) simp
  qed
qed simp

lemma wire_nonces: "length es \<le> 2 ^ 64 \<Longrightarrow> distinct (map (take NonceSize) (wire x k n es))"
proof (induction x k n es rule: wire.induct)
  case (2 x k n plain ok es)
  have "take NonceSize f \<noteq> nonce_bytes n" if "f \<in> set (wire x k (n + 1) es)" for f
  proof -
    note f = wire_counters [OF that]
    then obtain i where i: "i < length es" "take NonceSize f = nonce_bytes (n + 1 + of_nat i)" by blast
    have "unat (1 + of_nat i :: 64 word) = Suc i"
      using i(1) 2(2) by (simp add: unat_of_nat flip: of_nat_Suc)
    then have "(1 + of_nat i :: 64 word) \<noteq> 0" by auto
    then show ?thesis using i(2) by (simp add: add.assoc)
  qed
  then have "nonce_bytes n \<notin> take NonceSize ` set (wire x k (n + 1) es)" by (metis imageE)
  with 2 show ?case by auto
qed simp

text \<open>
  C6: Nothing the client ever does reuses a nonce: in any run, the frames a session puts on its
  connection are the payloads it was given to send, each sealed under the session's key with the
  counter value of its attempt, so up to \<open>2 ^ 64\<close> attempts no two frames share a nonce.
\<close>

theorem runs_never_reuse_nonces:
  assumes "(client_step x)\<^sup>*\<^sup>* c c'" "j < cl_next c" "ss_conn (cl_heap c j) \<noteq> None"
    and "cph_key (ss_sendr (cl_heap c j)) = Some k"
  shows "\<exists>es. sess_trace x es (cl_heap c j) (cl_heap c' j) \<and>
    conn_frames (cl_heap c' j) = conn_frames (cl_heap c j) @ wire x k (cph_nonce (ss_sendr (cl_heap c j))) es \<and>
    (length es \<le> 2 ^ 64 \<longrightarrow> distinct (map (take NonceSize) (wire x k (cph_nonce (ss_sendr (cl_heap c j))) es)))"
proof -
  obtain es where es: "sess_trace x es (cl_heap c j) (cl_heap c' j)"
    using traced.walk_run [OF assms(1)] assms(2) by (auto simp: traced_def)
  from trace_wire [OF es assms(3,4)] wire_nonces es show ?thesis by blast
qed

theorem runs_never_reuse_nonces_witness:
  "\<exists>es. conn_frames (cl_heap (snd (sendToAll demo_ext demo_line demo_client)) 0) =
     conn_frames demo_session @ wire demo_ext (replicate 32 1) 3 es"
  using runs_never_reuse_nonces [OF demo_run(1,2), of "replicate 32 1"]
  by (auto simp: demo_run(3)) (auto simp: demo_session_def)

subsection \<open>Reliable connections\<close>

abbreviation can :: "bytes \<Rightarrow> session \<Rightarrow> bool" where
  "can k s \<equiv> has_send_key s k \<and> conn_live s"

definition over :: "session \<Rightarrow> bool" where
  "over s \<longleftrightarrow> cph_key (ss_sendr s) = None \<or> \<not> conn_live s"

lemma send_over:
  assumes "send x s plain w = (q, s', w')" "over s"
  shows "q \<noteq> Inr () \<and> over s'"
proof
  show q: "q \<noteq> Inr ()"
  proof
    assume "q = Inr ()"
    moreover obtain e where "conn_live s \<longrightarrow> cph_key (ss_sendr s) = None" using assms(2) by (auto simp: over_def)
    ultimately show False
      using assms(1)
      by (auto simp: send_def session_encrypt_def write_frame_def WriteMessage_eq aesGCM_def conn_live_def Let_def
          split: prod.splits sum.splits option.splits if_splits)
  qed
  then obtain e where "q = Inl e" by (cases q) auto
  then show "over s'" using send_spec [OF assms(1)] assms(2) by (auto simp: over_def conn_live_def)
qed

lemma step_reliable:
  assumes "sess_step x e s s'" "\<And>t. x_write x t"
  shows "(can k s \<longrightarrow> can k s' \<and> list_all snd e \<or> over s' \<and> e = []) \<and> (over s \<longrightarrow> over s' \<and> list_all (\<lambda>a. \<not> snd a) e)"
  using assms(1)
proof cases
  case (sent plain c q c')
  have "q = Inr () \<and> can k s'" if can: "can k s"
  proof -
    obtain cn where "ss_conn s = Some cn" "conn_open cn" using can by (auto simp: conn_live_def)
    with send_succeeds [of s k cn x plain c] can assms(2) sent(2) show ?thesis by auto
  qed
  with send_over [OF sent(2)] sent(1) show ?thesis by auto
next
  case (read data)
  then show ?thesis
    by (auto simp: session_decrypt_def over_def conn_live_def has_send_key_def Let_def split: option.splits if_splits sum.splits)
next
  case closed
  then show ?thesis by (auto simp: closeConn_def over_def conn_live_def Let_def split: option.splits)
qed (auto simp: setStatus_def over_def conn_live_def has_send_key_def)

lemma trace_reliable:
  assumes "sess_trace x es s s'" "\<And>t. x_write x t" "can k s"
  shows "list_all snd es \<and> can k s' \<or> (\<exists>g b. es = g @ b \<and> list_all snd g \<and> list_all (\<lambda>a. \<not> snd a) b \<and> over s')"
  using assms(1,3)
proof (induction rule: sess_trace.induct)
  case (step es s t e u)
  note r = step_reliable [OF step.hyps(2) assms(2), of k]
  consider "list_all snd es" "can k t" | g b where "es = g @ b" "list_all snd g" "list_all (\<lambda>a. \<not> snd a) b" "over t"
    using step.IH [OF step.prems] by blast
  then show ?case
  proof cases
    case 1
    with r show ?thesis by (auto intro: exI [of _ es])
  next
    case 2
    with r show ?thesis by (intro disjI2 exI [of _ g] exI [of _ "b @ e"]) auto
  qed
qed simp

lemma wire_all: "list_all snd es \<Longrightarrow> wire x k n es = frames_from x k n (map fst es)"
  by (induction x k n es rule: wire.induct) auto

lemma wire_none: "list_all (\<lambda>a. \<not> snd a) es \<Longrightarrow> wire x k n es = []"
  by (induction x k n es rule: wire.induct) auto

lemma wire_reliable:
  assumes "sess_trace x es s s'" "\<And>t. x_write x t" "can k s"
  shows "wire x k n es = frames_from x k n (map fst (takeWhile snd es))"
proof -
  have all: "takeWhile snd g = g" if "list_all snd g" for g :: "attempted list" using that by (induction g) auto
  have none: "takeWhile snd b = []" if "list_all (\<lambda>a. \<not> snd a) b" for b :: "attempted list" using that by (cases b) auto
  from trace_reliable [OF assms] show ?thesis
    by (auto simp: all none wire_all wire_none wire_append takeWhile_append list_all_iff [of snd])
qed

lemma frames_open:
  assumes "aead_laws x" "has_recv_key b k"
  shows "\<exists>b'. run (session_decrypt x) b (frames_from x k (cph_nonce (ss_recv b)) ps) = (map Inr ps, b')"
  using assms(2)
proof (induction ps arbitrary: b)
  case (Cons p ps)
  from Cons.IH [of "next_recv b"] Cons.prems decrypt_frame [OF assms(1) Cons.prems]
  show ?case by auto
qed simp

text \<open>
  In runs of atomic steps, that is as long as no two sends on the session overlap, and on a connection that
  does not fail, a peer whose session is in step with ours reads everything the client sends it, up to the
  end of the session: it opens every frame, in order, to exactly the payloads the client sent.  What
  overlapping sends deliver is shown in theory \<open>SessionRaces\<close>.
\<close>

theorem runs_deliver:
  assumes "(client_step x)\<^sup>*\<^sup>* c c'" "j < cl_next c" "in_step x (cl_heap c j) b" "conn_live (cl_heap c j)" "\<And>t. x_write x t"
  shows "\<exists>es fs b'. sess_trace x es (cl_heap c j) (cl_heap c' j) \<and>
    conn_frames (cl_heap c' j) = conn_frames (cl_heap c j) @ fs \<and>
    run (session_decrypt x) b fs = (map Inr (map fst (takeWhile snd es)), b') \<and>
    (conn_live (cl_heap c' j) \<and> cph_key (ss_sendr (cl_heap c' j)) \<noteq> None \<longrightarrow> list_all snd es)"
proof -
  obtain es where es: "sess_trace x es (cl_heap c j) (cl_heap c' j)"
    using traced.walk_run [OF assms(1)] assms(2) by (auto simp: traced_def)
  obtain k where k: "aead_laws x" "cph_nonce (ss_sendr (cl_heap c j)) = cph_nonce (ss_recv b)"
    "has_send_key (cl_heap c j) k" "has_recv_key b k" using assms(3) by (auto simp: in_step_def)
  let ?fs = "frames_from x k (cph_nonce (ss_recv b)) (map fst (takeWhile snd es))"
  have "ss_conn (cl_heap c j) \<noteq> None" "cph_key (ss_sendr (cl_heap c j)) = Some k"
    using assms(4) k(3) by (auto simp: conn_live_def has_send_key_def)
  from trace_wire [OF es this] wire_reliable [OF es assms(5), of k] k assms(4)
  have "conn_frames (cl_heap c' j) = conn_frames (cl_heap c j) @ ?fs" by simp
  moreover obtain b' where "run (session_decrypt x) b ?fs = (map Inr (map fst (takeWhile snd es)), b')"
    using frames_open [OF k(1,4)] by blast
  moreover have "conn_live (cl_heap c' j) \<and> cph_key (ss_sendr (cl_heap c' j)) \<noteq> None \<longrightarrow> list_all snd es"
    using trace_reliable [OF es assms(5), of k] k(3) assms(4) by (auto simp: over_def)
  ultimately show ?thesis using es by blast
qed

theorem runs_deliver_witness:
  "\<exists>es fs b'. sess_trace demo_ext es demo_session (cl_heap (snd (sendToAll demo_ext demo_line demo_client)) 0) \<and>
     conn_frames (cl_heap (snd (sendToAll demo_ext demo_line demo_client)) 0) = conn_frames demo_session @ fs \<and>
     run (session_decrypt demo_ext) demo_session fs = (map Inr (map fst (takeWhile snd es)), b')"
proof -
  have "conn_live demo_session" by (simp add: conn_live_def demo_session_def)
  with runs_deliver [OF demo_run(1,2), of demo_session] demo_in_step show ?thesis by (simp add: demo_run(3)) blast
qed

end
