(* ===== verification/Text.thy ===== *)
theory Text
  imports Config
begin

text \<open>
  UTF-8 as Go's \<open>unicode/utf8\<close> and \<open>strings.Map\<close> read and write it, and \<open>sanitizeName\<close> of
  \<open>config/config.go\<close>, which keeps the printable characters of a client name and cuts it to its limit.

  A rune is its code point.  Which code points \<open>unicode.IsPrint\<close> accepts is the table of the Unicode
  version Go was built with, and a parameter here.
\<close>

type_synonym rune = nat

abbreviation RuneError :: rune where
  "RuneError \<equiv> 0xFFFD"

abbreviation maxNameLen :: nat where
  "maxNameLen \<equiv> 64"

definition valid_rune :: "rune \<Rightarrow> bool" where
  "valid_rune r \<longleftrightarrow> r < 0xD800 \<or> 0xE000 \<le> r \<and> r \<le> 0x10FFFF"

subsection \<open>Decoding and encoding\<close>

definition between :: "nat \<Rightarrow> byte \<Rightarrow> nat \<Rightarrow> bool" where
  "between lo b hi \<longleftrightarrow> lo \<le> unat b \<and> unat b \<le> hi"

abbreviation low6 :: "byte \<Rightarrow> nat" where
  "low6 b \<equiv> unat b mod 64"

text \<open>The first rune and how many bytes it takes: a byte that begins no rune is an error of width one.\<close>

fun DecodeRune :: "bytes \<Rightarrow> rune \<times> nat" where
  "DecodeRune [] = (RuneError, 0)"
| "DecodeRune (b # s) =
     (let n = unat b in
      if n < 0x80 then (n, 1)
      else if n < 0xC2 \<or> 0xF4 < n then (RuneError, 1)
      else if n < 0xE0 then
        (case s of
           b1 # _ \<Rightarrow> if between 0x80 b1 0xBF then (n mod 32 * 64 + low6 b1, 2) else (RuneError, 1)
         | _ \<Rightarrow> (RuneError, 1))
      else if n < 0xF0 then
        (case s of
           b1 # b2 # _ \<Rightarrow>
             if between (if n = 0xE0 then 0xA0 else 0x80) b1 (if n = 0xED then 0x9F else 0xBF) \<and> between 0x80 b2 0xBF
             then (n mod 16 * 4096 + low6 b1 * 64 + low6 b2, 3) else (RuneError, 1)
         | _ \<Rightarrow> (RuneError, 1))
      else
        (case s of
           b1 # b2 # b3 # _ \<Rightarrow>
             if between (if n = 0xF0 then 0x90 else 0x80) b1 (if n = 0xF4 then 0x8F else 0xBF) \<and>
                between 0x80 b2 0xBF \<and> between 0x80 b3 0xBF
             then (n mod 8 * 262144 + low6 b1 * 4096 + low6 b2 * 64 + low6 b3, 4) else (RuneError, 1)
         | _ \<Rightarrow> (RuneError, 1)))"

definition EncodeRune :: "rune \<Rightarrow> bytes" where
  "EncodeRune r =
     (let cont = (\<lambda>n. of_nat (0x80 + n mod 64)) in
      if r < 0x80 then [of_nat r]
      else if r < 0x800 then [of_nat (0xC0 + r div 64), cont r]
      else if \<not> valid_rune r then [0xEF, 0xBF, 0xBD]
      else if r < 0x10000 then [of_nat (0xE0 + r div 4096), cont (r div 64), cont r]
      else [of_nat (0xF0 + r div 262144), cont (r div 4096), cont (r div 64), cont r])"

text \<open>The runes a \<open>range\<close> over a string visits.\<close>

function runes :: "gostring \<Rightarrow> rune list" where
  "runes s = (if s = [] then [] else case DecodeRune s of (r, w) \<Rightarrow> r # runes (drop (max 1 w) s))"
  by pat_completeness auto

termination
  by (relation "measure length") auto

declare runes.simps [simp del]

definition strings_Map :: "(rune \<Rightarrow> rune option) \<Rightarrow> gostring \<Rightarrow> gostring" where
  "strings_Map f s = concat (map EncodeRune (List.map_filter f (runes s)))"

text \<open>\<open>sanitizeName\<close>: the cut is in bytes.\<close>

definition sanitizeName :: "(rune \<Rightarrow> bool) \<Rightarrow> gostring \<Rightarrow> gostring" where
  "sanitizeName IsPrint s =
     (let s = strings_Map (\<lambda>r. if IsPrint r then Some r else None) s
      in if length s > maxNameLen then take maxNameLen s else s)"

subsection \<open>Round trip\<close>

text \<open>The marks of a leading byte and of a continuation byte, taken off.\<close>

lemma mod_minus: "m \<le> n \<Longrightarrow> n < m + k \<Longrightarrow> m mod k = 0 \<Longrightarrow> n mod k = n - m" for n :: nat
  by (metis add.right_neutral le_add_diff_inverse mod_add_left_eq mod_less nat_add_left_cancel_less add_0)

lemma marks:
  "0xC0 \<le> n \<Longrightarrow> n < 0xE0 \<Longrightarrow> n mod 32 = n - 0xC0"
  "0xE0 \<le> n \<Longrightarrow> n < 0xF0 \<Longrightarrow> n mod 16 = n - 0xE0"
  "0xF0 \<le> n \<Longrightarrow> n < 0xF8 \<Longrightarrow> n mod 8 = n - 0xF0"
  "0x80 \<le> n \<Longrightarrow> n \<le> 0xBF \<Longrightarrow> n mod 64 = n - 0x80" for n :: nat
  by (simp_all add: mod_minus)

lemma decode_valid: "valid_rune (fst (DecodeRune s))"
proof (cases s)
  case (Cons b t)
  consider "unat b < 0xC2 \<or> 0xF4 < unat b" | "0xC2 \<le> unat b" "unat b < 0xE0"
    | "0xE0 \<le> unat b" "unat b < 0xF0" | "0xF0 \<le> unat b" "unat b \<le> 0xF4" by linarith
  then show ?thesis
    unfolding Cons DecodeRune.simps Let_def
    by cases (auto simp: valid_rune_def between_def marks split: list.split)
qed (simp add: valid_rune_def)

lemma decode_two:
  assumes "2 \<le> a" "a < 32" "b < 64"
  shows "DecodeRune (of_nat (0xC0 + a) # of_nat (0x80 + b) # s) = (a * 64 + b, 2)"
  using assms by (simp add: Let_def between_def unat_small marks del: of_nat_add)

lemma decode_three:
  assumes "a < 16" "b < 64" "c < 64" "a = 0 \<longrightarrow> 32 \<le> b" "a = 13 \<longrightarrow> b \<le> 31"
  shows "DecodeRune (of_nat (0xE0 + a) # of_nat (0x80 + b) # of_nat (0x80 + c) # s) = (a * 4096 + b * 64 + c, 3)"
  using assms by (simp add: Let_def between_def unat_small marks del: of_nat_add)

lemma decode_four:
  assumes "a < 5" "b < 64" "c < 64" "d < 64" "a = 0 \<longrightarrow> 16 \<le> b" "a = 4 \<longrightarrow> b \<le> 15"
  shows "DecodeRune (of_nat (0xF0 + a) # of_nat (0x80 + b) # of_nat (0x80 + c) # of_nat (0x80 + d) # s) =
    (a * 262144 + b * 4096 + c * 64 + d, 4)"
  using assms by (simp add: Let_def between_def unat_small marks del: of_nat_add)

lemma decode_encode:
  assumes "valid_rune r"
  shows "DecodeRune (EncodeRune r @ s) = (r, length (EncodeRune r))"
proof -
  have split: "r div 64 * 64 + r mod 64 = r" "r div 4096 * 64 + r div 64 mod 64 = r div 64"
    "r div 262144 * 64 + r div 4096 mod 64 = r div 4096"
    using div_mult_mod_eq [of "r div 64" 64] div_mult_mod_eq [of "r div 4096" 64] by (simp_all add: div_mult2_eq [symmetric])
  consider "r < 0x80" | "0x80 \<le> r" "r < 0x800" | "0x800 \<le> r" "r < 0x10000" | "0x10000 \<le> r" "r \<le> 0x10FFFF"
    using assms unfolding valid_rune_def by linarith
  then show ?thesis
  proof cases
    case 1
    then show ?thesis by (simp add: EncodeRune_def unat_small)
  next
    case 2
    have "EncodeRune r = [of_nat (0xC0 + r div 64), of_nat (0x80 + r mod 64)]"
      using 2 by (simp add: EncodeRune_def)
    moreover have "2 \<le> r div 64" "r div 64 < 32" using 2 by linarith+
    ultimately show ?thesis using decode_two [of "r div 64" "r mod 64" s] split(1) by simp
  next
    case 3
    have "EncodeRune r = [of_nat (0xE0 + r div 4096), of_nat (0x80 + r div 64 mod 64), of_nat (0x80 + r mod 64)]"
      using 3 assms by (simp add: EncodeRune_def)
    moreover have "r div 4096 < 16" "r div 4096 = 0 \<longrightarrow> 32 \<le> r div 64 mod 64" "r div 4096 = 13 \<longrightarrow> r div 64 mod 64 \<le> 31"
      using 3 assms split(1,2) mod_less_divisor [of 64 r] unfolding valid_rune_def by linarith+
    moreover have "r div 4096 * 4096 + r div 64 mod 64 * 64 + r mod 64 = r" using split(1,2) by linarith
    ultimately show ?thesis using decode_three [of "r div 4096" "r div 64 mod 64" "r mod 64" s] by simp
  next
    case 4
    have "EncodeRune r = [of_nat (0xF0 + r div 262144), of_nat (0x80 + r div 4096 mod 64),
        of_nat (0x80 + r div 64 mod 64), of_nat (0x80 + r mod 64)]"
      using 4 assms by (simp add: EncodeRune_def)
    moreover have "r div 262144 < 5" "r div 262144 = 0 \<longrightarrow> 16 \<le> r div 4096 mod 64" "r div 262144 = 4 \<longrightarrow> r div 4096 mod 64 \<le> 15"
      using 4 split mod_less_divisor [of 64 r] mod_less_divisor [of 64 "r div 64"] by linarith+
    moreover have "r div 262144 * 262144 + r div 4096 mod 64 * 4096 + r div 64 mod 64 * 64 + r mod 64 = r"
      using split by linarith
    ultimately show ?thesis
      using decode_four [of "r div 262144" "r div 4096 mod 64" "r div 64 mod 64" "r mod 64" s] by simp
  qed
qed

lemma encode_nonempty: "EncodeRune r \<noteq> []"
  by (simp add: EncodeRune_def Let_def)

lemma runes_encode:
  assumes "valid_rune r"
  shows "runes (EncodeRune r @ s) = r # runes s"
  using decode_encode [OF assms, of s] encode_nonempty [of r]
  by (subst runes.simps) (simp add: max_def Suc_le_eq)

lemma runes_encoded: "(\<forall>r \<in> set rs. valid_rune r) \<Longrightarrow> runes (concat (map EncodeRune rs)) = rs"
proof (induction rs)
  case Nil
  show ?case by (simp add: runes.simps)
qed (simp add: runes_encode)

lemma runes_valid: "\<forall>r \<in> set (runes s). valid_rune r"
proof (induction s rule: runes.induct)
  case (1 s)
  show ?case
    using 1 decode_valid [of s] by (subst runes.simps) (cases "DecodeRune s", auto)
qed

lemma kept_runes: "strings_Map (\<lambda>r. if P r then Some r else None) s = concat (map EncodeRune (filter P (runes s)))"
proof -
  have "List.map_filter (\<lambda>r. if P r then Some r else None) rs = filter P rs" for rs
    by (induction rs) (simp_all add: List.map_filter_simps)
  then show ?thesis by (simp add: strings_Map_def)
qed

lemma sanitized_text:
  assumes "length (sanitizeName P s) < maxNameLen"
  shows "sanitizeName P s = concat (map EncodeRune (filter P (runes s)))"
  using assms by (simp add: sanitizeName_def kept_runes Let_def split: if_splits)

text \<open>A name that fits its limit is printable throughout, and sanitizing it again changes nothing.\<close>

lemma sanitized_runes:
  assumes "length (sanitizeName P s) < maxNameLen"
  shows "runes (sanitizeName P s) = filter P (runes s)"
  using runes_encoded [of "filter P (runes s)"] runes_valid [of s] by (simp add: sanitized_text [OF assms])

lemma sanitize_ascii:
  assumes "\<forall>b \<in> set s. unat b < 0x80 \<and> P (unat b)" "length s \<le> maxNameLen"
  shows "sanitizeName P s = s"
proof -
  have e: "EncodeRune (unat b) = [b]" if "unat b < 0x80" for b :: byte
    using that by (simp add: EncodeRune_def)
  have "runes s = map unat s" if "\<forall>b \<in> set s. unat b < 0x80" for s :: gostring
    using that
  proof (induction s)
    case (Cons b s)
    then show ?case using runes_encode [of "unat b" s] by (simp add: e valid_rune_def)
  qed (simp add: runes.simps)
  then have "filter P (runes s) = map unat s" using assms(1) by simp
  moreover have "concat (map (EncodeRune \<circ> unat) s) = s" using assms(1) by (induction s) (simp_all add: e)
  ultimately show ?thesis using assms(2) by (simp add: sanitizeName_def kept_runes)
qed

text \<open>
  A client name never exceeds its limit.  Unless the limit cut it, every character of it is
  printable, and sanitizing it once more changes nothing.
\<close>

theorem sanitized_name:
  "length (sanitizeName P s) \<le> maxNameLen \<and>
   (length (sanitizeName P s) < maxNameLen \<longrightarrow>
      (\<forall>r \<in> set (runes (sanitizeName P s)). P r) \<and> sanitizeName P (sanitizeName P s) = sanitizeName P s)"
proof (intro conjI impI)
  show "length (sanitizeName P s) \<le> maxNameLen" by (simp add: sanitizeName_def Let_def)
next
  assume short: "length (sanitizeName P s) < maxNameLen"
  then show "\<forall>r \<in> set (runes (sanitizeName P s)). P r" by (simp add: sanitized_runes)
  show "sanitizeName P (sanitizeName P s) = sanitizeName P s"
    using sanitized_text [OF short] sanitized_runes [OF short] short
    by (subst sanitizeName_def) (simp add: kept_runes)
qed

theorem sanitized_name_witness:
  "length (sanitizeName (\<lambda>r. 32 \<le> r) (str ''A'')) < maxNameLen \<and>
   sanitizeName (\<lambda>r. 32 \<le> r) (sanitizeName (\<lambda>r. 32 \<le> r) (str ''A'')) = sanitizeName (\<lambda>r. 32 \<le> r) (str ''A'')"
proof -
  have "length (sanitizeName (\<lambda>r. 32 \<le> r) (str ''A'')) < maxNameLen"
    by (simp add: sanitizeName_def kept_runes runes.simps str_def EncodeRune_def)
  with sanitized_name [of "\<lambda>r. 32 \<le> r" "str ''A''"] show ?thesis by blast
qed

text \<open>The limit counts bytes, and may fall inside a character: then the name is no longer UTF-8.\<close>

lemma name_cut_inside_rune:
  "sanitizeName (\<lambda>_. True) (replicate 63 0x61 @ EncodeRune 0xE9) = replicate 63 0x61 @ [0xC3] \<and>
   last (runes (replicate 63 0x61 @ [0xC3])) = RuneError"
proof
  have a: "EncodeRune 0x61 = [0x61]" "EncodeRune 0xE9 = [0xC3, 0xA9]" by (simp_all add: EncodeRune_def Let_def)
  have all: "runes (replicate n 0x61 @ s) = replicate n 0x61 @ runes s" for n s
    using runes_encode [of "0x61"] by (induction n) (simp_all add: a valid_rune_def)
  show "last (runes (replicate 63 0x61 @ [0xC3])) = RuneError" unfolding all by (simp add: runes.simps)
  have "runes [0xC3, 0xA9] = [0xE9]" using runes_encode [of "0xE9" "[]"] by (simp add: a valid_rune_def runes.simps)
  moreover have "concat (map EncodeRune (replicate n 0x61 @ [0xE9])) = replicate n 0x61 @ [0xC3, 0xA9]" for n
    by (induction n) (simp_all add: a)
  ultimately show "sanitizeName (\<lambda>_. True) (replicate 63 0x61 @ EncodeRune 0xE9) = replicate 63 0x61 @ [0xC3]"
    unfolding sanitizeName_def kept_runes [of "\<lambda>_. True"] all a Let_def by simp
qed

end
