(* ===== verification/Flags.thy ===== *)
theory Flags
  imports Net Text
begin

text \<open>
  Command lines: Go's \<open>flag\<close> package as the two programs use it, and \<open>Parse\<close> of \<open>config/config.go\<close>.

  Integers are read by \<open>strconv.ParseInt\<close> with base 0, which is written out.  The values of the other
  flags that need parsing go through \<open>time.ParseDuration\<close>, whose fractions are floating-point numbers,
  and \<open>slog.Level.UnmarshalText\<close>, which folds Unicode case: both are parameters, with
  \<open>unicode.IsPrint\<close>.
\<close>

subsection \<open>Integers\<close>

unbundle bit_operations_syntax

definition lower :: "byte \<Rightarrow> byte" where
  "lower c = c OR 0x20"

abbreviation is_digit :: "byte \<Rightarrow> bool" where
  "is_digit c \<equiv> between 48 c 57"

definition digit_value :: "byte \<Rightarrow> nat option" where
  "digit_value c =
     (if is_digit c then Some (unat c - 48)
      else if between 97 (lower c) 122 then Some (unat (lower c) - 87) else None)"

text \<open>The digits of a number, underscores skipped.\<close>

primrec parse_digits :: "nat \<Rightarrow> nat \<Rightarrow> gostring \<Rightarrow> nat option" where
  "parse_digits base n [] = Some n"
| "parse_digits base n (c # s) =
     (if c = 95 then parse_digits base n s
      else case digit_value c of
        None \<Rightarrow> None
      | Some d \<Rightarrow> if d \<ge> base then None else parse_digits base (n * base + d) s)"

text \<open>\<open>underscoreOK\<close> after the sign and the prefix: underscores stand between digits only.\<close>

datatype saw = SawStart | SawDigit | SawUnderscore | SawOther

primrec underscores_ok :: "bool \<Rightarrow> saw \<Rightarrow> gostring \<Rightarrow> bool" where
  "underscores_ok hex saw [] \<longleftrightarrow> saw \<noteq> SawUnderscore"
| "underscores_ok hex saw (c # s) \<longleftrightarrow>
     (if is_digit c \<or> hex \<and> between 97 (lower c) 102 then underscores_ok hex SawDigit s
      else if c = 95 then saw = SawDigit \<and> underscores_ok hex SawUnderscore s
      else saw \<noteq> SawUnderscore \<and> underscores_ok hex SawOther s)"

definition has_base_prefix :: "gostring \<Rightarrow> bool" where
  "has_base_prefix s = (case s of a # b # _ \<Rightarrow> a = 48 \<and> (lower b = 98 \<or> lower b = 111 \<or> lower b = 120) | _ \<Rightarrow> False)"

definition underscoreOK :: "gostring \<Rightarrow> bool" where
  "underscoreOK s =
     (if has_base_prefix s then underscores_ok (lower (s ! 1) = 120) SawDigit (drop 2 s)
      else underscores_ok False SawStart s)"

definition base_of :: "gostring \<Rightarrow> nat \<times> gostring" where
  "base_of s =
     (if hd s \<noteq> 48 then (10, s)
      else if 3 \<le> length s \<and> has_base_prefix s
           then (if lower (s ! 1) = 98 then 2 else if lower (s ! 1) = 111 then 8 else 16, drop 2 s)
           else (8, tl s))"

text \<open>\<open>ParseUint(s, 0, _)\<close>, without its bound, which the caller's is below.\<close>

definition ParseUint :: "gostring \<Rightarrow> nat option" where
  "ParseUint s =
     (if s = [] then None
      else let (base, digits) = base_of s
           in if 95 \<in> set digits \<and> \<not> underscoreOK s then None else parse_digits base 0 digits)"

definition ParseInt :: "gostring \<Rightarrow> int option" where
  "ParseInt s =
     (let neg = (s \<noteq> [] \<and> hd s = 45); u = (if s \<noteq> [] \<and> (hd s = 43 \<or> hd s = 45) then tl s else s)
      in case ParseUint u of
           None \<Rightarrow> None
         | Some n \<Rightarrow>
             if neg then (if n > 2 ^ 63 then None else Some (- int n))
             else if n \<ge> 2 ^ 63 then None else Some (int n))"

definition ParseBool :: "gostring \<Rightarrow> bool option" where
  "ParseBool s =
     (if s \<in> {str ''1'', str ''t'', str ''T'', str ''true'', str ''TRUE'', str ''True''} then Some True
      else if s \<in> {str ''0'', str ''f'', str ''F'', str ''false'', str ''FALSE'', str ''False''} then Some False
      else None)"

subsection \<open>Flags\<close>

text \<open>A flag: its name, whether it may stand without a value, and \<open>Set\<close>.\<close>

datatype 'v flag = Flag (fl_name: gostring) (fl_bool: bool) (fl_Set: "gostring \<Rightarrow> 'v \<Rightarrow> 'v option")

datatype 'v parsed = Seen "gostring list" 'v | Finished | ErrHelp | Failed

text \<open>What \<open>parseOne\<close> makes of an argument that begins with a dash: its name and its value, if it has one.\<close>

definition split_flag :: "gostring \<Rightarrow> gostring \<times> gostring option" where
  "split_flag name =
     (case IndexByte 61 (tl name) of
        None \<Rightarrow> (name, None)
      | Some i \<Rightarrow> (take (Suc i) name, Some (drop (Suc (Suc i)) name)))"

definition set_flag :: "'v flag \<Rightarrow> gostring \<Rightarrow> 'v \<Rightarrow> gostring list \<Rightarrow> 'v parsed" where
  "set_flag f v st args = (case fl_Set f v st of None \<Rightarrow> Failed | Some st \<Rightarrow> Seen args st)"

definition parseOne :: "'v flag list \<Rightarrow> gostring list \<Rightarrow> 'v \<Rightarrow> 'v parsed" where
  "parseOne formal args st =
     (case args of
        [] \<Rightarrow> Finished
      | s # args \<Rightarrow>
          if length s < 2 \<or> hd s \<noteq> 45 then Finished
          else if s = [45, 45] then Finished
          else
           (let name = drop (if s ! 1 = 45 then 2 else 1) s
            in if name = [] \<or> hd name = 45 \<or> hd name = 61 then Failed
               else
                (let (name, val) = split_flag name
                 in case find (\<lambda>f. fl_name f = name) formal of
                      None \<Rightarrow> if name = str ''help'' \<or> name = str ''h'' then ErrHelp else Failed
                    | Some f \<Rightarrow>
                        (case val of
                           Some v \<Rightarrow> set_flag f v st args
                         | None \<Rightarrow>
                             if fl_bool f then set_flag f (str ''true'') st args
                             else (case args of [] \<Rightarrow> Failed | v # args \<Rightarrow> set_flag f v st args)))))"

lemma set_flag_Seen [simp]: "set_flag f v st args = Seen args' st' \<longleftrightarrow> args' = args \<and> fl_Set f v st = Some st'"
  by (auto simp: set_flag_def split: option.split)

lemma parseOne_shrinks: "parseOne formal args st = Seen args' st' \<Longrightarrow> length args' < length args"
  by (auto simp: parseOne_def Let_def split: list.splits if_splits option.splits prod.splits)

text \<open>
  \<open>FlagSet.Parse\<close>: with \<open>ExitOnError\<close> an error ends the program, and with \<open>ContinueOnError\<close> it is
  returned.
\<close>

datatype ErrorHandling = ContinueOnError | ExitOnError

datatype 'a process = Exit int | Go 'a

function FlagSet_Parse :: "ErrorHandling \<Rightarrow> 'v flag list \<Rightarrow> gostring list \<Rightarrow> 'v \<Rightarrow> (bool \<times> 'v) process" where
  "FlagSet_Parse eh formal args st =
     (case parseOne formal args st of
        Seen args st \<Rightarrow> FlagSet_Parse eh formal args st
      | Finished \<Rightarrow> Go (True, st)
      | ErrHelp \<Rightarrow> if eh = ExitOnError then Exit 0 else Go (False, st)
      | Failed \<Rightarrow> if eh = ExitOnError then Exit 2 else Go (False, st))"
  by pat_completeness auto

termination
  by (relation "measure (\<lambda>(eh, formal, args, st). length args)") (auto dest: parseOne_shrinks)

declare FlagSet_Parse.simps [simp del]

subsection \<open>The client's flags\<close>

record flag_lib =
  lib_ParseDuration :: "gostring \<Rightarrow> int option"
  lib_ParseLevel :: "gostring \<Rightarrow> int option"
  lib_IsPrint :: "rune \<Rightarrow> bool"

record settings = Config +
  verInfo :: bool

definition client_flags :: "flag_lib \<Rightarrow> settings flag list" where
  "client_flags lib =
     [Flag (str ''client'') False (\<lambda>v c. Some (c\<lparr>cfg_ClientName := v\<rparr>)),
      Flag (str ''p'') False (\<lambda>v c. map_option (\<lambda>n. c\<lparr>cfg_Port := n\<rparr>) (ParseInt v)),
      Flag (str ''t'') False (\<lambda>v c. map_option (\<lambda>d. c\<lparr>cfg_Timeout := d\<rparr>) (lib_ParseDuration lib v)),
      Flag (str ''rate-limit'') False (\<lambda>v c. map_option (\<lambda>n. c\<lparr>cfg_RateLimit := n\<rparr>) (ParseInt v)),
      Flag (str ''rate-window'') False (\<lambda>v c. map_option (\<lambda>d. c\<lparr>cfg_RateWindow := d\<rparr>) (lib_ParseDuration lib v)),
      Flag (str ''max-msg-size'') False (\<lambda>v c. map_option (\<lambda>n. c\<lparr>cfg_MaxMessageSize := n\<rparr>) (ParseInt v)),
      Flag (str ''ping-window'') False (\<lambda>v c. map_option (\<lambda>d. c\<lparr>cfg_PingWindow := d\<rparr>) (lib_ParseDuration lib v)),
      Flag (str ''l'') False (\<lambda>v c. map_option (\<lambda>l. c\<lparr>cfg_LogLevel := l\<rparr>) (lib_ParseLevel lib v)),
      Flag (str ''addr'') False (\<lambda>v c. Some (c\<lparr>cfg_PeerAddr := v\<rparr>)),
      Flag (str ''w'') True (\<lambda>v c. map_option (\<lambda>b. c\<lparr>cfg_WriteMode := b\<rparr>) (ParseBool v)),
      Flag (str ''cert'') False (\<lambda>v c. Some (c\<lparr>cfg_CertFile := v\<rparr>)),
      Flag (str ''key'') False (\<lambda>v c. Some (c\<lparr>cfg_KeyFileTLS := v\<rparr>)),
      Flag (str ''v'') True (\<lambda>v c. map_option (\<lambda>b. c\<lparr>verInfo := b\<rparr>) (ParseBool v))]"

definition Parse :: "flag_lib \<Rightarrow> gostring list \<Rightarrow> Config process" where
  "Parse lib args =
     (case FlagSet_Parse ExitOnError (client_flags lib) args (Config.extend Parse_defaults (settings.fields False)) of
        Exit n \<Rightarrow> Exit n
      | Go (ok, c) \<Rightarrow>
          if \<not> ok then Exit 1
          else if verInfo c then Exit 0
          else Go (Config.truncate (c\<lparr>cfg_ClientName := sanitizeName (lib_IsPrint lib) (cfg_ClientName c)\<rparr>)))"

text \<open>A command line that sets every flag; \<open>dur\<close> and \<open>lvl\<close> write durations and levels.\<close>

definition int_text :: "int \<Rightarrow> gostring" where
  "int_text n = (if n < 0 then 45 # Itoa (nat (- n)) else Itoa (nat n))"

definition args_of :: "(int \<Rightarrow> gostring) \<Rightarrow> (int \<Rightarrow> gostring) \<Rightarrow> Config \<Rightarrow> gostring list" where
  "args_of dur lvl c =
     [str ''-client'', cfg_ClientName c, str ''-p'', int_text (cfg_Port c), str ''-t'', dur (cfg_Timeout c),
      str ''-rate-limit'', int_text (cfg_RateLimit c), str ''-rate-window'', dur (cfg_RateWindow c),
      str ''-max-msg-size'', int_text (cfg_MaxMessageSize c), str ''-ping-window'', dur (cfg_PingWindow c),
      str ''-l'', lvl (cfg_LogLevel c), str ''-addr'', cfg_PeerAddr c, str ''-cert'', cfg_CertFile c,
      str ''-key'', cfg_KeyFileTLS c, (if cfg_WriteMode c then str ''-w'' else str ''-w=false'')]"

subsection \<open>Integers are read as they are written\<close>

lemma Itoa_digits: "\<forall>c \<in> set (Itoa n). \<exists>d < 10. c = of_nat (d + 48)"
proof (induction n rule: Itoa.induct)
  case (1 n)
  show ?case
  proof (cases "n < 10")
    case True
    then show ?thesis by (subst Itoa.simps) auto
  next
    case False
    with 1 show ?thesis by (subst Itoa.simps) (auto intro!: exI [of _ "n mod 10"])
  qed
qed

lemma digit_facts:
  assumes "d < 10"
  shows "unat (of_nat (d + 48) :: byte) = d + 48" "digit_value (of_nat (d + 48)) = Some d" "of_nat (d + 48) \<noteq> (95 :: byte)"
    "of_nat (d + 48) \<noteq> (45 :: byte)" "of_nat (d + 48) \<noteq> (43 :: byte)" "of_nat (d + 48) = (48 :: byte) \<longleftrightarrow> d = 0"
proof -
  show u: "unat (of_nat (d + 48) :: byte) = d + 48" using assms by (intro unat_small) simp
  then show "digit_value (of_nat (d + 48)) = Some d" using assms by (simp add: digit_value_def between_def del: of_nat_add)
  have n: "of_nat (d + 48) = (b :: byte) \<longleftrightarrow> d + 48 = unat b" for b by (metis u unsigned_word_eqI)
  show "of_nat (d + 48) \<noteq> (95 :: byte)" "of_nat (d + 48) \<noteq> (45 :: byte)" "of_nat (d + 48) \<noteq> (43 :: byte)"
    "of_nat (d + 48) = (48 :: byte) \<longleftrightarrow> d = 0"
    unfolding n using assms by simp_all
qed

lemma parse_digits_snoc:
  assumes "d < 10"
  shows "parse_digits 10 n (s @ [of_nat (d + 48)]) = map_option (\<lambda>m. m * 10 + d) (parse_digits 10 n s)"
  using digit_facts [OF assms] assms
  by (induction s arbitrary: n) (auto split: option.split simp del: of_nat_add)

lemma parse_Itoa: "parse_digits 10 0 (Itoa n) = Some n"
proof (induction n rule: Itoa.induct)
  case (1 n)
  show ?case
  proof (cases "n < 10")
    case True
    then show ?thesis using parse_digits_snoc [of n 0 "[]"] by (subst Itoa.simps) simp
  next
    case False
    with 1 show ?thesis by (subst Itoa.simps) (simp add: parse_digits_snoc del: of_nat_add)
  qed
qed

lemma hd_Itoa: "0 < n \<Longrightarrow> hd (Itoa n) \<noteq> 48"
proof (induction n rule: Itoa.induct)
  case (1 n)
  show ?case
  proof (cases "n < 10")
    case True
    then show ?thesis using 1(2) digit_facts(6) [of n] by (subst Itoa.simps) (simp del: of_nat_add)
  next
    case False
    with 1 have "hd (Itoa (n div 10)) \<noteq> 48" by simp
    moreover have "Itoa (n div 10) \<noteq> []" by (subst Itoa.simps) simp
    ultimately show ?thesis using False by (subst Itoa.simps) simp
  qed
qed

lemma Itoa_nonempty: "Itoa n \<noteq> []"
  by (subst Itoa.simps) simp

lemma ParseUint_Itoa: "ParseUint (Itoa n) = Some n"
proof (cases "n = 0")
  case True
  then show ?thesis by (simp add: ParseUint_def base_of_def Itoa.simps has_base_prefix_def)
next
  case False
  have "95 \<notin> set (Itoa n)" using Itoa_digits [of n] digit_facts(3) by (metis (no_types))
  with False show ?thesis using hd_Itoa [of n] by (simp add: ParseUint_def base_of_def parse_Itoa Itoa_nonempty)
qed

lemma ParseInt_int_text:
  assumes "- (2 ^ 63) \<le> n" "n < 2 ^ 63"
  shows "ParseInt (int_text n) = Some n"
proof -
  have "hd (Itoa m) \<noteq> 45 \<and> hd (Itoa m) \<noteq> 43" for m
    using Itoa_digits [of m] Itoa_nonempty [of m] digit_facts(4,5) by (metis (no_types) hd_in_set)
  with assms show ?thesis by (auto simp: ParseInt_def int_text_def ParseUint_Itoa Itoa_nonempty Let_def nat_less_iff)
qed

subsection \<open>Parsing a command line\<close>

text \<open>One flag with its value in the next argument.\<close>

lemma parse_value:
  assumes "name \<noteq> []" "hd name \<noteq> 45" "61 \<notin> set name" "find (\<lambda>f. fl_name f = name) formal = Some f"
    and "\<not> fl_bool f" "fl_Set f v st = Some st'"
  shows "FlagSet_Parse eh formal ((45 # name) # v # args) st = FlagSet_Parse eh formal args st'"
proof -
  have "split_flag name = (name, None)"
    using assms(1,3) by (cases name) (auto simp: split_flag_def IndexByte_None split: option.split)
  moreover have "hd name \<noteq> 61" using assms(1,3) by (metis hd_in_set)
  ultimately have "parseOne formal ((45 # name) # v # args) st = Seen args st'"
    using assms by (cases name) (auto simp: parseOne_def Let_def)
  then show ?thesis by (subst FlagSet_Parse.simps) simp
qed

lemma exit_codes:
  "FlagSet_Parse ExitOnError formal args st = Exit n \<Longrightarrow> n = 0 \<or> n = 2"
  "FlagSet_Parse ExitOnError formal args st = Go (ok, st') \<Longrightarrow> ok"
proof (induction ExitOnError formal args st rule: FlagSet_Parse.induct)
  case (1 formal args st)
  {
    case 1
    then show ?case using "1.hyps"(1) by (subst (asm) FlagSet_Parse.simps) (auto split: parsed.splits)
  next
    case 2
    then show ?case using "1.hyps"(2) by (subst (asm) FlagSet_Parse.simps) (auto split: parsed.splits)
  }
qed

text \<open>Without arguments the client runs with the defaults.\<close>

lemma Parse_no_args:
  assumes "\<forall>r \<in> {97..122}. lib_IsPrint lib r"
  shows "Parse lib [] = Go Parse_defaults"
proof -
  have "sanitizeName (lib_IsPrint lib) DefaultClientName = DefaultClientName"
    using assms by (intro sanitize_ascii) (simp_all add: DefaultClientName_def str_def)
  then show ?thesis
    by (simp add: Parse_def FlagSet_Parse.simps parseOne_def Config.defs settings.defs) (simp add: Parse_defaults_def)
qed

text \<open>
  The flag set is made with \<open>ExitOnError\<close>, so a wrong command line ends the program inside the
  flag package, with code 2, and never reaches the usage text and the code 1 that \<open>Parse\<close> has for it:
  whatever the arguments, the program exits with 0, exits with 2, or goes on with a client name
  within its limit.
\<close>

theorem Parse_outcomes:
  "(\<exists>n \<in> {0, 2}. Parse lib args = Exit n) \<or>
   (\<exists>cfg. Parse lib args = Go cfg \<and> length (cfg_ClientName cfg) \<le> maxNameLen)"
proof (cases "FlagSet_Parse ExitOnError (client_flags lib) args (Config.extend Parse_defaults (settings.fields False))")
  case (Exit n)
  then show ?thesis using exit_codes(1) by (fastforce simp: Parse_def)
next
  case (Go r)
  obtain ok c where r: "r = (ok, c)" by fastforce
  have ok using exit_codes(2) Go unfolding r by this
  with Go r show ?thesis
    by (cases "verInfo c") (simp_all add: Parse_def Config.defs sanitizeName_def Let_def)
qed

text \<open>
  C40: The command line carries the whole configuration: setting every flag to a value, with any client
  name, address and file names and any 64-bit numbers, the program runs with exactly these values, the
  name sanitized.
\<close>

theorem Parse_args_of:
  assumes "\<forall>d \<in> {cfg_Timeout c, cfg_RateWindow c, cfg_PingWindow c}. lib_ParseDuration lib (dur d) = Some d"
    and "lib_ParseLevel lib (lvl (cfg_LogLevel c)) = Some (cfg_LogLevel c)"
    and "\<forall>n \<in> {cfg_Port c, cfg_RateLimit c, cfg_MaxMessageSize c}. - (2 ^ 63) \<le> n \<and> n < 2 ^ 63"
  shows "Parse lib (args_of dur lvl c) = Go (c\<lparr>cfg_ClientName := sanitizeName (lib_IsPrint lib) (cfg_ClientName c)\<rparr>)"
proof -
  let ?F = "client_flags lib" and ?P = "FlagSet_Parse ExitOnError (client_flags lib)"
  have n: "ParseInt (int_text n) = Some n" if "n \<in> {cfg_Port c, cfg_RateLimit c, cfg_MaxMessageSize c}" for n
    using assms(3) that by (intro ParseInt_int_text) auto
  have step: "?P (str (CHR ''-'' # name) # v # args) st = ?P args st'"
    if "name \<noteq> []" "hd (str name) \<noteq> 45" "61 \<notin> set (str name)"
      "case find (\<lambda>f. fl_name f = str name) ?F of None \<Rightarrow> False | Some f \<Rightarrow> \<not> fl_bool f \<and> fl_Set f v st = Some st'"
      for name v args st st'
    using parse_value [of "str name" ?F _ v st st' ExitOnError args] that by (auto simp: str_def split: option.splits)
  have "?P (str ''-client'' # v # args) st = ?P args (st\<lparr>cfg_ClientName := v\<rparr>)"
    "?P (str ''-addr'' # v # args) st = ?P args (st\<lparr>cfg_PeerAddr := v\<rparr>)"
    "?P (str ''-cert'' # v # args) st = ?P args (st\<lparr>cfg_CertFile := v\<rparr>)"
    "?P (str ''-key'' # v # args) st = ?P args (st\<lparr>cfg_KeyFileTLS := v\<rparr>)"
    "?P (str ''-t'' # dur (cfg_Timeout c) # args) st = ?P args (st\<lparr>cfg_Timeout := cfg_Timeout c\<rparr>)"
    "?P (str ''-rate-window'' # dur (cfg_RateWindow c) # args) st = ?P args (st\<lparr>cfg_RateWindow := cfg_RateWindow c\<rparr>)"
    "?P (str ''-ping-window'' # dur (cfg_PingWindow c) # args) st = ?P args (st\<lparr>cfg_PingWindow := cfg_PingWindow c\<rparr>)"
    "?P (str ''-l'' # lvl (cfg_LogLevel c) # args) st = ?P args (st\<lparr>cfg_LogLevel := cfg_LogLevel c\<rparr>)"
    "?P (str ''-p'' # int_text (cfg_Port c) # args) st = ?P args (st\<lparr>cfg_Port := cfg_Port c\<rparr>)"
    "?P (str ''-rate-limit'' # int_text (cfg_RateLimit c) # args) st = ?P args (st\<lparr>cfg_RateLimit := cfg_RateLimit c\<rparr>)"
    "?P (str ''-max-msg-size'' # int_text (cfg_MaxMessageSize c) # args) st =
      ?P args (st\<lparr>cfg_MaxMessageSize := cfg_MaxMessageSize c\<rparr>)" for v args st
    using assms(1,2) by - (rule step; simp add: client_flags_def str_def n)+
  moreover have "?P [if b then str ''-w'' else str ''-w=false''] st = Go (True, st\<lparr>cfg_WriteMode := b\<rparr>)" for b st
    by (cases b; subst FlagSet_Parse.simps)
      (simp_all add: parseOne_def Let_def split_flag_def set_flag_def client_flags_def ParseBool_def str_def FlagSet_Parse.simps)
  ultimately show ?thesis by (simp add: Parse_def args_of_def Parse_defaults_def Config.defs settings.defs)
qed

theorem Parse_args_of_witness:
  "Parse \<lparr>lib_ParseDuration = ParseInt, lib_ParseLevel = ParseInt, lib_IsPrint = (\<lambda>r. 32 \<le> r)\<rparr>
     (args_of int_text int_text Parse_defaults) =
   Go (Parse_defaults\<lparr>cfg_ClientName := sanitizeName (\<lambda>r. 32 \<le> r) (str ''default'')\<rparr>)"
  using Parse_args_of [of Parse_defaults "\<lparr>lib_ParseDuration = ParseInt, lib_ParseLevel = ParseInt, lib_IsPrint = (\<lambda>r. 32 \<le> r)\<rparr>"
      int_text int_text]
  by (simp add: ParseInt_int_text Parse_defaults_def DefaultClientName_def)

end
