(* ===== verification/Lifecycle.thy ===== *)
theory Lifecycle
  imports System Flags
begin

text \<open>
  Starting, running and stopping a client: \<open>New\<close> of \<open>client/client.go\<close> with \<open>New\<close> of \<open>store/store.go\<close>,
  \<open>Shutdown\<close>, the loop over typed lines, and the reconnect loop of \<open>client/peer.go\<close>.

  Starting takes what survives a run: the directory of the key file and the database of the identity
  found there.  The reconnect loop takes what the network does as a list of attempts: what dialling
  gives, the frames and typed lines while the session lasts, and whether the program is cancelled
  meanwhile.
\<close>

subsection \<open>Starting\<close>

text \<open>
  The statements that create the tables and indices where they do not exist: they leave the rows
  alone, and any failure panics.  The cache of a new process is empty.
\<close>

definition store_New :: "ext \<Rightarrow> 'z store_scheme \<Rightarrow> unit result \<times> 'z store_scheme" where
  "store_New x s =
     bindS (forS (\<lambda>_ s. catchS (db_exec x ''store: create table'' (\<lambda>s. s) s)
         (\<lambda>_ s. (Inl (Panic ''store: create table''), s)) (\<lambda>_ s. (Inr (), s))) [0 ..< 9] s)
       (\<lambda>_ s. (Inr (), s\<lparr>cache := (\<lambda>_. None)\<rparr>))"

text \<open>No session yet: the value of references that name none.\<close>

definition no_session :: "Keys \<Rightarrow> session" where
  "no_session k = \<lparr>ss_conn = None, ss_ourName = [], ss_ourStatic = K_Public k, ss_ourKeys = k,
     ss_sendr = \<lparr>cph_key = None, cph_nonce = 0\<rparr>, ss_recv = \<lparr>cph_key = None, cph_nonce = 0\<rparr>,
     ss_peer = \<lparr>pi_name = [], pi_ephemeralKey = NilKey, pi_staticPubKey = NilKey\<rparr>,
     ss_timeout = 0, ss_stat = [], ss_msgLimiter = newMsgLimiter 0 0 0\<rparr>"

definition fresh_client :: "Config \<Rightarrow> Keys \<Rightarrow> 'z store_scheme \<Rightarrow> client" where
  "fresh_client cfg k s =
     \<lparr>tick = tick s, chats = chats s, chat_search = chat_search s, files = files s, known_peers = known_peers s,
      outbox = outbox s, profile = profile s, cache = cache s, cl_Keys = k, cl_Timeout = cfg_Timeout cfg,
      cl_RateLimit = cfg_RateLimit cfg, cl_RateWindow = cfg_RateWindow cfg,
      cl_MaxMessageSize = cfg_MaxMessageSize cfg, cl_sessions = [], cl_heap = (\<lambda>_. no_session k), cl_next = 0,
      cl_pendingFiles = (\<lambda>_. None)\<rparr>"

text \<open>
  \<open>keypair\<close> tells whether \<open>tls.LoadX509KeyPair\<close> loads a certificate and its key: when it does not, the
  program ends.  The value says whether there is a TLS configuration.
\<close>

definition loadTLSConfig :: "(gostring \<Rightarrow> gostring \<Rightarrow> bool) \<Rightarrow> Config \<Rightarrow> bool process" where
  "loadTLSConfig keypair cfg =
     (if \<not> UseTLS cfg then Go False
      else if keypair (cfg_CertFile cfg) (cfg_KeyFileTLS cfg) then Go True else Exit 1)"

definition client_New ::
  "ext \<Rightarrow> (gostring \<Rightarrow> gostring \<Rightarrow> bool) \<Rightarrow> Config \<Rightarrow> key \<Rightarrow> bool \<Rightarrow> dir_entry list option \<Rightarrow> 'z store_scheme \<Rightarrow>
    client process result \<times> dir_entry list option" where
  "client_New x keypair cfg seed write_ok dir db =
     (let (k, dir) = AutoLoad x seed write_ok dir
      in (bindR k (\<lambda>k.
            let (made, db) = store_New x db in
            bindR made (\<lambda>_.
              case loadTLSConfig keypair cfg of
                Exit n \<Rightarrow> Inr (Exit n)
              | Go _ \<Rightarrow>
                 (let c = fresh_client cfg k db;
                      (named, c) = (if cfg_ClientName cfg \<noteq> []
                                    then ignoreS (profile_Update x (cfg_ClientName cfg) uuid_Nil c) else (Inr (), c))
                  in bindR named (\<lambda>_. Inr (Go c))))), dir))"

subsection \<open>Stopping\<close>

definition Shutdown :: "client \<Rightarrow> unit result \<times> client" where
  "Shutdown c = forS (\<lambda>(k, r) c. close_session r c) (cl_sessions c) c"

subsection \<open>Typed lines\<close>

definition stdinLoop :: "ext \<Rightarrow> gostring list \<Rightarrow> client \<Rightarrow> unit result \<times> client" where
  "stdinLoop x lines c = forS (\<lambda>line c. if line = [] then (Inr (), c) else sendToAll x line c) lines c"

subsection \<open>Pings\<close>

text \<open>
  What the ping loop of an accepted session sees: its context is done, or a tick of its clock.  Its
  result says whether it cancelled the context of the read loop, which does not look at it.
\<close>

datatype ping_event = CtxDone | Tick

primrec pingLoop :: "ext \<Rightarrow> nat \<Rightarrow> ping_event list \<Rightarrow> client \<Rightarrow> bool \<times> client" where
  "pingLoop x r [] c = (False, c)"
| "pingLoop x r (e # es) c =
     (case e of
        CtxDone \<Rightarrow> (False, c)
      | Tick \<Rightarrow>
          (let ok = conn_live (cl_heap c r) \<and> x_write x (tick c); c = c\<lparr>tick := Suc (tick c)\<rparr>
           in if ok then pingLoop x r es c else (True, c)))"

text \<open>A failed ping ends the loop, and the session stays as it is: in the map, with its connection.\<close>

lemma failed_ping_keeps_session:
  assumes "pingLoop x r es c = (cancelled, c')"
  shows "cl_sessions c' = cl_sessions c \<and> cl_heap c' = cl_heap c \<and>
    (\<not> conn_live (cl_heap c r) \<longrightarrow> Tick \<in> set (takeWhile (\<lambda>e. e \<noteq> CtxDone) es) \<longrightarrow> cancelled)"
  using assms
proof (induction es arbitrary: c)
  case (Cons e es)
  then show ?case
    by (cases e) (force simp: Let_def split: if_splits)+
qed simp

subsection \<open>Staying connected\<close>

datatype chat_event = Got bytes | Typed gostring

datatype attempt = Attempt (att_dial: dial) (att_events: "chat_event list") (att_cancelled: bool)

text \<open>The read loop and the write loop of a dialled session, side by side.\<close>

definition chat :: "ext \<Rightarrow> nat \<Rightarrow> key \<Rightarrow> chat_event list \<Rightarrow> client \<Rightarrow> unit result \<times> client" where
  "chat x r pubKey events c =
     forS (\<lambda>ev c. case ev of
         Got data \<Rightarrow> handle_frame x r pubKey data c
       | Typed line \<Rightarrow> peerWriteLoop x r [line] c) events c"

text \<open>
  How an attempt ends: cancelled, in which case the session is left to the goroutine that reads it;
  disconnected, the read loop having cleaned up; or with the error of the dial.
\<close>

datatype outcome = Cancelled | Disconnected | DialFailed go_error

definition connectAndChat :: "ext \<Rightarrow> gostring \<Rightarrow> attempt \<Rightarrow> client \<Rightarrow> outcome result \<times> client" where
  "connectAndChat x addr a c =
     catchS (dialAndHandshake x addr (att_dial a) c) (\<lambda>e c. (Inr (DialFailed e), c)) (\<lambda>r c.
       let pubKey = peerPubKey (cl_heap c r); (res, c) = chat x r pubKey (att_events a) c
       in if att_cancelled a then bindS (res, c) (\<lambda>_ c. (Inr Cancelled, c))
          else bindS (teardown x r pubKey c) (\<lambda>_ c. bindS (res, c) (\<lambda>_ c. (Inr Disconnected, c))))"

fun ConnectToPeer :: "ext \<Rightarrow> gostring \<Rightarrow> attempt list \<Rightarrow> client \<Rightarrow> unit result \<times> client" where
  "ConnectToPeer x addr [] c = (Inr (), c)"
| "ConnectToPeer x addr (a # as) c =
     bindS (connectAndChat x addr a c) (\<lambda>out c.
       case out of
         Cancelled \<Rightarrow> (Inr (), c)
       | Disconnected \<Rightarrow> ConnectToPeer x addr as c
       | DialFailed _ \<Rightarrow> (Inr (), c))"

subsection \<open>A restart\<close>

lemma store_New_eq:
  fixes s :: "'z store_scheme"
  assumes "store_New x s = (r, s')"
  shows "(r = Inr () \<longrightarrow> (\<exists>t \<ge> tick s. s' = s\<lparr>tick := t, cache := (\<lambda>_. None)\<rparr>)) \<and> ((\<forall>t. x_db x t) \<longrightarrow> r = Inr ())"
proof -
  let ?f = "\<lambda>_ s. catchS (db_exec x ''store: create table'' (\<lambda>s. s) s)
    (\<lambda>_ s. (Inl (Panic ''store: create table''), s)) (\<lambda>_ s. (Inr (), s))"
  have "\<exists>t \<ge> tick s. snd (forS ?f is s) = s\<lparr>tick := t\<rparr> \<and> ((\<forall>t. x_db x t) \<longrightarrow> fst (forS ?f is s) = Inr ())"
    for "is" :: "nat list" and s :: "'z store_scheme"
  proof (induction "is" arbitrary: s)
    case Nil
    show ?case by (intro exI [of _ "tick s"]) simp
  next
    case (Cons i "is")
    obtain t where "t \<ge> Suc (tick s)" "snd (forS ?f is (s\<lparr>tick := Suc (tick s)\<rparr>)) = s\<lparr>tick := t\<rparr>"
      "(\<forall>t. x_db x t) \<longrightarrow> fst (forS ?f is (s\<lparr>tick := Suc (tick s)\<rparr>)) = Inr ()"
      using Cons [of "s\<lparr>tick := Suc (tick s)\<rparr>"] by auto
    then show ?case by (cases "x_db x (tick s)") (auto simp: db_exec_eq intro: exI [of _ t] exI [of _ "Suc (tick s)"])
  qed
  from this [of s "[0 ..< 9]"] show ?thesis
    using assms unfolding store_New_def by (cases "forS ?f [0 ..< 9] s"; cases "fst (forS ?f [0 ..< 9] s)") auto
qed

lemma profile_Update_frame:
  fixes c :: client
  shows "\<exists>t \<ge> tick c. \<exists>p. snd (profile_Update x n i c) = c\<lparr>tick := t, profile := p\<rparr>"
  by (intro exI [of _ "Suc (Suc (tick c))"] exI [of _ "profile (snd (profile_Update x n i c))"] conjI)
    (auto simp: profile_Update_def db_exec_eq Let_def intro!: client.equality)

lemma started_client:
  assumes "client_New x kp cfg seed w dir db = (Inr (Go c), dir')"
  obtains k t p where "AutoLoad x seed w dir = (Inr k, dir')" "tick db \<le> t"
    "c = (fresh_client cfg k db)\<lparr>tick := t, cache := (\<lambda>_. None), profile := p\<rparr>"
    "cfg_ClientName cfg = [] \<or> (\<forall>t. x_db x t) \<longrightarrow>
      p = (if cfg_ClientName cfg \<noteq> [] then Some (cfg_ClientName cfg, []) else profile db)"
proof -
  obtain k where k: "AutoLoad x seed w dir = (Inr k, dir')"
    using assms by (auto simp: client_New_def Let_def bindR_def split: prod.splits sum.splits)
  obtain r s' where s': "store_New x db = (r, s')" by fastforce
  have r: "r = Inr ()" using assms k s' by (auto simp: client_New_def bindR_def split: sum.splits)
  obtain t where t: "t \<ge> tick db" "s' = db\<lparr>tick := t, cache := (\<lambda>_. None)\<rparr>" using store_New_eq [OF s'] r by blast
  let ?c = "fresh_client cfg k s'"
  have c: "c = (if cfg_ClientName cfg \<noteq> [] then snd (profile_Update x (cfg_ClientName cfg) uuid_Nil ?c) else ?c)"
    using assms k s' r
    by (auto simp: client_New_def bindR_def Let_def split: process.splits if_splits sum.splits prod.splits)
      (metis snd_conv snd_ignoreS)
  obtain u p where u: "u \<ge> t" "c = ?c\<lparr>tick := u, profile := p\<rparr>"
  proof (cases "cfg_ClientName cfg = []")
    case True
    then show ?thesis using that [of t "profile ?c"] c t by (simp add: fresh_client_def)
  next
    case False
    have "tick ?c = t" using t by (simp add: fresh_client_def)
    with False c show ?thesis using that profile_Update_frame [of ?c x "cfg_ClientName cfg" uuid_Nil] by auto
  qed
  have "cfg_ClientName cfg = [] \<or> (\<forall>t. x_db x t) \<longrightarrow> p = (if cfg_ClientName cfg \<noteq> [] then Some (cfg_ClientName cfg, []) else profile db)"
    using c u t by (auto simp: fresh_client_def profile_Update_def db_exec_eq Let_def split: option.splits dest: arg_cong [of _ _ profile])
  with that [OF k _ _ this, of u] u t show ?thesis by (simp add: fresh_client_def)
qed

lemma restarted:
  assumes "client_inv x c" "client_New x kp cfg seed w dir c = (Inr (Go c'), dir')"
    and "fst (AutoLoad x seed w dir) = Inr (cl_Keys c)"
  shows "client_inv x c' \<and> cl_Keys c' = cl_Keys c \<and> cl_sessions c' = [] \<and>
    stored x (secret_of c') c' = stored x (secret_of c) c \<and>
    outbox_queue x (secret_of c') c' = outbox_queue x (secret_of c) c \<and>
    files c' = files c \<and> known_peers c' = known_peers c \<and> chat_search c' = chat_search c \<and>
    (cfg_ClientName cfg = [] \<or> (\<forall>t. x_db x t) \<longrightarrow>
       profile c' = (if cfg_ClientName cfg \<noteq> [] then Some (cfg_ClientName cfg, []) else profile c))"
proof -
  obtain k t p where k: "AutoLoad x seed w dir = (Inr k, dir')" and t: "tick c \<le> t"
    and c': "c' = (fresh_client cfg k c)\<lparr>tick := t, cache := (\<lambda>_. None), profile := p\<rparr>"
    and p: "cfg_ClientName cfg = [] \<or> (\<forall>t. x_db x t) \<longrightarrow>
      p = (if cfg_ClientName cfg \<noteq> [] then Some (cfg_ClientName cfg, []) else profile c)"
    by (rule started_client [OF assms(2)])
  have "k = cl_Keys c" using assms(3) k by simp
  have same: "chats c' = chats c" "outbox c' = outbox c" "files c' = files c" "known_peers c' = known_peers c"
    "chat_search c' = chat_search c" "cl_Keys c' = cl_Keys c" "cl_sessions c' = []" "cache c' = (\<lambda>_. None)" "tick c \<le> tick c'"
    using t \<open>k = cl_Keys c\<close> by (simp_all add: c' fresh_client_def)
  have "client_inv x c'"
    using assms(1) same outbox_ok_cong [of x "secret_of c" c c']
    by (simp add: client_inv_def store_inv_def sessions_wf_def cache_coherent_def)
  moreover have "profile c' = p" by (simp add: c')
  ultimately show ?thesis using same p by (simp add: stored_cong [of c' c] outbox_queue_cong [of c' c])
qed

text \<open>
  C28: A restart keeps everything but the profile: started again with the same identity on the database of
  any reachable state, the client has every message, index entry, file, peer and queued signal it had, no
  sessions, and satisfies the invariant again, so that everything shown of a running client holds after
  it.  The profile it keeps only when it is started with an empty client name; otherwise the name is
  replaced by the configured one and the picture is dropped.
\<close>

theorem restart_keeps_data:
  assumes "client_inv x c" "client_New x kp cfg seed w dir c = (Inr (Go c'), dir')"
    and "fst (AutoLoad x seed w dir) = Inr (cl_Keys c)"
  shows "client_inv x c' \<and> cl_Keys c' = cl_Keys c \<and> cl_sessions c' = [] \<and>
    stored x (secret_of c') c' = stored x (secret_of c) c \<and>
    outbox_queue x (secret_of c') c' = outbox_queue x (secret_of c) c \<and>
    files c' = files c \<and> known_peers c' = known_peers c \<and> chat_search c' = chat_search c \<and>
    (cfg_ClientName cfg = [] \<or> (\<forall>t. x_db x t) \<longrightarrow>
       profile c' = (if cfg_ClientName cfg \<noteq> [] then Some (cfg_ClientName cfg, []) else profile c))"
  using restarted [OF assms] .

text \<open>The first start of the examples, in an empty directory with an empty database.\<close>

lemma demo_start:
  "\<exists>c. client_New demo_ext kp Parse_defaults 5 True (Some []) (s :: 'z store_scheme) = (Inr (Go c), snd (AutoLoad demo_ext 5 True (Some []))) \<and>
     fst (AutoLoad demo_ext 5 True (Some [])) = Inr (keys_of_seed demo_ext 5)"
proof -
  have f: "findExistingKey (Some []) = None" by (simp add: findExistingKey_def)
  obtain r s' where n: "store_New demo_ext s = (r, s')" by fastforce
  moreover have "r = Inr ()" using store_New_eq [OF n] by simp
  ultimately show ?thesis
    by (simp add: client_New_def AutoLoad_def f Let_def profile_Update_def db_exec_eq loadTLSConfig_def UseTLS_def)
      (simp add: Parse_defaults_def)
qed

theorem restart_keeps_data_witness:
  "\<exists>c'. fst (client_New demo_ext (\<lambda>_ _. True) Parse_defaults 5 True (Some []) demo_client) = Inr (Go c') \<and>
     client_inv demo_ext c' \<and> cl_sessions c' = [] \<and> profile c' = Some (str ''default'', [])"
proof -
  obtain c' where n: "client_New demo_ext (\<lambda>_ _. True) Parse_defaults 5 True (Some []) demo_client =
      (Inr (Go c'), snd (AutoLoad demo_ext 5 True (Some [])))" "fst (AutoLoad demo_ext 5 True (Some [])) = Inr (keys_of_seed demo_ext 5)"
    using demo_start [of "\<lambda>_ _. True" demo_client] by blast
  have k: "cl_Keys demo_client = keys_of_seed demo_ext 5" by (simp add: demo_client_def)
  have d: "cfg_ClientName Parse_defaults = str ''default''" "str ''default'' \<noteq> []"
    by (simp_all add: Parse_defaults_def DefaultClientName_def str_def)
  from restart_keeps_data [OF demo_client_inv n(1) n(2) [folded k]] n(1) d show ?thesis by simp
qed

text \<open>
  Every start forgets the profile: whatever name and picture the user had set, a start with a client
  name, and the default configuration has one, replaces the name by it and drops the picture.
\<close>

theorem start_resets_profile:
  assumes "client_New x kp cfg seed w dir db = (Inr (Go c), dir')" "\<And>t. x_db x t" "cfg_ClientName cfg \<noteq> []"
  shows "profile c = Some (cfg_ClientName cfg, []) \<and> fst (getName x c) = cfg_ClientName cfg \<and>
    inf_ProfilePic (fst (client_Info x c)) = uuid_Nil"
proof -
  have "profile c = Some (cfg_ClientName cfg, [])"
    by (rule started_client [OF assms(1)]) (simp add: assms(2,3))
  then show ?thesis
    using assms(2) by (simp add: getName_def client_Info_def profile_Get_def db_query_eq liftR_def uuid_Scan_def)
qed

theorem start_resets_profile_witness:
  "\<exists>c. fst (client_New demo_ext (\<lambda>_ _. True) Parse_defaults 5 True (Some []) (demo_client\<lparr>profile := Some (str ''Ada'', uuid_bytes 7)\<rparr>)) = Inr (Go c) \<and>
     profile c = Some (str ''default'', [])"
proof -
  let ?s = "demo_client\<lparr>profile := Some (str ''Ada'', uuid_bytes 7)\<rparr>"
  obtain c where n: "client_New demo_ext (\<lambda>_ _. True) Parse_defaults 5 True (Some []) ?s = (Inr (Go c), snd (AutoLoad demo_ext 5 True (Some [])))"
    using demo_start [of "\<lambda>_ _. True" ?s] by blast
  have "cfg_ClientName Parse_defaults = str ''default''" by (simp add: Parse_defaults_def DefaultClientName_def)
  moreover from this have "cfg_ClientName Parse_defaults \<noteq> []" by (simp add: str_def)
  ultimately show ?thesis using start_resets_profile [OF n] n by simp
qed

subsection \<open>Shutdown\<close>

lemma close_all:
  assumes "\<forall>e \<in> set es. ss_conn (cl_heap c (snd e)) \<noteq> None"
  shows "\<exists>h. forS (\<lambda>(k, r) c. close_session r c) es c = (Inr (), c\<lparr>cl_heap := h\<rparr>) \<and>
    (\<forall>e \<in> set es. dead (h (snd e))) \<and> (\<forall>j. dead (cl_heap c j) \<longrightarrow> dead (h j))"
  using assms
proof (induction es arbitrary: c)
  case Nil
  show ?case by (rule exI [of _ "cl_heap c"]) simp
next
  case (Cons e es)
  obtain k r where e: "e = (k, r)" by fastforce
  have "ss_conn (cl_heap c r) \<noteq> None" using Cons.prems e by simp
  then obtain s where s: "close_session r c = (Inr (), set_session r s c)" "dead s" "ss_conn s \<noteq> None"
    by (auto simp: close_session_def closeConn_def dead_def conn_live_def Let_def)
  obtain h where "forS (\<lambda>(k, r) c. close_session r c) es (set_session r s c) = (Inr (), (set_session r s c)\<lparr>cl_heap := h\<rparr>)"
    "\<forall>e \<in> set es. dead (h (snd e))" "\<forall>j. dead (cl_heap (set_session r s c) j) \<longrightarrow> dead (h j)"
    using Cons.IH [of "set_session r s c"] Cons.prems s(3) by (force simp: set_session_def)
  with s e show ?case by (intro exI [of _ h]) (auto simp: set_session_def)
qed

text \<open>
  Shutting down closes every session of the map: each one's connection is closed and both its keys
  are erased, so that nothing more can be sent or read through it; the stored data stays as it was.
\<close>

theorem shutdown_closes_sessions:
  assumes "sessions_wf c"
  shows "\<exists>h. Shutdown c = (Inr (), c\<lparr>cl_heap := h\<rparr>) \<and> (\<forall>(k, r) \<in> set (cl_sessions c). dead (h r))"
proof -
  have "\<forall>e \<in> set (cl_sessions c). ss_conn (cl_heap c (snd e)) \<noteq> None" using assms by (simp add: sessions_wf_def)
  then obtain h where "Shutdown c = (Inr (), c\<lparr>cl_heap := h\<rparr>)" "\<forall>e \<in> set (cl_sessions c). dead (h (snd e))"
    using close_all unfolding Shutdown_def by blast
  then show ?thesis by (intro exI [of _ h]) auto
qed

theorem shutdown_closes_sessions_witness:
  "\<exists>h. Shutdown demo_client = (Inr (), demo_client\<lparr>cl_heap := h\<rparr>) \<and> dead (h 0)"
proof -
  have "sessions_wf demo_client" "(9, 0) \<in> set (cl_sessions demo_client)"
    using demo_client_inv by (auto simp: client_inv_def demo_client_def)
  then show ?thesis using shutdown_closes_sessions [of demo_client] by auto
qed

subsection \<open>Reconnecting\<close>

lemma teardown_done:
  assumes "teardown x r k c = (Inr (), c')"
  shows "sessions_Load k c' = None \<and> dead (cl_heap c' r)"
proof -
  obtain d where d: "touch_peer x k (sessions_Delete k c) = (Inr (), d)" "store_only (sessions_Delete k c) d"
    using touch_peer_ok by blast
  then have cl: "close_session r d = (Inr (), c')" using assms by (simp add: teardown_def)
  have conn: "ss_conn (cl_heap d r) \<noteq> None"
  proof
    assume "ss_conn (cl_heap d r) = None"
    with cl show False by (simp add: close_session_def closeConn_def Let_def)
  qed
  obtain s where "c' = set_session r s d" "dead s" using close_session_ok [OF conn] cl by auto
  moreover have "sessions_Load k d = None"
    using sessions_Load_Delete [of k k c] store_only_client(3) [OF d(2)] by (simp add: sessions_Load_def)
  ultimately show ?thesis by (simp add: set_session_def sessions_Load_def)
qed

text \<open>
  C29: A lost session is dialled again, and our own state does not stand in the way: when the loop comes
  back from a session it lost, the session map has no entry for that peer and the old session is
  closed, and the loop goes on with the next attempt.  When dialling fails instead, the loop ends and
  later attempts are not made.
\<close>

theorem lost_session_redialled:
  assumes "dialAndHandshake x addr (att_dial a) c = (q, c1)" "connectAndChat x addr a c = (res, c2)"
  shows "(\<forall>r. q = Inr r \<and> res = Inr Disconnected \<longrightarrow>
      sessions_Load (peerPubKey (cl_heap c1 r)) c2 = None \<and> dead (cl_heap c2 r) \<and>
      ConnectToPeer x addr (a # as) c = ConnectToPeer x addr as c2) \<and>
    (\<forall>e. q = Inl (Err e) \<longrightarrow> ConnectToPeer x addr (a # as) c = (Inr (), c1))"
proof (intro conjI allI impI)
  fix e
  assume "q = Inl (Err e)"
  then show "ConnectToPeer x addr (a # as) c = (Inr (), c1)" using assms(1) by (simp add: connectAndChat_def)
next
  fix r
  assume r: "q = Inr r \<and> res = Inr Disconnected"
  let ?k = "peerPubKey (cl_heap c1 r)"
  obtain cr d where ch: "chat x r ?k (att_events a) c1 = (cr, d)" by fastforce
  have td: "teardown x r ?k d = (Inr (), c2)"
    using assms r ch
    by (cases "teardown x r ?k d"; cases cr)
      (auto simp: connectAndChat_def Let_def bindS_def split: if_splits sum.splits)
  show "sessions_Load ?k c2 = None" "dead (cl_heap c2 r)" using teardown_done [OF td] by simp_all
  show "ConnectToPeer x addr (a # as) c = ConnectToPeer x addr as c2" using assms(2) r by simp
qed

lemma teardown_connected:
  assumes "ss_conn (cl_heap c r) \<noteq> None"
  shows "\<exists>c'. teardown x r k c = (Inr (), c')"
proof -
  obtain d where d: "touch_peer x k (sessions_Delete k c) = (Inr (), d)" "store_only (sessions_Delete k c) d"
    using touch_peer_ok by blast
  have "ss_conn (cl_heap d r) \<noteq> None"
    using assms store_only_client(1) [OF d(2)] by (simp add: sessions_Delete_def)
  from close_session_ok [OF this] d(1) show ?thesis by (auto simp: teardown_def)
qed

theorem lost_session_redialled_witness:
  "\<exists>c2. sessions_Load 6 c2 = None \<and>
     ConnectToPeer demo_net (str ''h:1'') [Attempt (Connected live_conn) [] False, Attempt Unreachable [] True]
       (bobs_client\<lparr>tick := 7\<rparr>) = ConnectToPeer demo_net (str ''h:1'') [Attempt Unreachable [] True] c2"
proof -
  let ?c = "bobs_client\<lparr>tick := 7\<rparr>" and ?a = "Attempt (Connected live_conn) [] False"
  obtain c1 where d: "dialAndHandshake demo_net (str ''h:1'') (att_dial ?a) ?c = (Inr 1, c1)" "peerPubKey (cl_heap c1 1) = 6"
    using bobs_dial by auto
  obtain c2 where t: "teardown demo_net 1 6 c1 = (Inr (), c2)"
    using teardown_connected sound.dialled_fit [OF d(1)] by (metis fit_def)
  have "connectAndChat demo_net (str ''h:1'') ?a ?c = (Inr Disconnected, c2)"
    using d t by (simp add: connectAndChat_def chat_def Let_def)
  from lost_session_redialled [OF d(1) this, of "[Attempt Unreachable [] True]"] d(2) show ?thesis by auto
qed

lemma chat_run:
  assumes "r < cl_next c" "k = peerPubKey (cl_heap c r)"
  shows "(client_step x)\<^sup>*\<^sup>* c (snd (chat x r k events c))"
  using assms
proof (induction events arbitrary: c)
  case (Cons ev events)
  let ?f = "\<lambda>ev c. case ev of Got data \<Rightarrow> handle_frame x r k data c | Typed line \<Rightarrow> peerWriteLoop x r [line] c"
  obtain q d where d: "?f ev c = (q, d)" by fastforce
  have 1: "client_step x c d"
    using d client_step.frame [of x c r] client_step.typed_peer [of x c r] Cons.prems(2)
    by (cases ev) (metis chat_event.case snd_conv)+
  have k: "r < cl_next d" "k = peerPubKey (cl_heap d r)"
    using client_step_sound [OF 1] Cons.prems by (auto simp: sound_step_def peerPubKey_def)
  have "snd (chat x r k (ev # events) c) = (case q of Inl _ \<Rightarrow> d | Inr _ \<Rightarrow> snd (chat x r k events d))"
    using d by (cases q) (simp_all add: chat_def)
  with 1 Cons.IH [OF k] show ?case by (auto intro: converse_rtranclp_into_rtranclp split: sum.split)
qed (simp add: chat_def)

lemma connectAndChat_run: "(client_step x)\<^sup>*\<^sup>* c (snd (connectAndChat x addr a c))"
proof -
  obtain q d where q: "dialAndHandshake x addr (att_dial a) c = (q, d)" by fastforce
  have 1: "client_step x c d" using client_step.dialled [of x c addr "att_dial a"] q by (simp add: connectSession_def)
  show ?thesis
  proof (cases q)
    case (Inl e)
    then show ?thesis using q 1 by (cases e) (auto simp: connectAndChat_def)
  next
    case (Inr r)
    let ?k = "peerPubKey (cl_heap d r)"
    have r: "r < cl_next d" using sound.dialled_fit q Inr by (simp add: fit_def)
    obtain cr e where ch: "chat x r ?k (att_events a) d = (cr, e)" by fastforce
    have 2: "(client_step x)\<^sup>*\<^sup>* d e" using chat_run [OF r refl, of x "att_events a"] ch by simp
    have "peerPubKey (cl_heap e r) = ?k" using client_run_sound [OF 2] r by (simp add: sound_step_def peerPubKey_def)
    then have 3: "client_step x e (snd (teardown x r ?k e))" using client_step.ended [of x e r] by simp
    have "snd (connectAndChat x addr a c) = (if att_cancelled a then e else snd (teardown x r ?k e))"
      using q Inr ch
      by (cases "teardown x r ?k e"; cases "fst (teardown x r ?k e)"; cases cr)
        (auto simp: connectAndChat_def Let_def)
    with 1 2 3 show ?thesis
      by (auto intro: converse_rtranclp_into_rtranclp rtranclp.rtrancl_into_rtrancl)
  qed
qed

text \<open>
  The loops that run beside the handlers, the one over typed lines and the one that keeps a peer
  connected, are runs of the state machine too.
\<close>

theorem loops_are_runs:
  "(client_step x)\<^sup>*\<^sup>* c (snd (ConnectToPeer x addr as c)) \<and> (client_step x)\<^sup>*\<^sup>* c (snd (stdinLoop x lines c))"
proof
  show "(client_step x)\<^sup>*\<^sup>* c (snd (ConnectToPeer x addr as c))"
  proof (induction as arbitrary: c)
    case (Cons a as)
    obtain q d where q: "connectAndChat x addr a c = (q, d)" by fastforce
    have "(client_step x)\<^sup>*\<^sup>* c d" using connectAndChat_run [of x c addr a] q by simp
    with q Cons [of d] show ?case
      by (cases q) (auto split: outcome.split intro: rtranclp_trans)
  qed simp
  show "(client_step x)\<^sup>*\<^sup>* c (snd (stdinLoop x lines c))"
  proof (induction lines arbitrary: c)
    case (Cons line lines)
    obtain q d where q: "(if line = [] then (Inr (), c) else sendToAll x line c) = (q, d)" by fastforce
    then have "(client_step x)\<^sup>*\<^sup>* c d"
      using client_step.typed [of x c line] by (auto split: if_splits)
    moreover have "snd (stdinLoop x (line # lines) c) = (case q of Inl _ \<Rightarrow> d | Inr _ \<Rightarrow> snd (stdinLoop x lines d))"
      using q by (cases q) (simp_all add: stdinLoop_def)
    ultimately show ?case using Cons [of d] by (auto intro: rtranclp_trans split: sum.split)
  qed (simp add: stdinLoop_def)
qed

end
