(* ===== verification/Mux.thy ===== *)
theory Mux
  imports Net
begin

text \<open>
  Go's \<open>http.ServeMux\<close> as the programs use it: parsing a pattern, the conflicts that make registering
  one panic, and finding the handler of a request.

  A path is the escaped path of the request.  Patterns have a method or none, no host, and segments
  that are literals, wildcards for one segment, or a trailing slash for everything below.  The routing
  tree is given by the patterns themselves: a node is the list of what is left of the patterns that
  lead to it.
\<close>

abbreviation slash :: byte where "slash \<equiv> 47"

datatype segment = Lit gostring | is_Wild: Wild gostring | Multi

datatype pattern = Pattern (pat_method: gostring) (pat_segments: "segment list")

subsection \<open>Paths\<close>

definition hex_digit :: "byte \<Rightarrow> nat option" where
  "hex_digit c =
     (let n = unat c in
      if 48 \<le> n \<and> n \<le> 57 then Some (n - 48)
      else if 97 \<le> n \<and> n \<le> 102 then Some (n - 87)
      else if 65 \<le> n \<and> n \<le> 70 then Some (n - 55) else None)"

fun PathUnescape :: "gostring \<Rightarrow> gostring option" where
  "PathUnescape [] = Some []"
| "PathUnescape (c # s) =
     (if c \<noteq> 37 then map_option ((#) c) (PathUnescape s)
      else case s of
        a # b # t \<Rightarrow>
          (case (hex_digit a, hex_digit b) of
             (Some m, Some n) \<Rightarrow> map_option ((#) (of_nat (16 * m + n))) (PathUnescape t)
           | _ \<Rightarrow> None)
      | _ \<Rightarrow> None)"

definition pathUnescape :: "gostring \<Rightarrow> gostring" where
  "pathUnescape s = (case PathUnescape s of None \<Rightarrow> s | Some u \<Rightarrow> u)"

text \<open>The text before and after the first slash.\<close>

definition cut_slash :: "gostring \<Rightarrow> gostring \<times> gostring" where
  "cut_slash s = (takeWhile (\<lambda>c. c \<noteq> slash) s, dropWhile (\<lambda>c. c \<noteq> slash) s)"

text \<open>The steps of \<open>firstSegment\<close> along a path: its segments, and a slash for a trailing one.\<close>

function path_steps :: "gostring \<Rightarrow> gostring list" where
  "path_steps p =
     (if p = [] then []
      else if p = [slash] then [[slash]]
      else case cut_slash (tl p) of (seg, rest) \<Rightarrow> pathUnescape seg # path_steps rest)"
  by pat_completeness auto

termination
proof (relation "measure length")
  fix p seg rest :: gostring
  assume "p \<noteq> []" "(seg, rest) = cut_slash (tl p)"
  then have "length rest \<le> length (tl p)" by (simp add: cut_slash_def length_dropWhile_le del: length_tl)
  with \<open>p \<noteq> []\<close> show "(rest, p) \<in> measure length" by (cases p) auto
qed simp

declare path_steps.simps [simp del]

text \<open>\<open>cleanPath\<close>: the rooted path without empty and dot segments, a trailing slash kept.\<close>

fun clean_segments :: "gostring list \<Rightarrow> gostring list \<Rightarrow> gostring list" where
  "clean_segments acc [] = rev acc"
| "clean_segments acc (s # ss) =
     (if s = [] \<or> s = [46] then clean_segments acc ss
      else if s = [46, 46] then clean_segments (tl acc) ss
      else clean_segments (s # acc) ss)"

function split_slash :: "gostring \<Rightarrow> gostring list" where
  "split_slash s = (case cut_slash s of (seg, []) \<Rightarrow> [seg] | (seg, _ # rest) \<Rightarrow> seg # split_slash rest)"
  by pat_completeness auto

termination
proof (relation "measure length")
  fix s seg u c rest
  assume "(seg, u) = cut_slash s" "u = c # rest"
  then have "c # rest = dropWhile (\<lambda>c. c \<noteq> slash) s" by (simp add: cut_slash_def)
  then have "length (c # rest) \<le> length s" by (metis length_dropWhile_le)
  then show "(rest, s) \<in> measure length" by simp
qed simp

declare split_slash.simps [simp del]

definition Clean :: "gostring \<Rightarrow> gostring" where
  "Clean p =
     (let segs = clean_segments [] (split_slash p)
      in if segs = [] then [slash] else concat (map ((#) slash) segs))"

definition cleanPath :: "gostring \<Rightarrow> gostring" where
  "cleanPath p =
     (if p = [] then [slash]
      else
       (let p = (if hd p = slash then p else slash # p); np = Clean p
        in if last p = slash \<and> np \<noteq> [slash] then np @ [slash] else np))"

subsection \<open>Patterns\<close>

text \<open>
  Literals, wildcards for one segment, a trailing slash.  A method is a token of HTTP, a wildcard has the
  name of a Go variable, of ASCII characters here, and no name twice; the path of a pattern with a method
  is clean.  Hosts, \<open>{$}\<close> and wildcards for the rest of a path are not parsed.
\<close>

definition letter :: "byte \<Rightarrow> bool" where
  "letter c \<longleftrightarrow> 65 \<le> c \<and> c \<le> 90 \<or> 97 \<le> c \<and> c \<le> 122"

definition token_char :: "byte \<Rightarrow> bool" where
  "token_char c \<longleftrightarrow> letter c \<or> 48 \<le> c \<and> c \<le> 57 \<or> c \<in> {33, 35, 36, 37, 38, 39, 42, 43, 45, 46, 94, 95, 96, 124, 126}"

definition isValidWildcardName :: "gostring \<Rightarrow> bool" where
  "isValidWildcardName s \<longleftrightarrow> s \<noteq> [] \<and> (letter (hd s) \<or> hd s = 95) \<and>
     list_all (\<lambda>c. letter c \<or> c = 95 \<or> 48 \<le> c \<and> c \<le> 57) s"

definition parse_segment :: "gostring \<Rightarrow> segment option" where
  "parse_segment s =
     (if 123 \<notin> set s then Some (Lit (pathUnescape s))
      else if hd s = 123 \<and> last s = 125 \<and> isValidWildcardName (butlast (tl s))
      then Some (Wild (butlast (tl s))) else None)"

fun parse_segments :: "gostring list \<Rightarrow> segment list option" where
  "parse_segments [] = Some []"
| "parse_segments [s] = (if s = [] then Some [Multi] else map_option (\<lambda>g. [g]) (parse_segment s))"
| "parse_segments (s # ss) =
     (case (parse_segment s, parse_segments ss) of (Some g, Some gs) \<Rightarrow> Some (g # gs) | _ \<Rightarrow> None)"

abbreviation is_blank :: "byte \<Rightarrow> bool" where
  "is_blank c \<equiv> c = 32 \<or> c = 9"

definition with_segments :: "gostring \<Rightarrow> segment list option \<Rightarrow> pattern option" where
  "with_segments method segs =
     (case segs of
        None \<Rightarrow> None
      | Some gs \<Rightarrow> if distinct (filter is_Wild gs) then Some (Pattern method gs) else None)"

definition parsePattern :: "gostring \<Rightarrow> pattern option" where
  "parsePattern s =
     (let method = takeWhile (\<lambda>c. \<not> is_blank c) s;
          (method, path) = (if \<exists>c \<in> set s. is_blank c then (method, dropWhile is_blank (drop (length method) s)) else ([], s))
      in if method \<noteq> [] \<and> \<not> list_all token_char method then None
         else if path = [] \<or> hd path \<noteq> slash then None
         else if method \<noteq> [] \<and> method \<noteq> str ''CONNECT'' \<and> cleanPath path \<noteq> path then None
         else with_segments method (parse_segments (split_slash (tl path))))"

subsection \<open>Conflicts\<close>

datatype relationship = Equivalent | MoreGeneral | MoreSpecific | Disjoint | Overlaps

fun combineRelationships :: "relationship \<Rightarrow> relationship \<Rightarrow> relationship" where
  "combineRelationships Equivalent r = r"
| "combineRelationships Disjoint r = Disjoint"
| "combineRelationships Overlaps r = (if r = Disjoint then Disjoint else Overlaps)"
| "combineRelationships MoreGeneral r =
     (if r = Equivalent then MoreGeneral else if r = MoreSpecific then Overlaps else r)"
| "combineRelationships MoreSpecific r =
     (if r = Equivalent then MoreSpecific else if r = MoreGeneral then Overlaps else r)"

fun compareSegments :: "segment \<Rightarrow> segment \<Rightarrow> relationship" where
  "compareSegments Multi Multi = Equivalent"
| "compareSegments Multi _ = MoreGeneral"
| "compareSegments _ Multi = MoreSpecific"
| "compareSegments (Wild _) (Wild _) = Equivalent"
| "compareSegments (Wild _) (Lit s) = (if s = [slash] then Disjoint else MoreGeneral)"
| "compareSegments (Lit s) (Wild _) = (if s = [slash] then Disjoint else MoreSpecific)"
| "compareSegments (Lit s) (Lit t) = (if s = t then Equivalent else Disjoint)"

abbreviation ends_multi :: "segment list \<Rightarrow> bool" where
  "ends_multi ss \<equiv> ss \<noteq> [] \<and> last ss = Multi"

definition comparePaths :: "segment list \<Rightarrow> segment list \<Rightarrow> relationship" where
  "comparePaths s1 s2 =
     (let rel = fold (\<lambda>(a, b) r. combineRelationships r (compareSegments a b)) (zip s1 s2) Equivalent
      in if length s1 \<noteq> length s2 \<and> \<not> ends_multi s1 \<and> \<not> ends_multi s2 then Disjoint
         else if rel = Disjoint \<or> length s1 = length s2 then rel
         else if length s1 < length s2 \<and> ends_multi s1 then combineRelationships rel MoreGeneral
         else if length s2 < length s1 \<and> ends_multi s2 then combineRelationships rel MoreSpecific
         else Disjoint)"

definition compareMethods :: "gostring \<Rightarrow> gostring \<Rightarrow> relationship" where
  "compareMethods m1 m2 =
     (if m1 = m2 then Equivalent
      else if m1 = [] then MoreGeneral
      else if m2 = [] then MoreSpecific
      else if m1 = str ''GET'' \<and> m2 = str ''HEAD'' then MoreGeneral
      else if m2 = str ''GET'' \<and> m1 = str ''HEAD'' then MoreSpecific
      else Disjoint)"

definition conflictsWith :: "pattern \<Rightarrow> pattern \<Rightarrow> bool" where
  "conflictsWith p q \<longleftrightarrow>
     combineRelationships (compareMethods (pat_method p) (pat_method q)) (comparePaths (pat_segments p) (pat_segments q))
       \<in> {Equivalent, Overlaps}"

type_synonym 'h routes = "(pattern \<times> 'h) list"

text \<open>\<open>HandleFunc\<close>: a pattern that does not parse or conflicts with an earlier one panics.\<close>

definition HandleFunc :: "gostring \<Rightarrow> 'h \<Rightarrow> 'h routes \<Rightarrow> 'h routes result" where
  "HandleFunc s h rs =
     (case parsePattern s of
        None \<Rightarrow> Inl (Panic ''http: invalid pattern'')
      | Some p \<Rightarrow>
          if \<exists>r \<in> set rs. conflictsWith p (fst r) then Inl (Panic ''http: pattern conflicts'') else Inr (rs @ [(p, h)]))"

primrec HandleFuncs :: "(string \<times> 'h) list \<Rightarrow> 'h routes \<Rightarrow> 'h routes result" where
  "HandleFuncs [] rs = Inr rs"
| "HandleFuncs (e # es) rs = bindR (HandleFunc (str (fst e)) (snd e) rs) (HandleFuncs es)"

subsection \<open>Finding the handler\<close>

type_synonym 'r node = "(segment list \<times> 'r) list"

definition lit_child :: "gostring \<Rightarrow> 'r node \<Rightarrow> 'r node" where
  "lit_child seg n = List.map_filter (\<lambda>(ss, r). case ss of Lit s # t \<Rightarrow> if s = seg then Some (t, r) else None | _ \<Rightarrow> None) n"

definition wild_child :: "'r node \<Rightarrow> 'r node" where
  "wild_child n = List.map_filter (\<lambda>(ss, r). case ss of Wild _ # t \<Rightarrow> Some (t, r) | _ \<Rightarrow> None) n"

definition leaf :: "segment list \<Rightarrow> 'r node \<Rightarrow> 'r option" where
  "leaf ss n = map_option snd (find (\<lambda>e. fst e = ss) n)"

primrec matchPath :: "'r node \<Rightarrow> gostring list \<Rightarrow> gostring list \<Rightarrow> ('r \<times> gostring list) option" where
  "matchPath n ms [] = map_option (\<lambda>r. (r, ms)) (leaf [] n)"
| "matchPath n ms (seg # rest) =
     (case matchPath (lit_child seg n) ms rest of
        Some r \<Rightarrow> Some r
      | None \<Rightarrow>
          (case (if seg \<noteq> [slash] then matchPath (wild_child n) (ms @ [seg]) rest else None) of
             Some r \<Rightarrow> Some r
           | None \<Rightarrow> map_option (\<lambda>r. (r, ms)) (leaf [Multi] n)))"

abbreviation method_node :: "gostring \<Rightarrow> 'h routes \<Rightarrow> (pattern \<times> 'h) node" where
  "method_node m rs \<equiv> map (\<lambda>r. (pat_segments (fst r), r)) (filter (\<lambda>r. pat_method (fst r) = m) rs)"

definition matchMethodAndPath :: "'h routes \<Rightarrow> gostring \<Rightarrow> gostring \<Rightarrow> ((pattern \<times> 'h) \<times> gostring list) option" where
  "matchMethodAndPath rs method path =
     (case matchPath (method_node method rs) [] (path_steps path) of
        Some r \<Rightarrow> Some r
      | None \<Rightarrow>
          (case (if method = str ''HEAD'' then matchPath (method_node (str ''GET'') rs) [] (path_steps path) else None) of
             Some r \<Rightarrow> Some r
           | None \<Rightarrow> matchPath (method_node [] rs) [] (path_steps path)))"

definition exactMatch :: "((pattern \<times> 'h) \<times> gostring list) option \<Rightarrow> gostring \<Rightarrow> bool" where
  "exactMatch m path =
     (case m of
        None \<Rightarrow> False
      | Some ((p, _), _) \<Rightarrow>
          if \<not> ends_multi (pat_segments p) then True
          else if path \<noteq> [] \<and> last path \<noteq> slash then False
          else length (pat_segments p) = length (filter (\<lambda>c. c = slash) path))"

text \<open>\<open>matchingMethods\<close>: whether a method of the table would match the path, or the path with a slash.\<close>

definition allows :: "'h routes \<Rightarrow> gostring \<Rightarrow> gostring \<Rightarrow> bool" where
  "allows rs method path \<longleftrightarrow>
     method \<noteq> [] \<and>
     (matchPath (method_node method rs) [] (path_steps path) \<noteq> None \<or>
      \<not> (path \<noteq> [] \<and> last path = slash) \<and> matchPath (method_node method rs) [] (path_steps (path @ [slash])) \<noteq> None)"

datatype 'h found = Handler pattern 'h "gostring list" | Redirect | MethodNotAllowed | NoHandler

definition findHandler :: "'h routes \<Rightarrow> gostring \<Rightarrow> gostring \<Rightarrow> 'h found" where
  "findHandler rs method escapedPath =
     (let path = (if method = str ''CONNECT'' then escapedPath else cleanPath escapedPath);
          m = matchMethodAndPath rs method path
      in if \<not> exactMatch m path \<and> \<not> (path \<noteq> [] \<and> last path = slash) \<and>
            exactMatch (matchMethodAndPath rs method (path @ [slash])) (path @ [slash]) then Redirect
         else if path \<noteq> escapedPath then Redirect
         else case m of
           Some ((p, h), vals) \<Rightarrow> Handler p h vals
         | None \<Rightarrow>
             if \<exists>r \<in> set rs. allows rs (pat_method (fst r)) path then MethodNotAllowed else NoHandler)"

text \<open>\<open>Request.PathValue\<close>.\<close>

definition PathValue :: "pattern \<Rightarrow> gostring list \<Rightarrow> gostring \<Rightarrow> gostring" where
  "PathValue p vals name =
     (case map_of (zip (List.map_filter (\<lambda>s. case s of Wild n \<Rightarrow> Some n | _ \<Rightarrow> None) (pat_segments p)) vals) name of
        None \<Rightarrow> [] | Some v \<Rightarrow> v)"

subsection \<open>What the routing tree finds\<close>

text \<open>
  When a pattern matches a path, and which of two matching patterns is preferred: at the first segment
  where they differ, a literal to a wildcard, and a wildcard to everything below.
\<close>

fun fits :: "segment list \<Rightarrow> gostring list \<Rightarrow> bool" where
  "fits [] [] \<longleftrightarrow> True"
| "fits [Multi] (seg # rest) \<longleftrightarrow> True"
| "fits (Lit s # t) (seg # rest) \<longleftrightarrow> s = seg \<and> fits t rest"
| "fits (Wild n # t) (seg # rest) \<longleftrightarrow> seg \<noteq> [slash] \<and> fits t rest"
| "fits _ _ \<longleftrightarrow> False"

fun prefers :: "segment list \<Rightarrow> segment list \<Rightarrow> bool" where
  "prefers (Lit s # t) (Lit s' # t') \<longleftrightarrow> prefers t t'"
| "prefers (Wild n # t) (Wild n' # t') \<longleftrightarrow> prefers t t'"
| "prefers (Lit s # t) (Wild n # t') \<longleftrightarrow> True"
| "prefers (Lit s # t) (Multi # t') \<longleftrightarrow> True"
| "prefers (Wild n # t) (Multi # t') \<longleftrightarrow> True"
| "prefers (Multi # t) (Multi # t') \<longleftrightarrow> True"
| "prefers [] [] \<longleftrightarrow> True"
| "prefers _ _ \<longleftrightarrow> False"

lemma set_lit_child: "(t, r) \<in> set (lit_child seg n) \<longleftrightarrow> (Lit seg # t, r) \<in> set n"
  by (force simp: lit_child_def List.map_filter_def split: list.splits segment.splits if_splits)

lemma set_wild_child: "(t, r) \<in> set (wild_child n) \<longleftrightarrow> (\<exists>w. (Wild w # t, r) \<in> set n)"
  by (force simp: wild_child_def List.map_filter_def split: list.splits segment.splits if_splits)

lemma leaf_Some: "leaf ss n = Some r \<Longrightarrow> (ss, r) \<in> set n"
  by (auto simp: leaf_def find_Some_iff) (metis fst_conv nth_mem)

lemma leaf_None: "leaf ss n = None \<longleftrightarrow> (\<forall>r. (ss, r) \<notin> set n)"
  by (auto simp: leaf_def find_None_iff)

lemma fits_Nil: "fits ss [] \<longleftrightarrow> ss = []"
  by (cases ss) simp_all

lemma fits_Cons:
  "fits ss (seg # rest) \<longleftrightarrow>
     (\<exists>t. ss = Lit seg # t \<and> fits t rest) \<or> (\<exists>w t. ss = Wild w # t \<and> seg \<noteq> [slash] \<and> fits t rest) \<or> ss = [Multi]"
proof (cases ss)
  case (Cons a t)
  then show ?thesis by (cases a; cases t) auto
qed simp

text \<open>The values of the wildcards.\<close>

fun captured :: "segment list \<Rightarrow> gostring list \<Rightarrow> gostring list" where
  "captured (Lit s # t) (seg # rest) = captured t rest"
| "captured (Wild n # t) (seg # rest) = seg # captured t rest"
| "captured _ _ = []"

text \<open>
  The tree finds a pattern that matches, the preferred one, with the values of its wildcards; it finds
  none only if none matches.
\<close>

lemma matchPath_best:
  "(\<forall>r vals. matchPath n ms steps = Some (r, vals) \<longrightarrow>
      (\<exists>ss. (ss, r) \<in> set n \<and> fits ss steps \<and> vals = ms @ captured ss steps \<and> (\<forall>(ss', r') \<in> set n. fits ss' steps \<longrightarrow> prefers ss ss'))) \<and>
   (matchPath n ms steps = None \<longrightarrow> (\<forall>(ss, r) \<in> set n. \<not> fits ss steps))"
proof (induction steps arbitrary: n ms)
  case Nil
  show ?case by (auto simp: fits_Nil leaf_None dest: leaf_Some)
next
  case (Cons seg rest)
  let ?L = "matchPath (lit_child seg n) ms rest"
  let ?W = "if seg \<noteq> [slash] then matchPath (wild_child n) (ms @ [seg]) rest else None"
  note lit = Cons [of "lit_child seg n" ms] and wild = Cons [of "wild_child n" "ms @ [seg]"]
  have no_lit: "\<not> fits t rest" if "?L = None" "(Lit seg # t, r) \<in> set n" for t r
    using lit that by (auto simp: set_lit_child)
  have no_wild: "\<not> fits t rest" if "?W = None" "seg \<noteq> [slash]" "(Wild w # t, r) \<in> set n" for w t r
    using wild that set_wild_child [of t r n] by auto
  have "\<exists>ss. (ss, r) \<in> set n \<and> fits ss (seg # rest) \<and> vals = ms @ captured ss (seg # rest) \<and> (\<forall>(ss', r') \<in> set n. fits ss' (seg # rest) \<longrightarrow> prefers ss ss')"
    if m: "matchPath n ms (seg # rest) = Some (r, vals)" for r vals
  proof (cases ?L)
    case (Some rv)
    then have "?L = Some (r, vals)" using m by simp
    with lit obtain t where "(Lit seg # t, r) \<in> set n" "fits t rest" "vals = ms @ captured t rest"
      "\<forall>t' r'. (Lit seg # t', r') \<in> set n \<longrightarrow> fits t' rest \<longrightarrow> prefers t t'"
      by (fastforce simp: set_lit_child)
    then show ?thesis by (intro exI [of _ "Lit seg # t"]) (auto simp: fits_Cons)
  next
    case L: None
    show ?thesis
    proof (cases ?W)
      case (Some rv)
      then have "seg \<noteq> [slash]" "matchPath (wild_child n) (ms @ [seg]) rest = Some (r, vals)"
        using m L by (auto split: if_splits)
      with wild obtain w t where "(Wild w # t, r) \<in> set n" "fits t rest" "vals = ms @ seg # captured t rest"
        "\<forall>w' t' r'. (Wild w' # t', r') \<in> set n \<longrightarrow> fits t' rest \<longrightarrow> prefers t t'"
        by (fastforce simp: set_wild_child)
      with \<open>seg \<noteq> [slash]\<close> L no_lit show ?thesis by (intro exI [of _ "Wild w # t"]) (auto simp: fits_Cons, blast)
    next
      case None
      then have "leaf [Multi] n = Some r" "vals = ms" using m L by (auto split: if_splits)
      with L None leaf_Some no_lit no_wild show ?thesis by (intro exI [of _ "[Multi]"]) (auto simp: fits_Cons)
    qed
  qed
  moreover have "\<forall>(ss, r) \<in> set n. \<not> fits ss (seg # rest)" if m: "matchPath n ms (seg # rest) = None"
  proof -
    have "?L = None" "?W = None" "leaf [Multi] n = None" using m by (auto split: option.splits)
    with no_lit no_wild show ?thesis by (auto simp: fits_Cons leaf_None)
  qed
  ultimately show ?case by blast
qed

lemma matchPath_found:
  assumes "(ss, r) \<in> set n" "fits ss steps"
  obtains ss' r' vals where "matchPath n [] steps = Some (r', vals)" "(ss', r') \<in> set n" "fits ss' steps"
    "vals = captured ss' steps" "prefers ss' ss"
proof (cases "matchPath n [] steps")
  case None
  then show ?thesis using assms matchPath_best [of n "[]" steps] by blast
next
  case (Some rv)
  then show ?thesis using that assms matchPath_best [of n "[]" steps] by (cases rv) force
qed

lemma matched_registered:
  assumes "matchMethodAndPath rs m path = Some ((p, t), vals)"
  shows "(p, t) \<in> set rs \<and> fits (pat_segments p) (path_steps path)"
proof -
  obtain k where "matchPath (method_node k rs) [] (path_steps path) = Some ((p, t), vals)"
    using assms by (auto simp: matchMethodAndPath_def split: if_splits option.splits)
  with matchPath_best [of "method_node k rs" "[]" "path_steps path"] show ?thesis by fastforce
qed

lemma found_registered:
  assumes "findHandler rs m path = Handler p t vals"
  shows "(p, t) \<in> set rs \<and> fits (pat_segments p) (path_steps path)"
  using assms matched_registered [of rs m path p t vals]
  by (auto simp: findHandler_def Let_def split: if_splits option.splits)

lemma matchPath_Nil: "matchPath [] ms steps = None"
  by (induction steps arbitrary: ms) (simp_all add: leaf_def lit_child_def wild_child_def List.map_filter_def)

subsection \<open>Registering a table\<close>

primrec no_conflicts :: "pattern list \<Rightarrow> bool" where
  "no_conflicts [] \<longleftrightarrow> True"
| "no_conflicts (p # ps) \<longleftrightarrow> (\<forall>q \<in> set ps. \<not> conflictsWith q p) \<and> no_conflicts ps"

lemma HandleFuncs_ok:
  assumes "map (\<lambda>e. parsePattern (str (fst e))) es = map Some ps" "no_conflicts ps"
    and "\<forall>r \<in> set rs. \<forall>q \<in> set ps. \<not> conflictsWith q (fst r)"
  shows "HandleFuncs es rs = Inr (rs @ zip ps (map snd es))"
  using assms
proof (induction es arbitrary: ps rs)
  case (Cons e es)
  then obtain p qs where "ps = p # qs" by (cases ps) auto
  with Cons show ?case by (auto simp: HandleFunc_def)
qed simp

subsection \<open>Paths of plain segments\<close>

text \<open>A segment that is neither escaped nor empty nor made of dots.\<close>

definition plain :: "gostring \<Rightarrow> bool" where
  "plain s \<longleftrightarrow> s \<noteq> [] \<and> slash \<notin> set s \<and> 37 \<notin> set s \<and> s \<noteq> [46] \<and> s \<noteq> [46, 46]"

definition path_of :: "gostring list \<Rightarrow> gostring" where
  "path_of segs = concat (map ((#) slash) segs)"

lemma PathUnescape_plain: "37 \<notin> set s \<Longrightarrow> PathUnescape s = Some s"
  by (induction s) auto

lemma cut_slash_plain: "slash \<notin> set s \<Longrightarrow> cut_slash (s @ path_of segs) = (s, path_of segs)"
  by (cases segs) (auto simp: cut_slash_def path_of_def takeWhile_eq_all_conv takeWhile_append dropWhile_append)

lemma path_steps_plain: "\<forall>s \<in> set segs. plain s \<Longrightarrow> path_steps (path_of segs) = segs"
proof (induction segs)
  case Nil
  show ?case by (simp add: path_of_def path_steps.simps)
next
  case (Cons s segs)
  have "path_of (s # segs) = slash # s @ path_of segs" by (simp add: path_of_def)
  with Cons show ?case
    by (subst path_steps.simps) (simp add: plain_def cut_slash_plain pathUnescape_def PathUnescape_plain)
qed

lemma split_slash_plain:
  "slash \<notin> set s \<Longrightarrow> \<forall>t \<in> set segs. plain t \<Longrightarrow> split_slash (s @ path_of segs) = s # segs"
proof (induction segs arbitrary: s)
  case Nil
  then show ?case using cut_slash_plain [of s "[]"] by (subst split_slash.simps) (simp add: path_of_def)
next
  case (Cons t segs)
  have "path_of (t # segs) = slash # t @ path_of segs" by (simp add: path_of_def)
  with Cons cut_slash_plain [of s "t # segs"] show ?case by (subst split_slash.simps) (simp add: plain_def)
qed

lemma clean_segments_plain: "\<forall>s \<in> set segs. plain s \<Longrightarrow> clean_segments acc segs = rev acc @ segs"
  by (induction segs arbitrary: acc) (auto simp: plain_def)

lemma last_path_of: "segs \<noteq> [] \<Longrightarrow> plain (last segs) \<Longrightarrow> last (path_of segs) \<noteq> slash"
  by (induction segs rule: list_nonempty_induct) (auto simp: path_of_def plain_def dest: last_in_set)

lemma cleanPath_plain:
  assumes "segs \<noteq> []" "\<forall>s \<in> set segs. plain s"
  shows "cleanPath (path_of segs) = path_of segs"
proof -
  have "split_slash (path_of segs) = [] # segs" using split_slash_plain [of "[]" segs] assms by simp
  then have "Clean (path_of segs) = path_of segs"
    using assms by (simp add: Clean_def clean_segments_plain path_of_def)
  moreover have "path_of segs \<noteq> []" "hd (path_of segs) = slash" using assms(1) by (auto simp: path_of_def neq_Nil_conv)
  ultimately show ?thesis using last_path_of [of segs] assms by (simp add: cleanPath_def)
qed

lemma findHandler_plain:
  assumes "segs \<noteq> []" "\<forall>s \<in> set segs. plain s" "m \<noteq> str ''CONNECT''"
    and "matchPath (method_node m rs) [] segs = Some ((p, h), vals)" "Multi \<notin> set (pat_segments p)"
  shows "findHandler rs m (path_of segs) = Handler p h vals"
proof -
  have "matchMethodAndPath rs m (path_of segs) = Some ((p, h), vals)"
    using assms(2,4) by (simp add: matchMethodAndPath_def path_steps_plain)
  then show ?thesis
    using assms by (auto simp: findHandler_def cleanPath_plain exactMatch_def Let_def dest: last_in_set)
qed

subsection \<open>Requests made from a pattern\<close>

text \<open>The steps of the path that a pattern makes of given values.\<close>

fun fill :: "segment list \<Rightarrow> gostring list \<Rightarrow> gostring list" where
  "fill (Lit s # ss) vs = s # fill ss vs"
| "fill (Wild n # ss) (v # vs) = v # fill ss vs"
| "fill _ _ = []"

abbreviation wildcards :: "segment list \<Rightarrow> nat" where
  "wildcards ss \<equiv> length (filter is_Wild ss)"

lemma fits_fill:
  assumes "Multi \<notin> set ss" "length vals = wildcards ss" "[slash] \<notin> set vals"
  shows "fits ss (fill ss vals) \<and> captured ss (fill ss vals) = vals"
  using assms by (induction ss vals rule: fill.induct) auto

text \<open>Whether a path may match both patterns.\<close>

fun unifiable :: "segment list \<Rightarrow> segment list \<Rightarrow> bool" where
  "unifiable [] [] \<longleftrightarrow> True"
| "unifiable (Lit s # t) (Lit s' # t') \<longleftrightarrow> s = s' \<and> unifiable t t'"
| "unifiable (_ # t) (_ # t') \<longleftrightarrow> unifiable t t'"
| "unifiable _ _ \<longleftrightarrow> False"

lemma fits_both: "fits a steps \<Longrightarrow> fits b steps \<Longrightarrow> Multi \<notin> set a \<Longrightarrow> Multi \<notin> set b \<Longrightarrow> unifiable a b"
  by (induction a b arbitrary: steps rule: unifiable.induct) (case_tac steps; auto simp: fits_Cons fits_Nil)+

end
