(* ===== verification/Server.thy ===== *)
theory Server
  imports System Mux
begin

text \<open>
  The HTTP server of \<open>Listen\<close>: the table of routes with the one that takes connections of peers, the
  limiter of \<open>httprate\<close> in front of it, which is a parameter, and what happens to a request.

  A request comes with its method and escaped path; \<open>upgraded\<close> and \<open>frames\<close> are the connection it
  becomes and what arrives on it, when it asks for one.
\<close>

subsection \<open>The server\<close>

datatype target = Transport | Route handler

definition listen_routes :: "(string \<times> target) list" where
  "listen_routes = (''/transport/'', Transport) # map (\<lambda>(p, h). (p, Route h)) registerRoutes"

definition Listen_mux :: "target routes result" where
  "Listen_mux = HandleFuncs listen_routes []"

datatype answer = Handled "reply list" | TooManyRequests | MovedPermanently | NotAllowed | NotFound

definition serve ::
  "ext \<Rightarrow> bool \<Rightarrow> gostring \<Rightarrow> gostring \<Rightarrow> conn option \<Rightarrow> bytes list \<Rightarrow> request \<Rightarrow> client \<Rightarrow> answer result \<times> client" where
  "serve x limited method path upgraded frames rq c =
     (if limited then (Inr TooManyRequests, c)
      else bindS (liftR Listen_mux c) (\<lambda>rs c.
        case findHandler rs method path of
          Handler p t vals \<Rightarrow>
            bindS (case t of
                Transport \<Rightarrow> handleWS x (pathUnescape path) (rq_RemoteAddr rq) upgraded frames c
              | Route h \<Rightarrow>
                  h x (rq\<lparr>rq_pubKey := PathValue p vals (str ''pubKey''), rq_id := PathValue p vals (str ''id'')\<rparr>) c)
              (\<lambda>rep c. (Inr (Handled rep), c))
        | Redirect \<Rightarrow> (Inr MovedPermanently, c)
        | MethodNotAllowed \<Rightarrow> (Inr NotAllowed, c)
        | NoHandler \<Rightarrow> (Inr NotFound, c)))"

text \<open>The patterns of the table, parsed.\<close>

abbreviation lit :: "string \<Rightarrow> segment" where
  "lit s \<equiv> Lit (str s)"

abbreviation pubKey_value :: segment where
  "pubKey_value \<equiv> Wild (str ''pubKey'')"

abbreviation id_value :: segment where
  "id_value \<equiv> Wild (str ''id'')"

definition client_patterns :: "pattern list" where
  "client_patterns =
     [Pattern [] [lit ''transport'', Multi],
      Pattern (str ''GET'') [lit ''admin'', lit ''peers''],
      Pattern (str ''PUT'') [lit ''admin'', lit ''peers'', pubKey_value, lit ''accept''],
      Pattern (str ''PUT'') [lit ''admin'', lit ''peers'', pubKey_value, lit ''reject''],
      Pattern (str ''GET'') [lit ''admin'', lit ''sessions''],
      Pattern (str ''DELETE'') [lit ''admin'', lit ''sessions'', pubKey_value],
      Pattern (str ''POST'') [lit ''api'', lit ''peers'', lit ''connect''],
      Pattern (str ''POST'') [lit ''api'', lit ''messages'', pubKey_value],
      Pattern (str ''GET'') [lit ''api'', lit ''messages''],
      Pattern (str ''GET'') [lit ''api'', lit ''messages'', id_value],
      Pattern (str ''GET'') [lit ''api'', lit ''messages'', lit ''search''],
      Pattern (str ''PUT'') [lit ''api'', lit ''messages'', id_value],
      Pattern (str ''DELETE'') [lit ''api'', lit ''messages'', id_value],
      Pattern (str ''GET'') [lit ''api'', lit ''files'', id_value],
      Pattern (str ''PUT'') [lit ''admin'', lit ''peers'', pubKey_value, lit ''nickname''],
      Pattern (str ''GET'') [lit ''admin'', lit ''outbox''],
      Pattern (str ''DELETE'') [lit ''admin'', lit ''outbox'', id_value],
      Pattern (str ''POST'') [lit ''admin'', lit ''outbox'', lit ''flush'', pubKey_value],
      Pattern (str ''PUT'') [lit ''admin'', lit ''profile''],
      Pattern (str ''DELETE'') [lit ''admin'', lit ''profile'', lit ''picture''],
      Pattern (str ''GET'') [lit ''admin'', lit ''me'']]"

subsection \<open>The table registers\<close>

lemma of_char_inject: "(of_char c :: byte) = of_char d \<longleftrightarrow> c = d"
proof
  have "unat (of_char a :: byte) = of_char a" for a :: char
    using unat_small [of "of_char a"] by (simp add: of_nat_of_char)
  then show "(of_char c :: byte) = of_char d \<Longrightarrow> c = d" by (metis of_char_eq_iff)
qed simp

lemma str_inject [simp]: "str s = str t \<longleftrightarrow> s = t"
  unfolding str_def by (rule inj_map_eq_map) (simp add: inj_def of_char_inject)

lemma in_str: "of_char c \<in> set (str s) \<longleftrightarrow> c \<in> set s"
  by (auto simp: str_def of_char_inject)

lemmas marks_in_str =
  in_str [of "CHR ''/''", simplified] in_str [of "CHR ''%''", simplified] in_str [of "CHR ''{''", simplified]
  in_str [of "CHR '' ''", simplified] in_str [of "CHR 0x09", simplified]

lemma str_nonempty [simp]: "str s = [] \<longleftrightarrow> s = []" "str s = [slash] \<longleftrightarrow> s = ''/''"
  using str_inject [of s "''/''"] by (simp_all add: str_def)

text \<open>The text of a pattern, from its method and segments.\<close>

fun pattern_text :: "string \<times> string list \<Rightarrow> string" where
  "pattern_text (m, segs) = (if m = [] then [] else m @ '' '') @ concat (map ((#) CHR ''/'') segs)"

lemma str_text: "str [] = []" "str (c # s) = of_char c # str s" "str (s @ t) = str s @ str t"
  by (simp_all add: str_def)

lemma split_slash_last: "slash \<notin> set s \<Longrightarrow> split_slash s = [s]"
proof -
  assume "slash \<notin> set s"
  then have "cut_slash s = (s, [])" by (auto simp: cut_slash_def takeWhile_eq_all_conv)
  then show ?thesis by (subst split_slash.simps) simp
qed

lemma split_slash_append: "slash \<notin> set s \<Longrightarrow> split_slash (s @ slash # t) = s # split_slash t"
  by (subst split_slash.simps) (simp add: cut_slash_def takeWhile_append dropWhile_append)

lemma split_slash_text:
  "segs \<noteq> [] \<Longrightarrow> \<forall>t \<in> set segs. CHR ''/'' \<notin> set t \<Longrightarrow>
    split_slash (tl (str (concat (map ((#) CHR ''/'') segs)))) = map str segs"
proof (induction segs rule: list_nonempty_induct)
  case (single t)
  then show ?case by (simp add: str_text split_slash_last marks_in_str)
next
  case (cons t segs)
  then obtain u where "str (concat (map ((#) CHR ''/'') segs)) = slash # u"
    by (cases segs) (auto simp: str_text)
  with cons show ?case by (simp add: str_text split_slash_append marks_in_str)
qed

lemma plain_str: "plain (str s) \<longleftrightarrow> s \<noteq> [] \<and> CHR ''/'' \<notin> set s \<and> CHR ''%'' \<notin> set s \<and> s \<noteq> ''.'' \<and> s \<noteq> ''..''"
proof -
  have "[46] = str ''.''" "[46, 46] = str ''..''" by (simp_all add: str_def)
  then show ?thesis unfolding plain_def by (simp only: str_inject str_nonempty marks_in_str)
qed

text \<open>A pattern as it is written in the table: no blanks but the one after the method, and a clean path.\<close>

definition written_well :: "string \<times> string list \<Rightarrow> bool" where
  "written_well e \<longleftrightarrow> snd e \<noteq> [] \<and> list_all token_char (str (fst e)) \<and> (fst e \<noteq> [] \<longrightarrow> (\<forall>t \<in> set (snd e). plain (str t))) \<and>
     (\<forall>t \<in> set (snd e). CHR ''/'' \<notin> set t \<and> CHR '' '' \<notin> set t \<and> CHR 0x09 \<notin> set t)"

lemma parsePattern_text:
  assumes "written_well (m, segs)"
  shows "parsePattern (str (pattern_text (m, segs))) = with_segments (str m) (parse_segments (map str segs))"
proof -
  let ?p = "str (concat (map ((#) CHR ''/'') segs))"
  have "str (concat (map ((#) CHR ''/'') ss)) = path_of (map str ss)" for ss
    by (induction ss) (simp_all add: str_text path_of_def)
  from this [of segs] have "?p = path_of (map str segs)" .
  moreover have "?p \<noteq> []" "hd ?p = slash" "split_slash (tl ?p) = map str segs"
    using assms split_slash_text [of segs] by (auto simp: written_well_def str_text neq_Nil_conv)
  ultimately have p: "?p = path_of (map str segs)" "?p \<noteq> []" "hd ?p = slash" "split_slash (tl ?p) = map str segs"
    by simp_all
  have blanks: "\<forall>c \<in> set ?p. \<not> is_blank c" "\<forall>c \<in> set (str m). \<not> is_blank c"
    using assms by (auto simp: written_well_def p(1) path_of_def marks_in_str list_all_iff token_char_def letter_def)
  have clean: "cleanPath ?p = ?p" if "m \<noteq> []"
    unfolding p(1) using assms that by (intro cleanPath_plain) (auto simp: written_well_def)
  have cut: "takeWhile (\<lambda>c. \<not> is_blank c) (str m @ 32 # ?p) = str m" "dropWhile is_blank ?p = ?p"
    using blanks p(2) by (simp_all add: takeWhile_append dropWhile_eq_self_iff)
  show ?thesis
  proof (cases "m = []")
    case True
    then show ?thesis using p blanks by (auto simp: parsePattern_def Let_def str_text)
  next
    case False
    then have "str (pattern_text (m, segs)) = str m @ 32 # ?p" by (simp add: str_text)
    then show ?thesis
      using False p(2-4) cut clean assms by (simp add: parsePattern_def Let_def written_well_def)
  qed
qed

lemma parse_segment_text:
  "CHR ''{'' \<notin> set s \<Longrightarrow> CHR ''%'' \<notin> set s \<Longrightarrow> parse_segment (str s) = Some (lit s)"
  "parse_segment (str ''{pubKey}'') = Some pubKey_value" "parse_segment (str ''{id}'') = Some id_value"
  by (simp_all add: parse_segment_def marks_in_str pathUnescape_def PathUnescape_plain)
    (simp_all add: str_def isValidWildcardName_def letter_def)

definition route_table :: "(string \<times> string list) list" where
  "route_table =
     [([], [''transport'', []]), (''GET'', [''admin'', ''peers'']),
      (''PUT'', [''admin'', ''peers'', ''{pubKey}'', ''accept'']), (''PUT'', [''admin'', ''peers'', ''{pubKey}'', ''reject'']),
      (''GET'', [''admin'', ''sessions'']), (''DELETE'', [''admin'', ''sessions'', ''{pubKey}'']),
      (''POST'', [''api'', ''peers'', ''connect'']), (''POST'', [''api'', ''messages'', ''{pubKey}'']),
      (''GET'', [''api'', ''messages'']), (''GET'', [''api'', ''messages'', ''{id}'']),
      (''GET'', [''api'', ''messages'', ''search'']), (''PUT'', [''api'', ''messages'', ''{id}'']),
      (''DELETE'', [''api'', ''messages'', ''{id}'']), (''GET'', [''api'', ''files'', ''{id}'']),
      (''PUT'', [''admin'', ''peers'', ''{pubKey}'', ''nickname'']), (''GET'', [''admin'', ''outbox'']),
      (''DELETE'', [''admin'', ''outbox'', ''{id}'']), (''POST'', [''admin'', ''outbox'', ''flush'', ''{pubKey}'']),
      (''PUT'', [''admin'', ''profile'']), (''DELETE'', [''admin'', ''profile'', ''picture'']), (''GET'', [''admin'', ''me''])]"

lemma route_texts: "map fst listen_routes = map pattern_text route_table"
  by (simp add: listen_routes_def registerRoutes_def route_table_def)

lemma patterns_parse: "map (\<lambda>e. parsePattern (str (pattern_text e))) route_table = map Some client_patterns"
proof -
  have "list_all token_char (str m)" if "m \<in> {[], ''GET'', ''PUT'', ''POST'', ''DELETE''}" for m
    using that by (auto simp: str_def token_char_def letter_def)
  then have "\<forall>e \<in> set route_table. written_well e"
    by (simp add: route_table_def written_well_def plain_str)
  then have "map (\<lambda>e. parsePattern (str (pattern_text e))) route_table =
      map (\<lambda>(m, segs). with_segments (str m) (parse_segments (map str segs))) route_table"
    using parsePattern_text by (auto intro!: map_cong)
  also have "\<dots> = map Some client_patterns"
    by (simp add: route_table_def client_patterns_def parse_segment_text with_segments_def)
  finally show ?thesis .
qed

lemma patterns_no_conflicts: "no_conflicts client_patterns"
  by (simp add: client_patterns_def conflictsWith_def comparePaths_def compareMethods_def)

definition client_mux :: "target routes" where
  "client_mux = zip client_patterns (map snd listen_routes)"

text \<open>
  Starting the server does not panic: every pattern of the table parses and none conflicts with an earlier
  one, so each handler is registered under the pattern written for it.
\<close>

lemma mux_registered: "Listen_mux = Inr client_mux"
proof -
  have "map (\<lambda>e. parsePattern (str (fst e))) listen_routes = map (\<lambda>e. parsePattern (str (pattern_text e))) route_table"
    using arg_cong [OF route_texts, of "map (\<lambda>s. parsePattern (str s))"] by (simp add: comp_def)
  then show ?thesis
    unfolding Listen_mux_def client_mux_def
    using HandleFuncs_ok [of listen_routes client_patterns "[]"] patterns_parse patterns_no_conflicts by simp
qed

lemma client_mux_split:
  "client_mux = (Pattern [] [lit ''transport'', Multi], Transport) # zip (tl client_patterns) (map (\<lambda>e. Route (snd e)) registerRoutes)"
  by (simp add: client_mux_def listen_routes_def client_patterns_def comp_def case_prod_beta)

lemma registered_route:
  assumes "(p, t) \<in> set client_mux"
  shows "p = Pattern [] [lit ''transport'', Multi] \<and> t = Transport \<or>
    pat_method p \<in> {str ''GET'', str ''PUT'', str ''POST'', str ''DELETE''} \<and> Multi \<notin> set (pat_segments p) \<and>
    (\<exists>text h. (text, h) \<in> set registerRoutes \<and> t = Route h)"
proof -
  have "\<forall>q \<in> set (tl client_patterns). pat_method q \<in> {str ''GET'', str ''PUT'', str ''POST'', str ''DELETE''} \<and> Multi \<notin> set (pat_segments q)"
    by (simp add: client_patterns_def)
  moreover have "(p, t) = (Pattern [] [lit ''transport'', Multi], Transport) \<or>
      p \<in> set (tl client_patterns) \<and> t \<in> set (map (\<lambda>e. Route (snd e)) registerRoutes)"
    using assms set_zip_leftD [of p t] set_zip_rightD [of p t] unfolding client_mux_split by fastforce
  ultimately show ?thesis by auto
qed

text \<open>Of two patterns of one method that share a path, the preferred one is the search.\<close>

lemma patterns_apart:
  "\<forall>p \<in> set (tl client_patterns). \<forall>q \<in> set (tl client_patterns).
     pat_method q = pat_method p \<and> unifiable (pat_segments q) (pat_segments p) \<and> prefers (pat_segments q) (pat_segments p) \<longrightarrow>
     q = p \<or> pat_segments q = [lit ''api'', lit ''messages'', lit ''search''] \<and> pat_segments p = [lit ''api'', lit ''messages'', id_value]"
  by (simp add: client_patterns_def)

lemma distinct_patterns: "distinct client_patterns"
  by (simp add: client_patterns_def)

lemma route_unique:
  assumes "(p, t) \<in> set client_mux" "(p, u) \<in> set client_mux"
  shows "t = u"
proof -
  have "map fst client_mux = client_patterns"
    using arg_cong [OF patterns_parse, of length] arg_cong [OF route_texts, of length] by (simp add: client_mux_def)
  with distinct_patterns assms show ?thesis by (metis eq_key_imp_eq_value)
qed

lemma not_transport:
  assumes "(p, t) \<in> set client_mux" "pat_method p \<noteq> []"
  shows "p \<in> set (tl client_patterns)" "Multi \<notin> set (pat_segments p)"
  using assms registered_route [OF assms(1)] set_zip_leftD [of p t] unfolding client_mux_split by fastforce+

lemma route_matches:
  assumes p: "(p, t) \<in> set client_mux" "pat_method p \<noteq> []" and "length vals = wildcards (pat_segments p)"
    and "str ''search'' \<notin> set vals" "[slash] \<notin> set vals"
  shows "matchPath (method_node (pat_method p) client_mux) [] (fill (pat_segments p) vals) = Some ((p, t), vals)"
proof -
  let ?n = "method_node (pat_method p) client_mux" and ?s = "fill (pat_segments p) vals"
  note f = fits_fill [OF not_transport(2) [OF p] assms(3,5)]
  have "(pat_segments p, (p, t)) \<in> set ?n" using p by force
  then obtain ss r w where "matchPath ?n [] ?s = Some (r, w)" "(ss, r) \<in> set ?n" "fits ss ?s"
    "w = captured ss ?s" "prefers ss (pat_segments p)"
    by (rule matchPath_found [OF _ conjunct1 [OF f]])
  moreover obtain q u where "r = (q, u)" by fastforce
  ultimately have m: "matchPath ?n [] ?s = Some ((q, u), w)" and ss: "(ss, (q, u)) \<in> set ?n" "fits ss ?s"
    "w = captured ss ?s" "prefers ss (pat_segments p)" by simp_all
  from ss have q: "(q, u) \<in> set client_mux" "pat_method q = pat_method p"
    "fits (pat_segments q) ?s" "w = captured (pat_segments q) ?s" "prefers (pat_segments q) (pat_segments p)"
    by auto
  have "unifiable (pat_segments q) (pat_segments p)"
    using fits_both [OF q(3)] f not_transport(2) p q(1,2) by metis
  moreover have "False" if "pat_segments q = [lit ''api'', lit ''messages'', lit ''search'']" "pat_segments p = [lit ''api'', lit ''messages'', id_value]"
    using that assms(3,4) q(3) by (auto simp: length_Suc_conv)
  ultimately have "q = p" using patterns_apart not_transport(1) p q(1,2,5) by metis
  with m q(4) f route_unique [OF p(1)] q(1) show ?thesis by auto
qed

lemma plain_fill:
  assumes "p \<in> set (tl client_patterns)" "\<forall>v \<in> set vals. plain v"
  shows "\<forall>s \<in> set (fill (pat_segments p) vals). plain s" "fill (pat_segments p) vals \<noteq> []"
proof -
  have lits: "\<forall>p \<in> set (tl client_patterns). (\<forall>s. Lit s \<in> set (pat_segments p) \<longrightarrow> plain s) \<and> (\<exists>s t. pat_segments p = Lit s # t)"
    by (simp add: client_patterns_def plain_str)
  then obtain s t where "pat_segments p = Lit s # t" using assms(1) by blast
  then show "fill (pat_segments p) vals \<noteq> []" by simp
  have "\<forall>s. Lit s \<in> set ss \<longrightarrow> plain s \<Longrightarrow> \<forall>v \<in> set vals. plain v \<Longrightarrow> \<forall>s \<in> set (fill ss vals). plain s" for ss
    by (induction ss vals rule: fill.induct) auto
  with lits assms show "\<forall>s \<in> set (fill (pat_segments p) vals). plain s" by blast
qed

lemma routes_reached:
  assumes "(p, t) \<in> set client_mux" "pat_method p \<noteq> []" "length vals = wildcards (pat_segments p)"
    and "\<forall>v \<in> set vals. plain v \<and> v \<noteq> str ''search''"
  shows "findHandler client_mux (pat_method p) (path_of (fill (pat_segments p) vals)) = Handler p t vals"
proof (rule findHandler_plain)
  note n = not_transport [OF assms(1,2)]
  show "fill (pat_segments p) vals \<noteq> []" "\<forall>s \<in> set (fill (pat_segments p) vals). plain s"
    using plain_fill [OF n(1)] assms(4) by blast+
  show "pat_method p \<noteq> str ''CONNECT''" using registered_route [OF assms(1)] assms(2) by auto
  show "matchPath (method_node (pat_method p) client_mux) [] (fill (pat_segments p) vals) = Some ((p, t), vals)"
  proof (rule route_matches [OF assms(1-3)])
    have "\<not> plain [slash]" by (simp add: plain_def)
    with assms(4) show "str ''search'' \<notin> set vals" "[slash] \<notin> set vals" by blast+
  qed
  show "Multi \<notin> set (pat_segments p)" by (rule n)
qed

subsection \<open>Requests\<close>

abbreviation with_values :: "request \<Rightarrow> pattern \<Rightarrow> gostring list \<Rightarrow> request" where
  "with_values rq p vals \<equiv>
     rq\<lparr>rq_pubKey := PathValue p vals (str ''pubKey''), rq_id := PathValue p vals (str ''id'')\<rparr>"

lemma local_only:
  assumes "(p, Route h) \<in> set client_mux"
  shows "\<exists>g. h = localhostOnly g"
  using registered_route [OF assms] by (auto simp: registerRoutes_def)

lemma route_served:
  assumes "(p, Route (localhostOnly g)) \<in> set client_mux" "length vals = wildcards (pat_segments p)"
    and "\<forall>v \<in> set vals. plain v \<and> v \<noteq> str ''search''" "local_addr x (rq_RemoteAddr rq)"
  shows "serve x False (pat_method p) (path_of (fill (pat_segments p) vals)) upgraded frames rq c =
    bindS (g x (with_values rq p vals) c) (\<lambda>rep c. (Inr (Handled rep), c))"
proof -
  have "pat_method p \<noteq> []" using registered_route [OF assms(1)] by auto
  from routes_reached [OF assms(1) this assms(2,3)] localhostOnly_local [of x "with_values rq p vals" g c] assms(4)
  show ?thesis by (simp add: serve_def mux_registered liftR_def)
qed

text \<open>
  C30: Every route is served: a request of the local machine whose method and path are made from a
  pattern of the table and plain values for its wildcards gets the answer of the handler behind that
  pattern, run with these values.  The one exception is a message whose id reads \<open>search\<close>.
\<close>

theorem local_requests_served:
  assumes "(p, Route h) \<in> set client_mux" "length vals = wildcards (pat_segments p)"
    and "\<forall>v \<in> set vals. plain v \<and> v \<noteq> str ''search''" "local_addr x (rq_RemoteAddr rq)"
  shows "\<exists>g. h = localhostOnly g \<and>
    serve x False (pat_method p) (path_of (fill (pat_segments p) vals)) upgraded frames rq c =
      bindS (g x (with_values rq p vals) c) (\<lambda>rep c. (Inr (Handled rep), c))"
  using local_only [OF assms(1)] route_served [OF _ assms(2-)] assms(1) by blast

theorem local_requests_served_witness:
  "serve demo_ext False (str ''DELETE'') (path_of [str ''admin'', str ''outbox'', str ''a'']) None [] (local_request [] [] None) demo_client =
   bindS (adminDeleteOutboxEntry demo_ext (local_request [] (str ''a'') None) demo_client) (\<lambda>rep c. (Inr (Handled rep), c))"
proof -
  let ?p = "Pattern (str ''DELETE'') [lit ''admin'', lit ''outbox'', id_value]"
  have m: "(?p, Route (localhostOnly adminDeleteOutboxEntry)) \<in> set client_mux"
    by (simp add: client_mux_def client_patterns_def listen_routes_def registerRoutes_def)
  have h: "adminDeleteOutboxEntry demo_ext (local_request [] (str ''a'') None) c = localhostOnly adminDeleteOutboxEntry demo_ext (local_request [] (str ''a'') None) c" for c
    using demo_addresses(1) by (simp add: localhostOnly_local local_request_def)
  have v: "with_values (local_request [] [] None) ?p [str ''a''] = local_request [] (str ''a'') None"
    by (simp add: PathValue_def List.map_filter_def local_request_def)
  have "local_addr demo_ext (rq_RemoteAddr (local_request [] [] None))"
    using demo_addresses(1) by (simp add: local_request_def)
  from local_requests_served [OF m, of "[str ''a'']", OF _ _ this, of None "[]" demo_client]
  obtain g where g: "localhostOnly adminDeleteOutboxEntry = localhostOnly g"
    "serve demo_ext False (str ''DELETE'') (path_of [str ''admin'', str ''outbox'', str ''a'']) None [] (local_request [] [] None) demo_client =
     bindS (g demo_ext (local_request [] (str ''a'') None) demo_client) (\<lambda>rep c. (Inr (Handled rep), c))"
    by (auto simp: plain_str v)
  have "g demo_ext (local_request [] (str ''a'') None) demo_client = adminDeleteOutboxEntry demo_ext (local_request [] (str ''a'') None) demo_client"
    unfolding h g(1) using demo_addresses(1) by (simp add: localhostOnly_local local_request_def)
  with g(2) show ?thesis by simp
qed

text \<open>The answers of a server that did nothing.\<close>

fun refusal :: "answer \<Rightarrow> bool" where
  "refusal (Handled rep) \<longleftrightarrow> (\<exists>code \<in> {400, 403}. \<exists>msg. rep = [HttpError code msg])"
| "refusal _ \<longleftrightarrow> True"

text \<open>
  C14: From any other machine, nothing but the transport is reachable: whatever the method and the path
  of a request, it is refused and changes nothing, unless its path begins with \<open>/transport/\<close>, and then
  it is handled as a connection of a peer.
\<close>

theorem remote_requests_refused:
  assumes "\<not> local_addr x (rq_RemoteAddr rq)" "serve x limited method path upgraded frames rq c = (ans, c')"
  shows "c' = c \<and> (\<exists>a. ans = Inr a \<and> refusal a) \<or>
    hd (path_steps path) = str ''transport'' \<and>
    c' = snd (handleWS x (pathUnescape path) (rq_RemoteAddr rq) upgraded frames c)"
proof (cases "limited")
  case False
  let ?f = "findHandler client_mux method path"
  show ?thesis
  proof (cases ?f)
    case (Handler p t vals)
    note found = found_registered [OF Handler]
    show ?thesis
    proof (cases t)
      case Transport
      have "p = Pattern [] [lit ''transport'', Multi]" using found registered_route [of p t] Transport by auto
      then have "hd (path_steps path) = str ''transport''" using found by (cases "path_steps path") auto
      moreover have "c' = snd (handleWS x (pathUnescape path) (rq_RemoteAddr rq) upgraded frames c)"
        using assms(2) False Handler Transport
        by (cases "handleWS x (pathUnescape path) (rq_RemoteAddr rq) upgraded frames c")
          (auto simp: serve_def mux_registered liftR_def bindS_def split: sum.splits)
      ultimately show ?thesis by simp
    next
      case (Route h)
      then obtain g where h: "h = localhostOnly g" using found local_only by blast
      obtain code msg where "code \<in> {400, 403}" "h x (with_values rq p vals) c = (Inr [HttpError code msg], c)"
        using refused_elsewhere [of x "with_values rq p vals" g c] assms(1) h by auto
      then show ?thesis using assms(2) False Handler Route by (auto simp: serve_def mux_registered liftR_def)
    qed
  qed (use assms(2) False in \<open>auto simp: serve_def mux_registered liftR_def\<close>)
qed (use assms(2) in \<open>auto simp: serve_def\<close>)

theorem remote_requests_refused_witness:
  "snd (serve demo_ext False (str ''PUT'') (str ''/admin/profile'') None []
     ((local_request [] [] None)\<lparr>rq_RemoteAddr := str ''10.0.0.1:50''\<rparr>) demo_client) = demo_client"
proof -
  let ?rq = "(local_request [] [] None)\<lparr>rq_RemoteAddr := str ''10.0.0.1:50''\<rparr>"
  obtain ans c' where s: "serve demo_ext False (str ''PUT'') (str ''/admin/profile'') None [] ?rq demo_client = (ans, c')" by fastforce
  have "str ''/admin/profile'' = path_of [str ''admin'', str ''profile'']" by (simp add: path_of_def str_def)
  then have "hd (path_steps (str ''/admin/profile'')) = str ''admin''" by (simp add: path_steps_plain plain_str)
  with remote_requests_refused [OF _ s] s show ?thesis using demo_addresses(2) by auto
qed

text \<open>
  Serving a request, whatever it asks for, is a run of the client's state machine.
\<close>

theorem serve_is_a_run: "(client_step x)\<^sup>*\<^sup>* c (snd (serve x limited method path upgraded frames rq c))"
proof (cases "\<not> limited \<and> (\<exists>p t vals. findHandler client_mux method path = Handler p t vals)")
  case False
  then show ?thesis by (auto simp: serve_def mux_registered liftR_def split: found.split)
next
  case True
  then obtain p t vals where f: "\<not> limited" "findHandler client_mux method path = Handler p t vals" by blast
  let ?r = "case t of Transport \<Rightarrow> handleWS x (pathUnescape path) (rq_RemoteAddr rq) upgraded frames c
    | Route h \<Rightarrow> h x (with_values rq p vals) c"
  have "snd (serve x limited method path upgraded frames rq c) = snd ?r"
    using f by (auto simp: serve_def mux_registered liftR_def bindS_def split: sum.split prod.split)
  moreover have "(client_step x)\<^sup>*\<^sup>* c (snd ?r)"
    using found_registered [OF f(2)] registered_route [of p t]
    by (auto simp: handleWS_run intro: client_step.request split: target.split)
  ultimately show ?thesis by simp
qed

end
