(* ===== verification/Program.thy ===== *)
theory Program
  imports Lifecycle Server
begin

text \<open>
  The program of \<open>cmd/main.go\<close> over its whole life: it reads its command line, starts a client on the key
  file and the database it finds, serves until it is interrupted, crashes or is killed, and is started
  again.  While it runs, its threads (the server, the reconnect loop, the loop over typed lines) are
  runs of the client's state machine.
\<close>

subsection \<open>Start\<close>

definition main ::
  "ext \<Rightarrow> flag_lib \<Rightarrow> (gostring \<Rightarrow> gostring \<Rightarrow> bool) \<Rightarrow> gostring list \<Rightarrow> key \<Rightarrow> bool \<Rightarrow> dir_entry list option \<Rightarrow>
    'z store_scheme \<Rightarrow> client process result \<times> dir_entry list option" where
  "main x lib keypair args seed write_ok dir db =
     (case Parse lib args of
        Exit n \<Rightarrow> (Inr (Exit n), dir)
      | Go cfg \<Rightarrow> client_New x keypair cfg seed write_ok dir db)"

text \<open>
  What runs side by side once the client is made: the loop that keeps the peer of the command line
  connected, with the reader of typed lines it starts, the loop that sends typed lines to everybody,
  and the server.
\<close>

datatype thread = ConnectLoop | StdinReader | StdinLoop | ListenServer

definition threads :: "Config \<Rightarrow> thread list" where
  "threads cfg = (if cfg_PeerAddr cfg \<noteq> [] then [ConnectLoop, StdinReader] else []) @
     (if cfg_WriteMode cfg \<and> cfg_PeerAddr cfg = [] then [StdinLoop] else []) @ [ListenServer]"

text \<open>At most one of them reads the standard input.\<close>

lemma one_reader: "length (filter (\<lambda>t. t \<in> {StdinReader, StdinLoop}) (threads cfg)) \<le> 1"
  by (simp add: threads_def)

subsection \<open>Lives of the program\<close>

text \<open>
  The machine: the directory with the key file, and the client, of which only the tables matter while
  the program is down.
\<close>

datatype machine = Up "dir_entry list option" client | Down "dir_entry list option" client

text \<open>
  A program that dies in the middle of a handler: no statement from some moment on reaches the database,
  each one before it has, whatever the handler would have gone on to do.
\<close>

definition cut_off :: "nat \<Rightarrow> ext \<Rightarrow> ext" where
  "cut_off n x = x\<lparr>x_db := (\<lambda>t. t < n \<and> x_db x t)\<rparr>"

text \<open>
  A running program works or gets the interrupt, which closes its sessions; at any moment, also inside a
  handler, it may end, whatever the reason; a program that is down may be started with any command line,
  and comes up or refuses to.
\<close>

inductive machine_step ::
  "ext \<Rightarrow> flag_lib \<Rightarrow> (gostring \<Rightarrow> gostring \<Rightarrow> bool) \<Rightarrow> machine \<Rightarrow> machine \<Rightarrow> bool"
  for x lib keypair where
  work: "client_step x c c' \<Longrightarrow> machine_step x lib keypair (Up dir c) (Up dir c')"
| interrupt: "machine_step x lib keypair (Up dir c) (Up dir (snd (Shutdown c)))"
| crashed: "client_step (cut_off n x) c c' \<Longrightarrow> machine_step x lib keypair (Up dir c) (Down dir c')"
| ended: "machine_step x lib keypair (Up dir c) (Down dir c)"
| start: "main x lib keypair args seed w dir c = (Inr (Go c'), dir') \<Longrightarrow> machine_step x lib keypair (Down dir c) (Up dir' c')"
| refused: "main x lib keypair args seed w dir c = (r, dir') \<Longrightarrow> \<forall>c'. r \<noteq> Inr (Go c') \<Longrightarrow>
    machine_step x lib keypair (Down dir c) (Down dir' c)"

fun machine_ok :: "ext \<Rightarrow> Keys \<Rightarrow> machine \<Rightarrow> bool" where
  "machine_ok x k (Up dir c) \<longleftrightarrow> client_inv x c \<and> cl_Keys c = k \<and> (\<forall>seed w. AutoLoad x seed w dir = (Inr k, dir))"
| "machine_ok x k (Down dir c) \<longleftrightarrow> client_inv x c \<and> cl_Keys c = k \<and> (\<forall>seed w. AutoLoad x seed w dir = (Inr k, dir))"

lemma sound_Shutdown: "sound_step x c (snd (Shutdown c))"
  unfolding Shutdown_def by (rule sound.loop) (auto intro: sound.walk_close_session split: prod.split)

lemma New_dir: "snd (client_New x kp cfg seed w dir db) = snd (AutoLoad x seed w dir)"
  by (simp add: client_New_def Let_def split: prod.split)

lemma cut_off_inv: "client_inv (cut_off n x) c \<longleftrightarrow> client_inv x c"
proof -
  have "decryptRaw (cut_off n x) = decryptRaw x"
    by (simp add: fun_eq_iff decryptRaw_def aesKey_def cut_off_def)
  moreover from this have "stored (cut_off n x) (secret_of c) c = stored x (secret_of c) c"
    by (intro ext) (simp add: stored_def decrypt_def cong: option.case_cong)
  moreover have "aead_laws (cut_off n x) = aead_laws x" "uuid_laws (cut_off n x) = uuid_laws x"
    "x_uuid_String (cut_off n x) = x_uuid_String x"
    by (simp_all add: aead_laws_def uuid_laws_def cut_off_def)
  ultimately show ?thesis by (simp add: client_inv_def cache_coherent_def outbox_ok_def outbox_row_ok_def)
qed

lemma machine_step_ok:
  assumes "machine_step x lib kp m m'" "machine_ok x k m"
  shows "machine_ok x k m'"
  using assms
proof cases
  case (work c c' dir)
  then show ?thesis using assms(2) client_step_sound [of x c c'] by (auto simp: sound_step_def)
next
  case (interrupt dir c)
  then show ?thesis using assms(2) sound_Shutdown [of x c] by (auto simp: sound_step_def)
next
  case (crashed n c c' dir)
  then show ?thesis
    using assms(2) client_step_sound [of "cut_off n x" c c'] cut_off_inv by (auto simp: sound_step_def)
next
  case (start args seed w dir c c' dir')
  then obtain cfg where n: "client_New x kp cfg seed w dir c = (Inr (Go c'), dir')"
    by (auto simp: main_def split: process.splits)
  have "dir' = dir" using New_dir [of x kp cfg seed w dir c] n assms(2) start by simp
  with restarted [OF _ n] assms(2) start show ?thesis by auto
next
  case (refused args seed w dir c r dir')
  then have "dir' = dir"
    using assms(2) New_dir [of x kp _ seed w dir c] by (auto simp: main_def split: process.splits) (metis snd_conv)
  with assms(2) refused show ?thesis by auto
qed (use assms(2) in auto)

text \<open>
  C7: From its first start on an empty machine, the program keeps its identity and the invariant of its
  data for ever: through any work, any number of interrupts, crashes between and inside
  handlers and restarts with any command line, every state has the keys of the first start, finds them again in the key
  file, and satisfies the invariant.
\<close>

theorem identity_and_data_survive:
  assumes "aead_laws x" "uuid_laws x" "findExistingKey (Some es) = None"
    and "main x lib kp args seed w (Some es) empty_store = (Inr (Go c), dir)"
    and "(machine_step x lib kp)\<^sup>*\<^sup>* (Up dir c) m"
  shows "machine_ok x (keys_of_seed x seed) m"
proof -
  obtain cfg where n: "client_New x kp cfg seed w (Some es) empty_store = (Inr (Go c), dir)"
    using assms(4) by (auto simp: main_def split: process.splits)
  obtain k t p where k: "AutoLoad x seed w (Some es) = (Inr k, dir)"
    and c: "c = (fresh_client cfg k empty_store)\<lparr>tick := t, cache := (\<lambda>_. None), profile := p\<rparr>"
    by (rule started_client [OF n])
  have "k = keys_of_seed x seed" using k assms(3) by (auto simp: AutoLoad_def Let_def split: if_splits)
  moreover have "client_inv x c"
    using assms(1,2)
    by (simp add: c fresh_client_def empty_store_def client_inv_def store_inv_def primary_key_def sessions_wf_def
        cache_coherent_def outbox_ok_def)
  ultimately have "machine_ok x (keys_of_seed x seed) (Up dir c)"
    using identity_persists [OF assms(3) k] by (simp add: c fresh_client_def)
  with assms(5) show ?thesis by induction (auto intro: machine_step_ok)
qed

theorem identity_and_data_survive_witness:
  "\<exists>c dir. machine_ok demo_ext (keys_of_seed demo_ext 5) (Down dir c)"
proof -
  let ?lib = "\<lparr>lib_ParseDuration = ParseInt, lib_ParseLevel = ParseInt, lib_IsPrint = (\<lambda>r. 32 \<le> r)\<rparr>"
  obtain c where "client_New demo_ext (\<lambda>_ _. True) Parse_defaults 5 True (Some []) empty_store =
      (Inr (Go c), snd (AutoLoad demo_ext 5 True (Some [])))"
    using demo_start [of "\<lambda>_ _. True" empty_store] by blast
  then have s: "main demo_ext ?lib (\<lambda>_ _. True) [] 5 True (Some []) empty_store = (Inr (Go c), snd (AutoLoad demo_ext 5 True (Some [])))"
    by (simp add: main_def Parse_no_args)
  have "findExistingKey (Some []) = None" by (simp add: findExistingKey_def)
  moreover have "(machine_step demo_ext ?lib (\<lambda>_ _. True))\<^sup>*\<^sup>* (Up dir c) (Down dir c)" for dir
    by (intro r_into_rtranclp machine_step.ended)
  ultimately show ?thesis using identity_and_data_survive [OF demo_ext_laws(1,4) _ s] by blast
qed

end
