(* ===== verification/WebUI.thy ===== *)
theory WebUI
  imports Server Flags
begin

text \<open>
  The web interface of \<open>ui/main.go\<close>: its command line, a page with the address of the chat client filled
  in, and a reverse proxy that passes everything under \<open>/api/\<close> and \<open>/admin/\<close> on to that address.

  A request is its method and escaped path and what the chat client would read of it.  The proxy's own
  connection has the address \<open>source\<close> at the chat client.  Whether \<open>url.Parse\<close> accepts the target is a
  parameter.
\<close>

subsection \<open>The page\<close>

function ReplaceAll :: "gostring \<Rightarrow> gostring \<Rightarrow> gostring \<Rightarrow> gostring" where
  "ReplaceAll old new s =
     (if s = [] \<or> old = [] then s
      else if has_prefix old s then new @ ReplaceAll old new (drop (length old) s)
      else hd s # ReplaceAll old new (tl s))"
  by pat_completeness auto

termination
  by (relation "measure (\<lambda>(old, new, s). length s)") auto

declare ReplaceAll.simps [simp del]

definition ui_page :: "gostring \<Rightarrow> gostring \<Rightarrow> gostring" where
  "ui_page raw target = ReplaceAll (str ''{{TARGET}}'') target raw"

subsection \<open>Start\<close>

record ui_settings =
  ui_port :: int
  ui_targetAddr :: gostring

definition ui_flags :: "ui_settings flag list" where
  "ui_flags =
     [Flag (str ''p'') False (\<lambda>v c. map_option (\<lambda>n. c\<lparr>ui_port := n\<rparr>) (ParseInt v)),
      Flag (str ''t'') False (\<lambda>v c. Some (c\<lparr>ui_targetAddr := v\<rparr>))]"

datatype ui_target = ServePage | Proxy

definition ui_routes :: "(string \<times> ui_target) list" where
  "ui_routes = [(''/'', ServePage), (''/api/'', Proxy), (''/admin/'', Proxy)]"

text \<open>Everything before the server runs: the address it listens on, the page, the proxy's target.\<close>

record ui =
  ui_addr :: gostring
  ui_html :: gostring
  ui_target :: gostring
  ui_mux :: "ui_target routes"

definition ui_main :: "(gostring \<Rightarrow> bool) \<Rightarrow> gostring \<Rightarrow> gostring list \<Rightarrow> ui result process" where
  "ui_main url_ok raw args =
     (case FlagSet_Parse ExitOnError ui_flags args \<lparr>ui_port = 8088, ui_targetAddr = str ''127.0.0.1:8080''\<rparr> of
        Exit n \<Rightarrow> Exit n
      | Go (_, c) \<Rightarrow>
          Go (let page = ui_page raw (ui_targetAddr c); target = str ''http://'' @ ui_targetAddr c
              in if \<not> url_ok target then Inl (Panic ''url.Parse'')
                 else bindR (HandleFuncs ui_routes []) (\<lambda>mux.
                   Inr \<lparr>ui_addr = colon # int_text (ui_port c), ui_html = page, ui_target = target, ui_mux = mux\<rparr>)))"

subsection \<open>Requests\<close>

datatype ui_reply = Page gostring | UINotFound | Moved | Forward request

definition ui_serve :: "ui \<Rightarrow> gostring \<Rightarrow> gostring \<Rightarrow> gostring \<Rightarrow> request \<Rightarrow> ui_reply" where
  "ui_serve u source method path rq =
     (case findHandler (ui_mux u) method path of
        Handler _ ServePage _ \<Rightarrow> if pathUnescape path \<noteq> str ''/'' then UINotFound else Page (ui_html u)
      | Handler _ Proxy _ \<Rightarrow> Forward (rq\<lparr>rq_RemoteAddr := source\<rparr>)
      | Redirect \<Rightarrow> Moved
      | MethodNotAllowed \<Rightarrow> UINotFound
      | NoHandler \<Rightarrow> UINotFound)"

subsection \<open>What the interface opens\<close>

definition ui_table :: "ui_target routes" where
  "ui_table = [(Pattern [] [Multi], ServePage), (Pattern [] [lit ''api'', Multi], Proxy), (Pattern [] [lit ''admin'', Multi], Proxy)]"

lemma ui_registers: "HandleFuncs ui_routes [] = Inr ui_table"
proof -
  let ?ps = "[Pattern [] [Multi], Pattern [] [lit ''api'', Multi], Pattern [] [lit ''admin'', Multi]]"
  have "map (\<lambda>e. parsePattern (str (fst e))) ui_routes =
      map (\<lambda>segs. parsePattern (str (pattern_text ([], segs)))) [[[]], [''api'', []], [''admin'', []]]"
    by (simp add: ui_routes_def)
  also have "\<dots> = map Some ?ps"
    by (simp del: pattern_text.simps add: parsePattern_text written_well_def str_text(1) parse_segment_text with_segments_def)
  finally show ?thesis
    by (subst HandleFuncs_ok [of _ ?ps])
      (simp_all add: conflictsWith_def comparePaths_def compareMethods_def, simp add: ui_routes_def ui_table_def)
qed

lemma ui_exact:
  assumes "2 < length (filter (\<lambda>c. c = slash) path)"
  shows "\<not> exactMatch (matchMethodAndPath ui_table m path) path"
proof (cases "matchMethodAndPath ui_table m path")
  case (Some r)
  obtain p t vals where r: "r = ((p, t), vals)" by (metis surj_pair)
  have "(p, t) \<in> set ui_table" using matched_registered [OF Some [unfolded r]] by simp
  then have "ends_multi (pat_segments p)" "length (pat_segments p) \<le> 2" by (auto simp: ui_table_def)
  with assms Some r show ?thesis by (auto simp: exactMatch_def)
qed (simp add: exactMatch_def)

text \<open>A path of at least two plain segments below \<open>/api\<close> or \<open>/admin\<close> goes to the proxy.\<close>

lemma ui_forwards:
  assumes "m \<noteq> []" "m \<noteq> str ''CONNECT''" "a \<in> {str ''api'', str ''admin''}" "\<forall>s \<in> set (a # b # rest). plain s"
  shows "\<exists>p vals. findHandler ui_table m (path_of (a # b # rest)) = Handler p Proxy vals"
proof -
  let ?path = "path_of (a # b # rest)"
  have none: "method_node k ui_table = []" if "k \<noteq> []" for k using that by (simp add: ui_table_def)
  have below: "matchPath [([Multi], r)] [] (b # rest) = Some (r, [])" for r :: "pattern \<times> ui_target"
    by (simp add: lit_child_def wild_child_def leaf_def List.map_filter_def matchPath_Nil)
  have "lit_child a (method_node [] ui_table) = [([Multi], (Pattern [] [Lit a, Multi], Proxy))]"
    using assms(3) by (auto simp: ui_table_def lit_child_def List.map_filter_def)
  then have "matchPath (method_node [] ui_table) [] (a # b # rest) = Some ((Pattern [] [Lit a, Multi], Proxy), [])"
    by (subst matchPath.simps(2)) (simp only: below option.case)
  moreover have "path_steps ?path = a # b # rest" using assms(4) by (intro path_steps_plain) 
  ultimately have match: "matchMethodAndPath ui_table m ?path = Some ((Pattern [] [Lit a, Multi], Proxy), [])"
    using assms(1) by (simp add: matchMethodAndPath_def none matchPath_Nil del: matchPath.simps)
  have "2 < length (filter (\<lambda>c. c = slash) (?path @ [slash]))" by (simp add: path_of_def)
  from ui_exact [OF this, of m] match show ?thesis
    using assms(2,4) cleanPath_plain [of "a # b # rest"] by (simp add: findHandler_def Let_def)
qed

text \<open>
  C38: The web interface listens on every address of the machine and passes requests on over a loopback
  connection, so the check that lets only the local machine in never sees where a request came from:
  for every route of the client, whoever can reach the interface, whatever its own address, gets the
  request handled by that route's handler as if it were local.
\<close>

theorem ui_bypasses_localhost_check:
  assumes "ui_main url_ok raw args = Go (Inr u)" "local_addr x source"
    and "(p, Route (localhostOnly g)) \<in> set client_mux" "length vals = wildcards (pat_segments p)"
    and "\<forall>v \<in> set vals. plain v \<and> v \<noteq> str ''search''"
  shows "ui_serve u source (pat_method p) (path_of (fill (pat_segments p) vals)) rq = Forward (rq\<lparr>rq_RemoteAddr := source\<rparr>) \<and>
    serve x False (pat_method p) (path_of (fill (pat_segments p) vals)) None [] (rq\<lparr>rq_RemoteAddr := source\<rparr>) c =
      bindS (g x (with_values (rq\<lparr>rq_RemoteAddr := source\<rparr>) p vals) c) (\<lambda>rep c. (Inr (Handled rep), c))"
proof
  have u: "ui_mux u = ui_table"
    using assms(1) by (auto simp: ui_main_def ui_registers Let_def split: process.splits if_splits)
  have m: "pat_method p \<noteq> []" "pat_method p \<noteq> str ''CONNECT''" using registered_route [OF assms(3)] by auto
  note n = not_transport(1) [OF assms(3) m(1)]
  have "\<forall>q \<in> set (tl client_patterns). \<exists>a b t. pat_segments q = Lit a # Lit b # t \<and> a \<in> {str ''api'', str ''admin''}"
    by (simp add: client_patterns_def)
  with n obtain a b t where p: "pat_segments p = Lit a # Lit b # t" "a \<in> {str ''api'', str ''admin''}" by blast
  then have "\<forall>s \<in> set (a # b # fill t vals). plain s" using plain_fill(1) [OF n, of vals] assms(5) by simp
  from ui_forwards [OF m p(2) this]
  show "ui_serve u source (pat_method p) (path_of (fill (pat_segments p) vals)) rq = Forward (rq\<lparr>rq_RemoteAddr := source\<rparr>)"
    by (auto simp: ui_serve_def u p(1))
  show "serve x False (pat_method p) (path_of (fill (pat_segments p) vals)) None [] (rq\<lparr>rq_RemoteAddr := source\<rparr>) c =
      bindS (g x (with_values (rq\<lparr>rq_RemoteAddr := source\<rparr>) p vals) c) (\<lambda>rep c. (Inr (Handled rep), c))"
    using assms(2) by (intro route_served assms(3-5)) simp
qed

theorem ui_bypasses_localhost_check_witness:
  "\<exists>u. ui_main (\<lambda>_. True) [] [] = Go (Inr u) \<and>
     ui_serve u (str ''127.0.0.1:50'') (str ''GET'') (path_of [str ''admin'', str ''peers''])
       ((local_request [] [] None)\<lparr>rq_RemoteAddr := str ''10.0.0.1:50''\<rparr>) = Forward (local_request [] [] None)"
proof -
  obtain u where u: "ui_main (\<lambda>_. True) [] [] = Go (Inr u)"
    by (simp add: ui_main_def FlagSet_Parse.simps parseOne_def ui_registers Let_def)
  have m: "(Pattern (str ''GET'') [lit ''admin'', lit ''peers''], Route (localhostOnly adminListPeers)) \<in> set client_mux"
    by (simp add: client_mux_def client_patterns_def listen_routes_def registerRoutes_def)
  from ui_bypasses_localhost_check [OF u demo_addresses(1) m, of "[]" "(local_request [] [] None)\<lparr>rq_RemoteAddr := str ''10.0.0.1:50''\<rparr>" demo_client]
  show ?thesis using u by (auto simp: local_request_def)
qed

end
