(* ===== verification/Spec2Isabelle.thy ===== *)
theory Spec2Isabelle
  imports EndToEnd SessionRaces Traces Program WebUI
begin

text \<open>
  Verification of the peer-to-peer chat client: its message and signal formats, its encrypted store,
  its sessions, the client built on them, and the interface of the local user.

  \<^bold>\<open>The program.\<close>  Each user runs one client (\<open>cmd/main.go\<close>, \<open>client/\<close>).  It keeps an identity in a key
  file (\<open>keys/generate.go\<close>) and messages, files, known peers, queued signals and a profile in an
  SQLite database whose values are sealed with the private key (\<open>store/\<close>, \<open>message/message.go\<close>).
  Clients connect to each other over websockets; a connection becomes a session by a signed key
  exchange (\<open>client/session.go\<close>), after which both sides send signals (\<open>signal/signal.go\<close>) and file
  chunks, sealed under a counter.  A peer is pending until the user accepts it.  What is meant for a
  peer that is not connected waits in the outbox.  The user works through HTTP routes that serve the
  local machine (\<open>client/api.go\<close>, \<open>client/routes.go\<close>), typically from the web page of \<open>ui/main.go\<close>.

  \<^bold>\<open>How it is modelled.\<close>  Definitions keep the names of the source; where a name is used twice or is
  taken, the package comes first (\<open>signal_New\<close>, \<open>chats_Get\<close>, \<open>message_Put\<close>).  A fallible operation
  returns \<open>fault + 'a\<close>: an error value or a panic.  State is passed explicitly: an operation takes a
  state and returns its result and the new state, and \<open>bindS\<close>, \<open>catchS\<close>, \<open>ignoreS\<close>, \<open>wrapS\<close> and
  \<open>forS\<close> are the ways Go code goes on after a call.  Sessions are objects named by references into a
  heap.  Everything the program observes, whether a statement, a write or a read succeeds, the time,
  a random value, the order of rows a query leaves equal, is a function of a counter \<open>tick\<close> that every
  observation advances, so each theorem holds for every course of events; in particular the clock may
  be set back.  Cryptography, UUIDs, SQL's \<open>LIKE\<close>, JSON and address parsing are
  the parameter \<open>x\<close> of type \<open>ext\<close> (theory \<open>External\<close>), with their documented laws as named hypotheses
  (\<open>aead_laws\<close>, \<open>signature_laws\<close>, \<open>dh_laws\<close>, \<open>uuid_laws\<close>, \<open>like_laws\<close>, \<open>json_laws\<close>); \<open>demo_ext\<close> and
  \<open>demo_net\<close> are concrete instances that satisfy them, on which the witnesses run.  Smaller parameters
  stand where they are used: the parsers of durations and log levels and the table of printable
  characters (\<open>flag_lib\<close>), whether a TLS key pair loads (\<open>keypair\<close>), whether \<open>url.Parse\<close> accepts an
  address (\<open>url_ok\<close>), and whether the HTTP rate limiter turns a request away (\<open>limited\<close>).  The parts of
  the standard library whose behaviour the program rests on are defined as Go documents them: UTF-8
  (\<open>Text\<close>), the flag package (\<open>Flags\<close>), the request multiplexer (\<open>Mux\<close>).

  \<^bold>\<open>Theories.\<close>
  \<^item> \<open>Prelude\<close>, \<open>Config\<close>, \<open>Wire\<close>: results and their rules, byte strings, big-endian numbers, constants
    of \<open>config/config.go\<close>; the locale of a wire format.
  \<^item> \<open>Text\<close>, \<open>Flags\<close>: UTF-8 and the sanitizing of the client's name; the command line of
    \<open>config/config.go\<close>: every configuration can be written as one and is read back from it, and how a
    wrong one ends the program.
  \<^item> \<open>Signal\<close>, \<open>MessageCodec\<close>, \<open>ClientCodec\<close>: the binary formats.  Each interprets the wire format
    locale: decoding inverts encoding, the decoder accepts exactly the wire forms, never reads outside
    its buffer, and where it panics is characterised.
  \<^item> \<open>RateLimit\<close>: the token bucket; how many signals pass in a given time.
  \<^item> \<open>Keys\<close>: hexadecimal forms, signing, the key file and that an identity persists.
  \<^item> \<open>StoreCrypto\<close>, \<open>Tables\<close>, \<open>Store\<close>: sealing at rest, tables as row lists with a primary key (a locale
    interpreted for each table), and every operation of the five stores.
  \<^item> \<open>Outbox\<close>: the locale of a queue per peer ordered by the second of queueing, implemented by the rows
    of the outbox table; first in, first out when no two entries share a second, and what happens when
    two do.
  \<^item> \<open>MessageStore\<close>: \<open>message/message.go\<close> over the stores; the cache never shows, what is put is got,
    updated, deleted and found.
  \<^item> \<open>Session\<close>, \<open>SessionRaces\<close>: key exchange and channel; agreement, authentication, frames accepted
    once and in order, counters never repeated; and, with a step for each critical section of \<open>send\<close> and
    \<open>closeConn\<close>, what concurrent senders deliver under every interleaving, and what they and a
    concurrent close can do to each other.
  \<^item> \<open>Client\<close>, \<open>Incoming\<close>: \<open>client/client.go\<close>: sending, the outbox, and what an incoming payload may do.
  \<^item> \<open>Net\<close>, \<open>Connections\<close>, \<open>Delivery\<close>, \<open>Opening\<close>: \<open>client/handlers.go\<close> and \<open>client/peer.go\<close>: addresses,
    admission, opening, reading and closing of sessions.
  \<^item> \<open>Api\<close>, \<open>Authority\<close>: every route and what it takes to use it.
  \<^item> \<open>Mux\<close>, \<open>Server\<close>: patterns, conflicts and matching of the multiplexer, with a specification of which
    pattern wins; the table of \<open>Listen\<close> registers without a panic, every route is reached by the requests
    made from its pattern, and from other machines only the transport is.
  \<^item> \<open>WebUI\<close>: \<open>ui/main.go\<close> in front of that server.
  \<^item> \<open>EndToEnd\<close> and this theory: a message, a message for an absent peer and a file from one client to the
    other.
  \<^item> \<open>Walk\<close>: the client as a state machine (\<open>client_step\<close>), and the locale \<open>client_footprint\<close>, which extends
    the footprint locales of \<open>Incoming\<close> and \<open>Delivery\<close>: a relation that holds across a few primitive
    changes holds across every step and every run.
  \<^item> \<open>Soundness\<close>, \<open>System\<close>: its first instance, an invariant of all reachable states; the websocket
    handler, from admission to clean-up, as a run.
  \<^item> \<open>Traces\<close>: its second instance, what a session of a run sends and reads; no run reuses a nonce, and
    as long as sends on a session do not overlap, what a run sends is what the peer reads.
  \<^item> \<open>Lifecycle\<close>, \<open>Program\<close>: start, restart, pings, reconnecting and shutdown; \<open>cmd/main.go\<close> and the lives
    of the program on one machine, across interrupts, crashes at any moment, inside a handler too, and
    restarts.

  \<^bold>\<open>How the parts fit.\<close>  The invariant of \<open>System.reachable_states_sound\<close> is what the theorems about
  single operations assume of a state (a coherent cache, a readable outbox, unique keys), so they hold
  in every state a client can reach.  A step of the state machine is one handler call, one frame, one
  request; steps are atomic.  Below that grain, goroutines interleave inside \<open>send\<close>, \<open>closeConn\<close> and
  \<open>loadPlain\<close>; these interleavings are treated on their own in \<open>SessionRaces\<close> and \<open>MessageStore\<close>.  What
  \<open>Traces\<close> says of the nonces of a session holds there as well, since a counter is drawn under the lock;
  what it says of delivery does not, and \<open>SessionRaces.raced_delivery\<close> says what does.  The coherence of
  the cache can be lost to a read that overlaps a delete (\<open>MessageStore.cache_race_resurrects\<close>).

  \<^bold>\<open>Bounds.\<close>  No fuel is used: loops are recursions over what they read.  The read loop's frames are a
  list that ends with the read error, the reconnect loop's attempts a list that ends with the
  cancellation.  Lengths in the formats are limited to their 16, 32 and 64 bits as in the code, and
  the counters of the channel are words of 64 bits.  Files are cut into chunks by the reader passed to
  \<open>sendFile\<close>, any chunks that are not empty.

  \<^bold>\<open>What goes wrong.\<close>  Several theorems state behaviour the program would not want: a session is
  registered under the key of the URL although another key was proved, a pending peer accepts itself,
  a message signal replaces messages of others, concurrent sends get out of step, the web page opens
  the local routes to everybody, a deleted message returns from the cache, signals queued in one second
  may swap, and every start resets the profile.

  Smaller ones: the client's name may be cut inside a character, a wrong command line never reaches the
  program's own error branch, and a failed ping leaves its session open.

  \<^bold>\<open>Not modelled.\<close>  Log output and the text of the flag usage; TLS itself, compression, deadlines and
  read limits, which only decide when a read or a write fails; the counting of the HTTP rate limiter, a
  third-party package; binding the port and the error \<open>Listen\<close> logs when that fails; a failing random
  source and a missing path of the executable, on which \<open>keys/generate.go\<close> panics before anything else
  happens; the parsing of HTTP itself, of JSON bodies and of forms, of which the handlers see the
  result.  The order in which \<open>sync.Map\<close> ranges is the order of the list of sessions; no theorem depends
  on it.
\<close>

subsection \<open>From one client to the other\<close>

text \<open>
  C1: A message reaches the peer: sent on an accepted session whose two ends are in step, it leaves as
  exactly one frame, the peer's read loop opens and handles that frame, and reading the message at the
  peer gives what was sent, with the sender's key as its author; the sender keeps the same message as
  its own, and the two ends are in step for the next one.
\<close>

theorem message_reaches_peer:
  assumes "in_step x (cl_heap a ra) (cl_heap b rb)" "\<And>t. x_db x t" "\<And>t. x_write x t"
    and "cache_coherent x (secret_of a) a" "cache_coherent x (secret_of b) b"
    and "sessions_Load kb a = Some ra" "sess_status ra a = Accepted" "conn_live (cl_heap a ra)"
    and "lets_through x rb b"
    and "message_ok msg" "msg_ID msg \<noteq> uuid_Nil" "length (message_wire msg) \<le> 4294967295"
  shows "\<exists>a' f b'. sendMessageToPeer x kb msg a = (Inr (), a') \<and>
    conn_frames (cl_heap a' ra) = conn_frames (cl_heap a ra) @ [f] \<and>
    read_frames x rb (own_key a) [f] b = (read_error, b') \<and>
    fst (message_Get x (secret_of b) (msg_ID msg) b') = Inr (msg\<lparr>msg_FromPubKey := own_key a\<rparr>) \<and>
    stored x (secret_of a) a' (x_uuid_String x (msg_ID msg)) =
      stored x (secret_of b) b' (x_uuid_String x (msg_ID msg)) \<and>
    in_step x (cl_heap a' ra) (cl_heap b' rb)"
proof -
  obtain key where k: "aead_laws x" "has_send_key (cl_heap a ra) key" "has_recv_key (cl_heap b rb) key"
    "cph_nonce (ss_sendr (cl_heap a ra)) = cph_nonce (ss_recv (cl_heap b rb))"
    using assms(1) by (rule in_step_key)
  let ?m = "as_own a msg" and ?k = "own_key a" and ?s = "message_signal a msg"
  have cs: "can_send ra key a" using k(2) assms(8) by (simp add: can_send_def)
  have len: "length (message_wire ?m) \<le> 4294967295" using assms(12) by (simp add: message_wire_def as_own_def)
  obtain a' where a': "sendMessageToPeer x kb msg a = (Inr (), a')"
    "cl_heap a' ra = sent x key (signal_wire ?s) (cl_heap a ra)"
    "stored x (secret_of a) a' (x_uuid_String x (msg_ID msg)) = Some (message_wire ?m)"
    using sendMessageToPeer_live [OF k(1) assms(4,2,3,6,7) cs assms(10,11) len] by blast
  let ?f = "sealed_frame x key (cph_nonce (ss_sendr (cl_heap a ra))) (signal_wire ?s)"
  have fr: "conn_frames (cl_heap a' ra) = conn_frames (cl_heap a ra) @ [?f]"
    using assms(8) by (auto simp: a'(2) conn_live_def intro: conn_frames_sent)
  obtain b' where b': "read_frames x rb ?k [?f] b = (read_error, b')"
    "fst (message_Get x (secret_of b) (msg_ID msg) b') = Inr (msg\<lparr>msg_FromPubKey := ?k\<rparr>)"
    "stored x (secret_of b) b' (x_uuid_String x (msg_ID msg)) = Some (message_wire ?m)"
    "ss_recv (cl_heap b' rb) = ss_recv (next_recv (cl_heap b rb))"
    using message_frame_stored [OF k(1,3,4) assms(2,5,9,10-12)] by blast
  have "in_step x (cl_heap a' ra) (cl_heap b' rb)"
    unfolding a'(2) by (rule in_step_sent [OF assms(1) b'(4)])
  with a'(1,3) fr b'(1-3) show ?thesis by (intro exI conjI) simp_all
qed

lemma demo_lets_through: "lets_through demo_ext 0 demo_client"
  by (simp add: lets_through_def demo_client_def demo_session_def Allow_def newMsgLimiter_def limiter_interval_def
      Sub_def int64_def Let_def)

theorem message_reaches_peer_witness:
  "\<exists>a' f b'. sendMessageToPeer demo_ext 9 sample_message demo_client = (Inr (), a') \<and>
     read_frames demo_ext 0 6 [f] demo_client = (read_error, b') \<and>
     fst (message_Get demo_ext 5 9 b') = Inr (sample_message\<lparr>msg_FromPubKey := 6\<rparr>)"
proof -
  have k: "secret_of demo_client = 5" "own_key demo_client = 6"
    by (simp_all add: demo_client_def keys_of_seed_def) (simp add: demo_ext_def)
  have m: "msg_ID sample_message = 9" "length (message_wire sample_message) \<le> 4294967295"
    by (simp_all add: sample_message_def message_wire_def attachment_wire_def str_def)
  have s: "in_step demo_ext (cl_heap demo_client 0) (cl_heap demo_client 0)" "sessions_Load 9 demo_client = Some 0"
    "sess_status 0 demo_client = Accepted" "conn_live (cl_heap demo_client 0)"
    using demo_in_step by (simp_all add: demo_client_def sessions_Load_def demo_session_def conn_live_def)
  from message_reaches_peer [OF s(1) _ _ _ _ s(2-4) demo_lets_through sample_message_ok _ m(2), unfolded k m(1)]
    demo_client_ok(2)
  show ?thesis by (fastforce)
qed

text \<open>
  C2: A message for an absent peer arrives once the peer is back: it is queued while the peer has no
  accepted session; in whatever state the client is when it flushes the queue, as long as it still holds
  what was queued, the message leaves as one frame, the peer's read loop stores it, and the peer reads
  what was sent, with the sender's key as its author; the queue is then empty.
\<close>

theorem offline_message_arrives:
  assumes "outbox_ok x (secret_of a) a" "cache_coherent x (secret_of a) a" "\<And>t. x_db x t" "\<And>t. x_write x t"
    and "\<And>t. lookup_row ob_id (outbox a) (x_uuid_String x (x_uuid_New x t)) = None"
    and "\<And>r. sessions_Load kb a = Some r \<Longrightarrow> sess_status r a \<noteq> Accepted"
    and "outbox_queue x (secret_of a) a kb = []"
    and "message_ok msg" "msg_ID msg \<noteq> uuid_Nil" "length (message_wire msg) \<le> 4294967295"
    and "sendMessageToPeer x kb msg a = (Inr (), a1)"
    and "cl_Keys a2 = cl_Keys a" "outbox_ok x (secret_of a) a2"
    and "outbox_queue x (secret_of a) a2 kb = outbox_queue x (secret_of a) a1 kb"
    and "sessions_Load kb a2 = Some ra" "sess_status ra a2 = Accepted" "conn_live (cl_heap a2 ra)"
    and "in_step x (cl_heap a2 ra) (cl_heap b rb)" "cache_coherent x (secret_of b) b" "lets_through x rb b"
  shows "\<exists>a3 f b'. flushOutbox x kb a2 = (Inr (), a3) \<and> outbox_queue x (secret_of a) a3 kb = [] \<and>
    conn_frames (cl_heap a3 ra) = conn_frames (cl_heap a2 ra) @ [f] \<and>
    read_frames x rb (own_key a) [f] b = (read_error, b') \<and>
    fst (message_Get x (secret_of b) (msg_ID msg) b') = Inr (msg\<lparr>msg_FromPubKey := own_key a\<rparr>)"
proof -
  obtain key where k: "aead_laws x" "has_send_key (cl_heap a2 ra) key" "has_recv_key (cl_heap b rb) key"
    "cph_nonce (ss_sendr (cl_heap a2 ra)) = cph_nonce (ss_recv (cl_heap b rb))"
    using assms(18) by (rule in_step_key)
  obtain i d where q: "outbox_queue x (secret_of a) a2 kb = [(i, d, signal_wire (message_signal a msg))]"
    using sendMessageToPeer_offline [of x a kb msg, OF assms(1-3,5,6,8-10)] assms(7,11,14) by auto
  have sec: "secret_of a2 = secret_of a" using assms(12) by simp
  obtain res a3 where fl: "flushOutbox x kb a2 = (res, a3)" by fastforce
  let ?f = "sealed_frame x key (cph_nonce (ss_sendr (cl_heap a2 ra))) (signal_wire (message_signal a msg))"
  have one: "map ob_SignalContent es = [signal_wire (message_signal a msg)]"
    if "image_mset signal_entry (mset es) = {#(i, d, signal_wire (message_signal a msg))#}" for es
  proof -
    have "map signal_entry es = [(i, d, signal_wire (message_signal a msg))]" using that by (simp flip: mset_map)
    then show ?thesis by (auto simp: signal_entry_def)
  qed
  have "res = Inr () \<and> outbox_queue x (secret_of a) a3 kb = [] \<and>
      conn_frames (cl_heap a3 ra) = conn_frames (cl_heap a2 ra) @ [?f]"
    using flushOutbox_spec [of x a2 kb ra key res a3, unfolded sec q, OF assms(13,3,15-16) k(2) assms(17) fl] assms(4)
    by (auto dest!: one)
  moreover obtain b' where "read_frames x rb (own_key a) [?f] b = (read_error, b')"
    "fst (message_Get x (secret_of b) (msg_ID msg) b') = Inr (msg\<lparr>msg_FromPubKey := own_key a\<rparr>)"
    using message_frame_stored [OF k(1,3,4) assms(3,19,20,8-10)] by blast
  ultimately show ?thesis using fl by blast
qed

theorem offline_message_arrives_witness:
  "\<exists>a1 a3 f b'. sendMessageToPeer demo_ext 9 sample_message (demo_client\<lparr>cl_sessions := []\<rparr>) = (Inr (), a1) \<and>
     flushOutbox demo_ext 9 (a1\<lparr>cl_sessions := [(9, 0)]\<rparr>) = (Inr (), a3) \<and>
     read_frames demo_ext 0 6 [f] demo_client = (read_error, b') \<and>
     fst (message_Get demo_ext 5 9 b') = Inr (sample_message\<lparr>msg_FromPubKey := 6\<rparr>)"
proof -
  let ?a = "demo_client\<lparr>cl_sessions := []\<rparr>"
  have k: "secret_of ?a = 5" "own_key ?a = 6" "secret_of demo_client = 5"
    by (simp_all add: demo_client_def keys_of_seed_def) (simp add: demo_ext_def)
  have m: "msg_ID sample_message = 9" "length (message_wire sample_message) \<le> 4294967295"
    by (simp_all add: sample_message_def message_wire_def attachment_wire_def str_def)
  have ob: "outbox_ok demo_ext 5 ?a" "outbox ?a = []" "tick ?a = 0" "cl_heap ?a = (\<lambda>_. demo_session)"
    using demo_client_ok(1) [of 5] outbox_ok_cong [of demo_ext 5 demo_client ?a] by (simp_all add: demo_client_def)
  have co: "cache_coherent demo_ext 5 ?a" using demo_client_ok(2) [of 5] coherent_cong [of ?a demo_client] by simp
  have none: "sessions_Load 9 ?a = None" by (simp add: sessions_Load_def)
  have q: "outbox_queue demo_ext 5 ?a 9 = []" by (simp add: outbox_queue_def ob(2))
  obtain a1 where a1: "sendMessageToPeer demo_ext 9 sample_message ?a = (Inr (), a1)" "outbox_ok demo_ext 5 a1"
    "cl_heap a1 = cl_heap ?a" "cl_Keys a1 = cl_Keys ?a"
    using sendMessageToPeer_offline [of demo_ext ?a 9 sample_message, unfolded k, OF ob(1) co _ _ _ sample_message_ok _ m(2)]
      none m(1) ob(2) by (auto simp: lookup_row_def)
  let ?a2 = "a1\<lparr>cl_sessions := [(9, 0)]\<rparr>"
  have a2: "outbox_ok demo_ext 5 ?a2" "outbox_queue demo_ext 5 ?a2 9 = outbox_queue demo_ext 5 a1 9"
    "sessions_Load 9 ?a2 = Some 0" "cl_heap ?a2 0 = demo_session" "cl_Keys ?a2 = cl_Keys ?a"
    using a1(2-4) outbox_ok_cong [of demo_ext 5 a1 ?a2] outbox_queue_cong [of ?a2 a1 demo_ext 5]
    by (simp_all add: sessions_Load_def ob(4))
  have s: "sess_status 0 ?a2 = Accepted" "conn_live (cl_heap ?a2 0)" "in_step demo_ext (cl_heap ?a2 0) (cl_heap demo_client 0)"
    using demo_in_step unfolding a2(4) by (simp_all add: demo_client_def demo_session_def conn_live_def)
  from offline_message_arrives [of demo_ext ?a 9 sample_message a1 ?a2 0 demo_client 0, unfolded k, OF ob(1) co _ _ _ _ q
      sample_message_ok _ m(2) a1(1) a2(5,1,2,3) s demo_client_ok(2) demo_lets_through] none m(1) ob(2) a1(1)
  show ?thesis by (auto simp: lookup_row_def)
qed

text \<open>
  C3: A file reaches the peer: a file of any positive size, sent on a session whose two ends are in step,
  leaves as its announcement and its chunks, the peer's read loop puts them together, and reading the
  file at the peer gives the bytes sent; no transfer is left open.
\<close>

theorem file_reaches_peer:
  assumes "in_step x (cl_heap a ra) (cl_heap b rb)" "\<And>t. x_db x t" "\<And>t. x_write x t"
    and "conn_live (cl_heap a ra)" "lets_through x rb b" "i \<noteq> uuid_Nil" "data \<noteq> []"
    and "length name \<le> 65535" "length mime \<le> 65535" "length data < 2 ^ 63"
  shows "\<exists>a' fs b'. sendFile x ra i name mime (int (length data)) (chunks_of FileChunkSize data, False) a = (Inr (), a') \<and>
    conn_frames (cl_heap a' ra) = conn_frames (cl_heap a ra) @ fs \<and>
    read_frames x rb (own_key a) fs b = (read_error, b') \<and>
    fst (files_Get x (secret_of b) i b') = Inr data \<and> cl_pendingFiles b' i = None"
proof -
  obtain key where k: "aead_laws x" "has_send_key (cl_heap a ra) key" "has_recv_key (cl_heap b rb) key"
    "cph_nonce (ss_sendr (cl_heap a ra)) = cph_nonce (ss_recv (cl_heap b rb))"
    using assms(1) by (rule in_step_key)
  let ?ds = "chunks_of FileChunkSize data"
  let ?meta = "\<lparr>fm_Name = name, fm_Size = int (length data), fm_MIME = mime\<rparr>"
  let ?fs = "frames_from x key (cph_nonce (ss_recv (cl_heap b rb))) (file_payloads a i ?meta ?ds)"
  have ds: "\<forall>d \<in> set ?ds. d \<noteq> []" "?ds \<noteq> []" "concat ?ds = data"
    using assms(7) chunks_of_ne [of FileChunkSize data] by (simp_all add: concat_chunks_of)
  have ok: "fileMeta_ok ?meta" using assms(8-10) by (simp add: fileMeta_ok_def)
  have cs: "can_send ra key a" using k(2) assms(4) by (simp add: can_send_def)
  obtain a' where a': "sendFile x ra i name mime (int (length data)) (?ds, False) a = (Inr (), a')"
    "cl_heap a' ra = sent_all x key (file_payloads a i ?meta ?ds) (cl_heap a ra)"
    using sendFile_live [OF assms(3) cs ds(1) ok] by blast
  obtain b' where b': "forS (deliver x rb (own_key a)) (file_payloads a i ?meta ?ds) b = (Inr (), b')"
    "cl_pendingFiles b' i = None" "fst (files_Get x (secret_of b) i b') = Inr (concat ?ds)"
    using deliver_file [OF k(1) assms(2,6,5) ok ds(1,2)] ds(3) by auto
  have "read_frames x rb (own_key a) ?fs b = (read_error, b')"
    using read_frames_opened [of x rb "own_key a" ?fs b] opened_frames [OF k(1,3)] b'(1) by simp
  moreover have "conn_frames (cl_heap a' ra) = conn_frames (cl_heap a ra) @ ?fs"
    using assms(4) sent_all_frames [of "cl_heap a ra" x key "file_payloads a i ?meta ?ds"]
    by (auto simp: a'(2) conn_live_def k(4))
  ultimately show ?thesis using a'(1) b'(2,3) ds(3) by (intro exI conjI) simp_all
qed

theorem file_reaches_peer_witness:
  "\<exists>a' fs b'. sendFile demo_ext 0 8 (str ''f'') [] 3 (chunks_of FileChunkSize [1, 2, 3], False) demo_client = (Inr (), a') \<and>
     read_frames demo_ext 0 (own_key demo_client) fs demo_client = (read_error, b') \<and>
     fst (files_Get demo_ext (secret_of demo_client) 8 b') = Inr [1, 2, 3]"
proof -
  have s: "in_step demo_ext (cl_heap demo_client 0) (cl_heap demo_client 0)" "conn_live (cl_heap demo_client 0)"
    using demo_in_step by (simp_all add: demo_client_def demo_session_def conn_live_def)
  from file_reaches_peer [OF s(1) _ _ s(2) demo_lets_through, of 8 "[1, 2, 3]" "str ''f''" "[]"] show ?thesis
    by (auto simp: str_def)
qed

end
